theory Spec2Isabelle
  imports Main "HOL-Library.Word" "HOL-Library.Monad_Syntax"
begin

section \<open>The interactive init wizard of lxd/main_init_interactive.go\<close>

text \<open>
  The wizard asks the operator a sequence of questions and fills an \<open>initData\<close> value.
  The embedding follows the Go source function by function. A Go \<open>map[string]string\<close> is a
  partial map; reading a missing key gives the empty string (\<open>mget\<close>). The fields of
  \<open>initData\<close> and of the API structs are the ones the source reads or writes.
\<close>

subsection \<open>Data model\<close>

type_synonym config_map = "string \<rightharpoonup> string"

definition mget :: "config_map \<Rightarrow> string \<Rightarrow> string" where
  "mget m k = (case m k of None \<Rightarrow> [] | Some v \<Rightarrow> v)"

text \<open>\<open>api.StoragePool\<close>, an entry of the list a cluster node returns.\<close>

record StoragePool =
  pool_Name :: string
  pool_Driver :: string
  pool_Status :: string
  pool_Config :: config_map

text \<open>\<open>api.StoragePoolsPost\<close>: the embedded \<open>StoragePoolPut\<close> (its \<open>Config\<close>), \<open>Driver\<close>, \<open>Name\<close>.\<close>

record StoragePoolsPost =
  sp_Name :: string
  sp_Driver :: string
  sp_Config :: config_map

text \<open>\<open>api.Network\<close> and \<open>api.NetworksPost\<close>.\<close>

record Network =
  net_Name :: string
  net_Type :: string
  net_Managed :: bool
  net_Status :: string
  net_Config :: config_map

record NetworksPost =
  np_Name :: string
  np_Type :: string
  np_Managed :: bool
  np_Config :: config_map

text \<open>\<open>api.ProfilesPost\<close>: a name, a config map and a map from device name to device.\<close>

record ProfilesPost =
  prof_Name :: string
  prof_Config :: config_map
  prof_Devices :: "string \<rightharpoonup> config_map"

record initDataCluster =
  Enabled :: bool
  ServerName :: string
  ClusterAddress :: string
  ClusterCertificate :: string
  ClusterPassword :: string

text \<open>
  \<open>initData\<close>. \<open>Config\<close> is a \<open>map[string]interface{}\<close> in Go; every value the wizard stores
  is a string, and a missing key reads as the nil interface (\<open>None\<close> here).
\<close>

record initData =
  Config :: config_map
  Networks :: "NetworksPost list"
  StoragePools :: "StoragePoolsPost list"
  Profiles :: "ProfilesPost list"
  Cluster :: "initDataCluster option"

text \<open>\<open>syscall.Statfs_t\<close> on linux/amd64: \<open>Frsize\<close> is an int64 (converted to uint64 by the
  source before use, which keeps the bits), the block counts are uint64.\<close>

record Statfs_t =
  Frsize :: "64 word"
  Blocks :: "64 word"
  Bfree :: "64 word"
  Bavail :: "64 word"

datatype ip_family = IPv4 | IPv6

text \<open>The client connected to the cluster node: what its two list calls return
  (\<open>None\<close> is an error).\<close>

record ContainerServer =
  GetStoragePools :: "StoragePool list option"
  GetNetworks :: "Network list option"

record ConnectionArgs =
  TLSClientCert :: string
  TLSClientKey :: string
  TLSServerCert :: string

text \<open>
  Everything the wizard observes of the host and of the network, taken as parameters: these
  functions live outside the file (the Go standard library, \<open>shared\<close>, \<open>util\<close>, \<open>cluster\<close>,
  the local daemon \<open>d\<close>). An \<open>option\<close> result is \<open>None\<close> where the Go call returns an error.
\<close>

record host =
  Hostname :: "string option"
  NetworkInterfaceAddress :: string
  CanonicalNetworkAddress :: "string \<Rightarrow> string"
  SplitHostPortFails :: "string \<Rightarrow> bool"
  GetRemoteCertificate :: "string \<Rightarrow> string option"
  PemEncode :: "string \<Rightarrow> string"
  LoadCert :: "(string \<times> string) option"
  SetupTrustFails :: "string \<Rightarrow> string \<Rightarrow> string \<Rightarrow> string \<Rightarrow> bool"
  ConnectLXD :: "string \<Rightarrow> ConnectionArgs \<Rightarrow> ContainerServer option"
  GetNetworkOk :: "string \<Rightarrow> bool"
  GetStoragePoolOk :: "string \<Rightarrow> bool"
  PathExists :: "string \<Rightarrow> bool"
  availableStorageDrivers :: "string \<Rightarrow> string list"
  FilesystemDetect :: "string option"
  VarPath :: "string list \<Rightarrow> string"
  IsBlockdevPath :: "string \<Rightarrow> bool"
  Statfs :: "Statfs_t option"
  LookPathThinCheck :: bool
  IdmapUnusable :: bool
  RunningInUserNS :: bool
  ParseIP :: "string \<Rightarrow> ip_family option"
  networkValidName :: "string \<Rightarrow> bool"
  networkValidAddressCIDRV4 :: "string \<Rightarrow> bool"
  networkValidAddressCIDRV6 :: "string \<Rightarrow> bool"
  YamlMarshalFails :: "initData \<Rightarrow> bool"

datatype error =
    UserAborted
  | LoadCertFailed
  | SetupTrustFailed
  | ConnectFailed
  | GetStoragePoolsFailed
  | GetNetworksFailed
  | NoBackends string
  | PoolExists string
  | StatfsFailed
  | ThinToolsMissing
  | RenderFailed
  | IndexOutOfRange

subsection \<open>The operator and the prompts\<close>

text \<open>
  The operator is the finite list of entries still to be typed. An entry is a yes/no, a
  number or a line of text; the empty line is \<open>AStr []\<close>. Each prompt is named after the
  question the source prints, and the wizard's transcript records, for every call of an
  \<open>Ask\<close> function, the question and the value the call returned.
\<close>

datatype answer = ABool bool | AStr string | AInt int

datatype question =
    QUseClustering | QServerName | QServerAddress | QJoinExisting
  | QClusterAddress | QFingerprintOk | QClusterPassword | QWipeData
  | QPoolSource string | QNetworkInterface string
  | QSetupPassword | QTrustPassword
  | QMaasConnect | QMaasHostname | QMaasUrl | QMaasKey
  | QNewBridge | QUseExisting | QExistingName | QMaasConnected
  | QMaasSubnetV4 | QMaasSubnetV6
  | QBridgeName | QIPv4Address | QIPv4Nat | QIPv6Address | QIPv6Nat
  | QLocalPool | QRemotePool | QNewPool | QPoolName | QBackend
  | QBtrfsSubvolume | QCreateNew | QCephCluster | QCephOsdPool | QCephPgNum
  | QUseBlockDevice | QBlockDevicePath | QLoopSize
  | QCephExistingPool | QExistingPool | QLvmContinue
  | QShareAllocation | QNetworkAvailable | QBindAddress | QBindPort
  | QAutoUpdate | QPrintYaml

record world =
  pending :: "answer list"
  transcript :: "(question \<times> answer) list"

definition reply :: "question \<Rightarrow> answer \<Rightarrow> answer list \<Rightarrow> world \<Rightarrow> world" where
  "reply q a rest w = \<lparr>pending = rest, transcript = transcript w @ [(q, a)]\<rparr>"

text \<open>
  Modelled from the spec: the prompting collaborator \<open>cli\<close> (shared/cmd) is not in the file.
  Its contract is \<open>AskBool(question, default) -> bool\<close>,
  \<open>AskString(question, default, validator) -> string\<close>, \<open>AskChoice(question, options,
  default) -> string\<close>, \<open>AskInt(question, min, max, default) -> int\<close> and
  \<open>AskPassword(question) -> string\<close>; an entry that fails validation is recoverable by
  asking the same question again. The empty line stands for the default the question
  offers. A missing validator (\<open>nil\<close>) accepts any non-empty string; the source passes a
  validator that accepts everything where the empty string is to be allowed. A bound of
  \<open>-1\<close> in \<open>AskInt\<close> means no bound, as in the call \<open>AskInt(q, 1, -1, d)\<close> of the source.
  A prompt that finds no more entries never returns (\<open>None\<close>).
\<close>

fun readBool :: "bool \<Rightarrow> answer list \<Rightarrow> (bool \<times> answer list) option" where
  "readBool d [] = None"
| "readBool d (ABool b # rest) = Some (b, rest)"
| "readBool d (AStr s # rest) = (if s = [] then Some (d, rest) else readBool d rest)"
| "readBool d (AInt n # rest) = readBool d rest"

definition accepts :: "(string \<Rightarrow> bool) option \<Rightarrow> string \<Rightarrow> bool" where
  "accepts validate s = (case validate of None \<Rightarrow> s \<noteq> [] | Some v \<Rightarrow> v s)"

fun readString :: "string \<Rightarrow> (string \<Rightarrow> bool) option \<Rightarrow> answer list
    \<Rightarrow> (string \<times> answer list) option" where
  "readString d validate [] = None"
| "readString d validate (AStr s # rest) =
     (let answer = (if s = [] then d else s)
      in if accepts validate answer then Some (answer, rest) else readString d validate rest)"
| "readString d validate (ABool b # rest) = readString d validate rest"
| "readString d validate (AInt n # rest) = readString d validate rest"

definition inRange :: "int \<Rightarrow> int \<Rightarrow> int \<Rightarrow> bool" where
  "inRange lo hi n = ((lo = - 1 \<or> lo \<le> n) \<and> (hi = - 1 \<or> n \<le> hi))"

fun readInt :: "int \<Rightarrow> int \<Rightarrow> int \<Rightarrow> answer list \<Rightarrow> (int \<times> answer list) option" where
  "readInt lo hi d [] = None"
| "readInt lo hi d (AInt n # rest) =
     (if inRange lo hi n then Some (n, rest) else readInt lo hi d rest)"
| "readInt lo hi d (AStr s # rest) =
     (if s = [] \<and> inRange lo hi d then Some (d, rest) else readInt lo hi d rest)"
| "readInt lo hi d (ABool b # rest) = readInt lo hi d rest"

definition AskBool :: "question \<Rightarrow> bool \<Rightarrow> world \<Rightarrow> (bool \<times> world) option" where
  "AskBool q d w =
     (case readBool d (pending w) of
        None \<Rightarrow> None
      | Some (b, rest) \<Rightarrow> Some (b, reply q (ABool b) rest w))"

definition AskString :: "question \<Rightarrow> string \<Rightarrow> (string \<Rightarrow> bool) option \<Rightarrow> world
    \<Rightarrow> (string \<times> world) option" where
  "AskString q d validate w =
     (case readString d validate (pending w) of
        None \<Rightarrow> None
      | Some (s, rest) \<Rightarrow> Some (s, reply q (AStr s) rest w))"

definition AskChoice :: "question \<Rightarrow> string list \<Rightarrow> string \<Rightarrow> world
    \<Rightarrow> (string \<times> world) option" where
  "AskChoice q choices d w = AskString q d (Some (\<lambda>s. s \<in> set choices)) w"

definition AskInt :: "question \<Rightarrow> int \<Rightarrow> int \<Rightarrow> int \<Rightarrow> world \<Rightarrow> (int \<times> world) option" where
  "AskInt q lo hi d w =
     (case readInt lo hi d (pending w) of
        None \<Rightarrow> None
      | Some (n, rest) \<Rightarrow> Some (n, reply q (AInt n) rest w))"

definition AskPassword :: "question \<Rightarrow> world \<Rightarrow> (string \<times> world) option" where
  "AskPassword q w = AskString q [] (Some (\<lambda>s. True)) w"

definition AskPasswordOnce :: "question \<Rightarrow> world \<Rightarrow> (string \<times> world) option" where
  "AskPasswordOnce q w = AskString q [] (Some (\<lambda>s. True)) w"

subsection \<open>Storage: the default driver and the default loop size\<close>

text \<open>Lines 403-406: the backing filesystem of the data directory, \<open>dir\<close> when detection fails.\<close>

definition backingFs :: "host \<Rightarrow> string" where
  "backingFs h = (case FilesystemDetect h of None \<Rightarrow> ''dir'' | Some fs \<Rightarrow> fs)"

text \<open>Lines 408-415.\<close>

definition defaultStorage :: "string \<Rightarrow> string list \<Rightarrow> string" where
  "defaultStorage fs availableBackends =
     (if fs = ''btrfs'' \<and> ''btrfs'' \<in> set availableBackends then ''btrfs''
      else if ''zfs'' \<in> set availableBackends then ''zfs''
      else if ''btrfs'' \<in> set availableBackends then ''btrfs''
      else ''dir'')"

text \<open>Line 496 and lines 497-502, in uint64 arithmetic.\<close>

definition rawSize :: "Statfs_t \<Rightarrow> 64 word" where
  "rawSize st = Frsize st * Blocks st div (1024 * 1024 * 1024) div 5"

definition clampSize :: "64 word \<Rightarrow> 64 word" where
  "clampSize x =
     (let y = (if x > 100 then 100 else x)
      in if y < 15 then 15 else y)"

definition defaultSize :: "Statfs_t \<Rightarrow> 64 word" where
  "defaultSize st = clampSize (rawSize st)"

subsection \<open>Formatting\<close>

text \<open>\<open>fmt.Sprintf\<close> with \<open>%d\<close> (decimal) and with \<open>%v\<close> on a bool.\<close>

fun decimal :: "nat \<Rightarrow> string" where
  "decimal n =
     (if n < 10 then [''0123456789'' ! n]
      else decimal (n div 10) @ [''0123456789'' ! (n mod 10)])"

declare decimal.simps [simp del]

definition fmt_d :: "int \<Rightarrow> string" where
  "fmt_d i = (if i < 0 then CHR ''-'' # decimal (nat (- i)) else decimal (nat i))"

definition fmt_v :: "bool \<Rightarrow> string" where
  "fmt_v b = (if b then ''true'' else ''false'')"

subsection \<open>Sequencing\<close>

text \<open>
  A step of the wizard takes the world and returns an error or a value, with the new
  world; \<open>None\<close> when a prompt never returns. \<open>bindE\<close> is the \<open>if err != nil { return err }\<close>
  of the source.
\<close>

type_synonym 'a step = "world \<Rightarrow> ((error + 'a) \<times> world) option"

definition bindE :: "((error + 'a) \<times> world) option \<Rightarrow> ('a \<Rightarrow> 'b step)
    \<Rightarrow> ((error + 'b) \<times> world) option" where
  "bindE m f =
     (case m of
        None \<Rightarrow> None
      | Some (Inl e, w) \<Rightarrow> Some (Inl e, w)
      | Some (Inr x, w) \<Rightarrow> f x w)"

text \<open>\<open>config.Profiles[0].Devices[name] = dev\<close> and \<open>config.Profiles[0].Config[k] = v\<close>; the
  index panics on an empty profile list.\<close>

definition setDevice :: "string \<Rightarrow> config_map \<Rightarrow> initData \<Rightarrow> error + initData" where
  "setDevice name dev config =
     (case Profiles config of
        [] \<Rightarrow> Inl IndexOutOfRange
      | p # ps \<Rightarrow>
          Inr (config\<lparr>Profiles := p\<lparr>prof_Devices := (prof_Devices p)(name \<mapsto> dev)\<rparr> # ps\<rparr>))"

definition setProfileConfig :: "string \<Rightarrow> string \<Rightarrow> initData \<Rightarrow> error + initData" where
  "setProfileConfig k v config =
     (case Profiles config of
        [] \<Rightarrow> Inl IndexOutOfRange
      | p # ps \<Rightarrow>
          Inr (config\<lparr>Profiles := p\<lparr>prof_Config := (prof_Config p)(k \<mapsto> v)\<rparr> # ps\<rparr>))"

definition setConfig :: "string \<Rightarrow> string \<Rightarrow> initData \<Rightarrow> initData" where
  "setConfig k v config = config\<lparr>Config := (Config config)(k \<mapsto> v)\<rparr>"

subsection \<open>askStoragePool (lines 395-547)\<close>

text \<open>Lines 468-519: the questions that fill the pool's config, for a driver other than
  \<open>dir\<close>.\<close>

definition askPoolSource :: "host \<Rightarrow> string \<Rightarrow> config_map \<Rightarrow> config_map step" where
  "askPoolSource h driver cfg w0 = do {
     (create, w1) \<leftarrow> AskBool QCreateNew True w0;
     if create then
       if driver = ''ceph'' then do {
         (cluster, w2) \<leftarrow> AskString QCephCluster ''ceph'' None w1;
         (osd, w3) \<leftarrow> AskString QCephOsdPool ''lxd'' None w2;
         (pg, w4) \<leftarrow> AskString QCephPgNum ''32'' None w3;
         Some (Inr (cfg(''ceph.cluster_name'' \<mapsto> cluster, ''ceph.osd.pool_name'' \<mapsto> osd,
                       ''ceph.osd.pg_num'' \<mapsto> pg)), w4)
       } else do {
         (blockdev, w2) \<leftarrow> AskBool QUseBlockDevice False w1;
         if blockdev then do {
           (path, w3) \<leftarrow> AskString QBlockDevicePath [] (Some (IsBlockdevPath h)) w2;
           Some (Inr (cfg(''source'' \<mapsto> path)), w3)
         } else
           (case Statfs h of
              None \<Rightarrow> Some (Inl StatfsFailed, w2)
            | Some st \<Rightarrow> do {
                (n, w3) \<leftarrow> AskInt QLoopSize 1 (- 1) (uint (defaultSize st)) w2;
                Some (Inr (cfg(''size'' \<mapsto> fmt_d n @ ''GB'')), w3)
              })
       }
     else
       if driver = ''ceph'' then do {
         (cluster, w2) \<leftarrow> AskString QCephCluster ''ceph'' None w1;
         (src, w3) \<leftarrow> AskString QCephExistingPool ''lxd'' None w2;
         Some (Inr (cfg(''ceph.cluster_name'' \<mapsto> cluster, ''source'' \<mapsto> src,
                       ''ceph.osd.pool_name'' \<mapsto> src)), w3)
       } else do {
         (src, w2) \<leftarrow> AskString QExistingPool [] None w1;
         Some (Inr (cfg(''source'' \<mapsto> src)), w2)
       }
   }"

text \<open>Lines 521-540: LVM without the thin provisioning tools.\<close>

definition askThinpool :: "host \<Rightarrow> string \<Rightarrow> config_map \<Rightarrow> config_map step" where
  "askThinpool h driver cfg w0 =
     (if driver = ''lvm'' \<and> \<not> LookPathThinCheck h then do {
        (continue, w1) \<leftarrow> AskBool QLvmContinue True w0;
        if \<not> continue then Some (Inl ThinToolsMissing, w1)
        else Some (Inr (cfg(''lvm.use_thinpool'' \<mapsto> ''false'')), w1)
      } else Some (Inr cfg, w0))"

definition appendPool :: "StoragePoolsPost \<Rightarrow> initData \<Rightarrow> initData" where
  "appendPool pool config = config\<lparr>StoragePools := StoragePools config @ [pool]\<rparr>"

text \<open>Lines 446-451: the driver is asked when there is a choice; \<open>availableBackends[0]\<close>
  panics on an empty list.\<close>

definition askBackend :: "host \<Rightarrow> string list \<Rightarrow> string step" where
  "askBackend h availableBackends w0 =
     (if length availableBackends > 1 then do {
        (driver, w1) \<leftarrow> AskChoice QBackend availableBackends
                          (defaultStorage (backingFs h) availableBackends) w0;
        Some (Inr driver, w1)
      } else
        (case availableBackends of
           [] \<Rightarrow> Some (Inl IndexOutOfRange, w0)
         | driver # rest \<Rightarrow> Some (Inr driver, w0)))"

text \<open>Lines 438-543: the loop body once the name is free. Every path through it leaves the
  loop (\<open>break\<close> or \<open>return\<close>).\<close>

definition configurePool :: "host \<Rightarrow> initData \<Rightarrow> string list \<Rightarrow> string \<Rightarrow> initData step" where
  "configurePool h config availableBackends name w0 =
     (case setDevice ''root'' [''type'' \<mapsto> ''disk'', ''path'' \<mapsto> ''/'', ''pool'' \<mapsto> name] config of
        Inl e \<Rightarrow> Some (Inl e, w0)
      | Inr config1 \<Rightarrow>
          bindE (askBackend h availableBackends w0) (\<lambda>driver w1.
            let pool = \<lparr>sp_Name = name, sp_Driver = driver, sp_Config = Map.empty\<rparr>
            in if driver = ''dir'' then Some (Inr (appendPool pool config1), w1)
               else do {
                 (subvolume, w2) \<leftarrow>
                   (if driver = ''btrfs'' \<and> backingFs h = ''btrfs''
                    then AskBool QBtrfsSubvolume True w1 else Some (False, w1));
                 if subvolume then
                   Some (Inr (appendPool
                     (pool\<lparr>sp_Config := [''source'' \<mapsto> VarPath h [''storage-pools'', name]]\<rparr>)
                     config1), w2)
                 else
                   bindE (askPoolSource h driver Map.empty w2) (\<lambda>cfg w3.
                   bindE (askThinpool h driver cfg w3) (\<lambda>cfg2 w4.
                     Some (Inr (appendPool (pool\<lparr>sp_Config := cfg2\<rparr>) config1), w4)))
               }))"

lemma readBool_shorter: "readBool d as = Some (b, rest) \<Longrightarrow> length rest < length as"
  by (induction d as rule: readBool.induct) (auto split: if_splits)

lemma readString_shorter:
  "readString d v as = Some (s, rest) \<Longrightarrow> length rest < length as"
  by (induction d v as rule: readString.induct) (auto simp: Let_def split: if_splits)

lemma readInt_shorter: "readInt lo hi d as = Some (n, rest) \<Longrightarrow> length rest < length as"
  by (induction lo hi d as rule: readInt.induct) (auto split: if_splits)

lemma AskString_shorter:
  "AskString q d v w = Some (s, w') \<Longrightarrow> length (pending w') < length (pending w)"
  by (auto simp: AskString_def reply_def split: option.splits dest: readString_shorter)

lemma AskBool_shorter:
  "AskBool q d w = Some (b, w') \<Longrightarrow> length (pending w') < length (pending w)"
  by (auto simp: AskBool_def reply_def split: option.splits dest: readBool_shorter)

text \<open>Lines 417-436: the naming loop. A free-form name that exists already is asked again;
  a name fixed by the role fails.\<close>

function storagePoolLoop :: "host \<Rightarrow> initData \<Rightarrow> string \<Rightarrow> string list \<Rightarrow> initData step" where
  "storagePoolLoop h config poolType availableBackends w =
     (case (if poolType = ''all'' then AskString QPoolName ''default'' None w
            else Some (poolType, w)) of
        None \<Rightarrow> None
      | Some (name, w1) \<Rightarrow>
          if GetStoragePoolOk h name then
            (if poolType = ''all'' then storagePoolLoop h config poolType availableBackends w1
             else Some (Inl (PoolExists poolType), w1))
          else configurePool h config availableBackends name w1)"
  by pat_completeness auto
termination
  by (relation "measure (\<lambda>(h, config, poolType, availableBackends, w). length (pending w))")
    (auto dest: AskString_shorter)

declare storagePoolLoop.simps [simp del]

definition askStoragePool :: "host \<Rightarrow> initData \<Rightarrow> string \<Rightarrow> initData step" where
  "askStoragePool h config poolType w =
     (let availableBackends = availableStorageDrivers h poolType
      in if length availableBackends = 0 then Some (Inl (NoBackends poolType), w)
         else storagePoolLoop h config poolType availableBackends w)"

subsection \<open>askStorage (lines 369-393)\<close>

definition askStorage :: "host \<Rightarrow> initData \<Rightarrow> initData step" where
  "askStorage h config w0 =
     (if Cluster config \<noteq> None then do {
        (local, w1) \<leftarrow> AskBool QLocalPool True w0;
        bindE (if local then askStoragePool h config ''local'' w1 else Some (Inr config, w1))
          (\<lambda>config1 w2. do {
             (remote, w3) \<leftarrow> AskBool QRemotePool True w2;
             if remote then askStoragePool h config1 ''remote'' w3 else Some (Inr config1, w3)
           })
      } else do {
        (new, w1) \<leftarrow> AskBool QNewPool True w0;
        if \<not> new then Some (Inr config, w1) else askStoragePool h config ''all'' w1
      })"

subsection \<open>askMAAS (lines 245-264)\<close>

text \<open>Lines 93-96 and 250-253: the host name, \<open>lxd\<close> when the lookup fails.\<close>

definition serverName :: "host \<Rightarrow> string" where
  "serverName h = (case Hostname h of None \<Rightarrow> ''lxd'' | Some n \<Rightarrow> n)"

definition askMAAS :: "host \<Rightarrow> initData \<Rightarrow> initData step" where
  "askMAAS h config w0 = do {
     (connect, w1) \<leftarrow> AskBool QMaasConnect False w0;
     if \<not> connect then Some (Inr config, w1)
     else do {
       (maasHostname, w2) \<leftarrow> AskString QMaasHostname (serverName h) None w1;
       let config1 = (if maasHostname \<noteq> serverName h
                      then setConfig ''maas.machine'' maasHostname config else config);
       (url, w3) \<leftarrow> AskString QMaasUrl [] None w2;
       let config2 = setConfig ''maas.api.url'' url config1;
       (key, w4) \<leftarrow> AskString QMaasKey [] None w3;
       Some (Inr (setConfig ''maas.api.key'' key config2), w4)
     }
   }"

subsection \<open>askNetworking (lines 266-367)\<close>

text \<open>Lines 289-303. The source compares \<open>config.Config["maas.api.url"]\<close>, an
  \<open>interface{}\<close>, with the empty string: a missing key is the nil interface, which differs
  from it.\<close>

definition askMaasSubnets :: "initData \<Rightarrow> config_map \<Rightarrow> world \<Rightarrow> (config_map \<times> world) option" where
  "askMaasSubnets config dev w0 =
     (if Config config ''maas.api.url'' \<noteq> Some [] then do {
        (connected, w1) \<leftarrow> AskBool QMaasConnected True w0;
        if connected then do {
          (maasSubnetV4, w2) \<leftarrow> AskString QMaasSubnetV4 [] (Some (\<lambda>input. True)) w1;
          let dev1 = (if maasSubnetV4 \<noteq> [] then dev(''maas.subnet.ipv4'' \<mapsto> maasSubnetV4)
                      else dev);
          (maasSubnetV6, w3) \<leftarrow> AskString QMaasSubnetV6 [] (Some (\<lambda>input. True)) w2;
          let dev2 = (if maasSubnetV6 \<noteq> [] then dev1(''maas.subnet.ipv6'' \<mapsto> maasSubnetV6)
                      else dev1);
          Some (dev2, w3)
        } else Some (dev, w1)
      } else Some (dev, w0))"

text \<open>Lines 269-306: binding to an existing bridge or host interface.\<close>

function existingInterfaceLoop :: "host \<Rightarrow> initData \<Rightarrow> initData step" where
  "existingInterfaceLoop h config w =
     (case AskString QExistingName [] None w of
        None \<Rightarrow> None
      | Some (name, w1) \<Rightarrow>
          if \<not> PathExists h (''/sys/class/net/'' @ name)
          then existingInterfaceLoop h config w1
          else
            (case Profiles config of
               [] \<Rightarrow> Some (Inl IndexOutOfRange, w1)
             | p # ps \<Rightarrow>
                 (let dev = [''type'' \<mapsto> ''nic'', ''nictype'' \<mapsto> ''macvlan'',
                             ''name'' \<mapsto> ''eth0'', ''parent'' \<mapsto> name];
                      dev1 = (if PathExists h (''/sys/class/net/'' @ name @ ''/bridge'')
                              then dev(''nictype'' \<mapsto> ''bridged'') else dev)
                  in case askMaasSubnets config dev1 w1 of
                       None \<Rightarrow> None
                     | Some (dev2, w2) \<Rightarrow> Some (setDevice ''eth0'' dev2 config, w2))))"
  by pat_completeness auto
termination
  by (relation "measure (\<lambda>(h, config, w). length (pending w))")
    (auto dest: AskString_shorter)

declare existingInterfaceLoop.simps [simp del]

text \<open>Lines 333-345: the IPv4 address of a new bridge, and whether to NAT.\<close>

definition askIPv4 :: "host \<Rightarrow> config_map \<Rightarrow> world \<Rightarrow> (config_map \<times> world) option" where
  "askIPv4 h cfg w0 = do {
     (address, w1) \<leftarrow> AskString QIPv4Address ''auto''
        (Some (\<lambda>value. value \<in> set [''auto'', ''none''] \<or> networkValidAddressCIDRV4 h value)) w0;
     let cfg1 = cfg(''ipv4.address'' \<mapsto> address);
     if mget cfg1 ''ipv4.address'' \<notin> set [''auto'', ''none''] then do {
       (nat, w2) \<leftarrow> AskBool QIPv4Nat True w1;
       Some (cfg1(''ipv4.nat'' \<mapsto> fmt_v nat), w2)
     } else Some (cfg1, w1)
   }"

text \<open>Lines 347-359: the same for IPv6.\<close>

definition askIPv6 :: "host \<Rightarrow> config_map \<Rightarrow> world \<Rightarrow> (config_map \<times> world) option" where
  "askIPv6 h cfg w0 = do {
     (address, w1) \<leftarrow> AskString QIPv6Address ''auto''
        (Some (\<lambda>value. value \<in> set [''auto'', ''none''] \<or> networkValidAddressCIDRV6 h value)) w0;
     let cfg1 = cfg(''ipv6.address'' \<mapsto> address);
     if mget cfg1 ''ipv6.address'' \<notin> set [''auto'', ''none''] then do {
       (nat, w2) \<leftarrow> AskBool QIPv6Nat True w1;
       Some (cfg1(''ipv6.nat'' \<mapsto> fmt_v nat), w2)
     } else Some (cfg1, w1)
   }"

text \<open>Lines 333-363: the addresses of a new bridge, and the network appended to the
  configuration. \<open>network\<close> is the zero \<open>api.NetworksPost\<close> with its name set.\<close>

definition configureBridge :: "host \<Rightarrow> initData \<Rightarrow> NetworksPost \<Rightarrow> initData step" where
  "configureBridge h config network w0 = do {
     (cfg1, w1) \<leftarrow> askIPv4 h (np_Config network) w0;
     (cfg2, w2) \<leftarrow> askIPv6 h cfg1 w1;
     Some (Inr (config\<lparr>Networks := Networks config @ [network\<lparr>np_Config := cfg2\<rparr>]\<rparr>), w2)
   }"

text \<open>Lines 312-364: the naming loop of a new bridge.\<close>

function bridgeLoop :: "host \<Rightarrow> initData \<Rightarrow> initData step" where
  "bridgeLoop h config w =
     (case AskString QBridgeName ''lxdbr0'' (Some (networkValidName h)) w of
        None \<Rightarrow> None
      | Some (name, w1) \<Rightarrow>
          if GetNetworkOk h name then bridgeLoop h config w1
          else
            (case setDevice ''eth0'' [''type'' \<mapsto> ''nic'', ''nictype'' \<mapsto> ''bridged'',
                                     ''name'' \<mapsto> ''eth0'', ''parent'' \<mapsto> name] config of
               Inl e \<Rightarrow> Some (Inl e, w1)
             | Inr config1 \<Rightarrow>
                 configureBridge h config1
                   \<lparr>np_Name = name, np_Type = [], np_Managed = False, np_Config = Map.empty\<rparr> w1))"
  by pat_completeness auto
termination
  by (relation "measure (\<lambda>(h, config, w). length (pending w))")
    (auto dest: AskString_shorter)

declare bridgeLoop.simps [simp del]

definition askNetworking :: "host \<Rightarrow> initData \<Rightarrow> initData step" where
  "askNetworking h config w0 = do {
     (bridge, w1) \<leftarrow> AskBool QNewBridge True w0;
     if \<not> bridge then do {
       (existing, w2) \<leftarrow> AskBool QUseExisting False w1;
       if existing then existingInterfaceLoop h config w2 else Some (Inr config, w2)
     } else bridgeLoop h config w1
   }"

subsection \<open>askDaemon (lines 549-600)\<close>

text \<open>Lines 550-568: sharing the parent's uid/gid allocation.\<close>

definition askShareAllocation :: "host \<Rightarrow> initData \<Rightarrow> initData step" where
  "askShareAllocation h config w0 =
     (if IdmapUnusable h \<and> RunningInUserNS h then do {
        (share, w1) \<leftarrow> AskBool QShareAllocation True w0;
        if share then Some (setProfileConfig ''security.privileged'' ''true'' config, w1)
        else Some (Inr config, w1)
      } else Some (Inr config, w0))"

text \<open>Lines 570-592: the network listener.\<close>

definition askListener :: "host \<Rightarrow> initData \<Rightarrow> world \<Rightarrow> (initData \<times> world) option" where
  "askListener h config w0 = do {
     (listen, w1) \<leftarrow>
       (if Cluster config = None then AskBool QNetworkAvailable False w0
        else Some (False, w0));
     if listen then do {
       (entered, w2) \<leftarrow> AskString QBindAddress ''all''
          (Some (\<lambda>s. \<not> (s \<noteq> ''all'' \<and> ParseIP h s = None))) w1;
       let netAddr = (if entered = ''all'' then ''::'' else entered);
       let netAddr = (if ParseIP h netAddr \<noteq> Some IPv4
                      then ''['' @ netAddr @ '']'' else netAddr);
       (netPort, w3) \<leftarrow> AskInt QBindPort 1 65535 8443 w2;
       let config1 = setConfig ''core.https_address'' (netAddr @ '':'' @ fmt_d netPort) config;
       (password, w4) \<leftarrow> AskPassword QTrustPassword w3;
       Some (setConfig ''core.trust_password'' password config1, w4)
     } else Some (config, w1)
   }"

text \<open>Lines 594-597: the automatic update of cached images.\<close>

definition askAutoUpdate :: "initData \<Rightarrow> world \<Rightarrow> (initData \<times> world) option" where
  "askAutoUpdate config w0 = do {
     (update, w1) \<leftarrow> AskBool QAutoUpdate True w0;
     if \<not> update then Some (setConfig ''images.auto_update_interval'' ''0'' config, w1)
     else Some (config, w1)
   }"

definition askDaemon :: "host \<Rightarrow> initData \<Rightarrow> initData step" where
  "askDaemon h config w0 =
     bindE (askShareAllocation h config w0) (\<lambda>config1 w1. do {
       (config2, w2) \<leftarrow> askListener h config1 w1;
       (config3, w3) \<leftarrow> askAutoUpdate config2 w2;
       Some (Inr config3, w3)
     })"

subsection \<open>askClustering (lines 87-243)\<close>

text \<open>Lines 109-135: the address of the cluster node, its certificate, the operator's
  confirmation of the fingerprint and the trust password.\<close>

function joinLoop :: "host \<Rightarrow> initDataCluster \<Rightarrow> initDataCluster step" where
  "joinLoop h cluster w =
     (case AskString QClusterAddress [] None w of
        None \<Rightarrow> None
      | Some (entered, w1) \<Rightarrow>
          (let clusterAddress =
                 (if SplitHostPortFails h entered then entered @ '':8443'' else entered);
               cluster1 = cluster\<lparr>ClusterAddress := clusterAddress\<rparr>
           in case GetRemoteCertificate h (''https://'' @ ClusterAddress cluster1) of
                None \<Rightarrow> joinLoop h cluster1 w1
              | Some cert \<Rightarrow>
                  (case AskBool QFingerprintOk False w1 of
                     None \<Rightarrow> None
                   | Some (ok, w2) \<Rightarrow>
                       if \<not> ok then Some (Inl UserAborted, w2)
                       else
                         (case AskPasswordOnce QClusterPassword w2 of
                            None \<Rightarrow> None
                          | Some (password, w3) \<Rightarrow>
                              Some (Inr (cluster1\<lparr>ClusterCertificate := PemEncode h cert,
                                                  ClusterPassword := password\<rparr>), w3)))))"
  by pat_completeness auto
termination
  by (relation "measure (\<lambda>(h, cluster, w). length (pending w))")
    (auto dest: AskString_shorter)

declare joinLoop.simps [simp del]

text \<open>Lines 173-201: the storage pools of the cluster, with the node-specific source asked
  where the cluster node defines one. The new pool takes the config map of the fetched pool
  itself (\<open>StoragePoolPut: pool.StoragePoolPut\<close>); every fetched pool has a map of its own
  and none is read again after the assignment of line 195, so the assignment is the update
  of the new pool's config.\<close>

fun joinStoragePools :: "StoragePool list \<Rightarrow> StoragePoolsPost list \<Rightarrow> world
    \<Rightarrow> (StoragePoolsPost list \<times> world) option" where
  "joinStoragePools [] pools w = Some (pools, w)"
| "joinStoragePools (pool # targetPools) pools w =
     (if pool_Status pool = ''PENDING'' then joinStoragePools targetPools pools w
      else if pool_Driver pool = ''ceph'' then joinStoragePools targetPools pools w
      else
        (let newPool = \<lparr>sp_Name = pool_Name pool, sp_Driver = pool_Driver pool,
                        sp_Config = pool_Config pool\<rparr>
         in if mget (pool_Config pool) ''source'' \<noteq> [] then
              (case AskString (QPoolSource (pool_Name pool)) [] (Some (\<lambda>s. True)) w of
                 None \<Rightarrow> None
               | Some (source, w1) \<Rightarrow>
                   joinStoragePools targetPools
                     (pools @ [newPool\<lparr>sp_Config := (sp_Config newPool)(''source'' \<mapsto> source)\<rparr>])
                     w1)
            else joinStoragePools targetPools (pools @ [newPool]) w))"

text \<open>Lines 209-233: the networks of the cluster.\<close>

fun joinNetworks :: "Network list \<Rightarrow> NetworksPost list \<Rightarrow> world
    \<Rightarrow> (NetworksPost list \<times> world) option" where
  "joinNetworks [] networks w = Some (networks, w)"
| "joinNetworks (network # targetNetworks) networks w =
     (if \<not> net_Managed network \<or> net_Status network = ''PENDING''
      then joinNetworks targetNetworks networks w
      else
        (let newNetwork = \<lparr>np_Name = net_Name network, np_Type = net_Type network,
                           np_Managed = True, np_Config = net_Config network\<rparr>
         in if mget (net_Config network) ''bridge.external_interfaces'' \<noteq> [] then
              (case AskString (QNetworkInterface (net_Name network)) []
                      (Some (\<lambda>s. True)) w of
                 None \<Rightarrow> None
               | Some (iface, w1) \<Rightarrow>
                   joinNetworks targetNetworks
                     (networks @ [newNetwork\<lparr>np_Config :=
                        (np_Config newNetwork)(''bridge.external_interfaces'' \<mapsto> iface)\<rparr>])
                     w1)
            else joinNetworks targetNetworks (networks @ [newNetwork]) w))"

text \<open>Lines 108-233: joining an existing cluster.\<close>

definition joinCluster :: "host \<Rightarrow> initData \<Rightarrow> initDataCluster \<Rightarrow> initData step" where
  "joinCluster h config cluster w0 =
     bindE (joinLoop h cluster w0) (\<lambda>cluster1 w1. do {
       (wipe, w2) \<leftarrow> AskBool QWipeData False w1;
       if \<not> wipe then Some (Inl UserAborted, w2)
       else
         (case LoadCert h of
            None \<Rightarrow> Some (Inl LoadCertFailed, w2)
          | Some (publicKey, privateKey) \<Rightarrow>
              if SetupTrustFails h publicKey (ClusterAddress cluster1)
                   (ClusterCertificate cluster1) (ClusterPassword cluster1)
              then Some (Inl SetupTrustFailed, w2)
              else
                (case ConnectLXD h (''https://'' @ ClusterAddress cluster1)
                        \<lparr>TLSClientCert = publicKey, TLSClientKey = privateKey,
                         TLSServerCert = ClusterCertificate cluster1\<rparr> of
                   None \<Rightarrow> Some (Inl ConnectFailed, w2)
                 | Some client \<Rightarrow>
                     (case GetStoragePools client of
                        None \<Rightarrow> Some (Inl GetStoragePoolsFailed, w2)
                      | Some targetPools \<Rightarrow> do {
                          (pools, w3) \<leftarrow> joinStoragePools targetPools [] w2;
                          case GetNetworks client of
                            None \<Rightarrow> Some (Inl GetNetworksFailed, w3)
                          | Some targetNetworks \<Rightarrow> do {
                              (networks, w4) \<leftarrow> joinNetworks targetNetworks [] w3;
                              Some (Inr (config\<lparr>Cluster := Some cluster1,
                                                StoragePools := pools,
                                                Networks := networks\<rparr>), w4)
                            }
                        })))
     })"

definition askClustering :: "host \<Rightarrow> initData \<Rightarrow> initData step" where
  "askClustering h config w0 = do {
     (clustering, w1) \<leftarrow> AskBool QUseClustering False w0;
     if \<not> clustering then Some (Inr config, w1)
     else do {
       (name, w2) \<leftarrow> AskString QServerName (serverName h) None w1;
       let cluster = \<lparr>Enabled = True, ServerName = name, ClusterAddress = [],
                      ClusterCertificate = [], ClusterPassword = []\<rparr>;
       let address = NetworkInterfaceAddress h;
       (entered, w3) \<leftarrow> AskString QServerAddress address None w2;
       let serverAddress = CanonicalNetworkAddress h entered;
       let config1 = setConfig ''core.https_address'' serverAddress
                       (config\<lparr>Cluster := Some cluster\<rparr>);
       (join, w4) \<leftarrow> AskBool QJoinExisting False w3;
       if join then joinCluster h config1 cluster w4
       else do {
         (setup, w5) \<leftarrow> AskBool QSetupPassword True w4;
         if setup then do {
           (password, w6) \<leftarrow> AskPassword QTrustPassword w5;
           Some (Inr (setConfig ''core.trust_password'' password config1), w6)
         } else Some (Inr config1, w5)
       }
     }
   }"

subsection \<open>RunInteractive (lines 25-85)\<close>

definition emptyConfig :: initData where
  "emptyConfig =
     \<lparr>Config = Map.empty, Networks = [], StoragePools = [],
      Profiles = [\<lparr>prof_Name = ''default'', prof_Config = Map.empty,
                   prof_Devices = Map.empty\<rparr>],
      Cluster = None\<rparr>"

definition askOthers :: "host \<Rightarrow> initData \<Rightarrow> initData step" where
  "askOthers h config w0 =
     bindE (askStorage h config w0) (\<lambda>config1 w1.
     bindE (askMAAS h config1 w1) (\<lambda>config2 w2.
     bindE (askNetworking h config2 w2) (\<lambda>config3 w3.
     askDaemon h config3 w3)))"

definition RunInteractive :: "host \<Rightarrow> initData step" where
  "RunInteractive h w0 =
     bindE (askClustering h emptyConfig w0) (\<lambda>config w1.
     bindE (if (case Cluster config of None \<Rightarrow> True | Some cluster \<Rightarrow> ClusterAddress cluster = [])
            then askOthers h config w1 else Some (Inr config, w1)) (\<lambda>config1 w2. do {
       (yaml, w3) \<leftarrow> AskBool QPrintYaml False w2;
       if yaml \<and> YamlMarshalFails h config1 then Some (Inl RenderFailed, w3)
       else Some (Inr config1, w3)
     }))"

subsection \<open>The claims' specification-side definitions\<close>

text \<open>The priority of the default driver in the specification's words: a driver matching
  the backing filesystem, then zfs, then btrfs, then dir.\<close>

definition specDefaultStorage :: "string \<Rightarrow> string list \<Rightarrow> string" where
  "specDefaultStorage fs availableBackends =
     (if fs \<in> set availableBackends then fs
      else if ''zfs'' \<in> set availableBackends then ''zfs''
      else if ''btrfs'' \<in> set availableBackends then ''btrfs''
      else ''dir'')"

text \<open>The names of the storage drivers that \<open>askStoragePool\<close> tells apart (lines 409-521).\<close>

definition storageDrivers :: "string set" where
  "storageDrivers = {''dir'', ''btrfs'', ''ceph'', ''lvm'', ''zfs''}"

text \<open>The default loop size in the specification's words: 20% of the free space, in
  gigabytes, clamped to 15..100. The free space is a count of free blocks (\<open>Bfree\<close> or
  \<open>Bavail\<close>) times the fragment size.\<close>

definition specDefaultSize :: "64 word \<Rightarrow> Statfs_t \<Rightarrow> 64 word" where
  "specDefaultSize freeBlocks st =
     clampSize (Frsize st * freeBlocks div (1024 * 1024 * 1024) div 5)"

subsection \<open>An example host and cluster\<close>

text \<open>A node with a 250 GiB data filesystem of which 50 GiB are free, and a cluster node at
  10.0.0.1 with four storage pools and two networks.\<close>

definition exampleStatfs :: Statfs_t where
  "exampleStatfs = \<lparr>Frsize = 4096, Blocks = 65536000, Bfree = 13107200, Bavail = 13107200\<rparr>"

definition freshPool :: StoragePool where
  "freshPool = \<lparr>pool_Name = ''fresh'', pool_Driver = ''zfs'', pool_Status = ''PENDING'',
                 pool_Config = [''source'' \<mapsto> ''tank/fresh'']\<rparr>"

definition dataPool :: StoragePool where
  "dataPool = \<lparr>pool_Name = ''data'', pool_Driver = ''zfs'', pool_Status = ''CREATED'',
                pool_Config = [''source'' \<mapsto> ''tank/data'', ''volume.size'' \<mapsto> ''10GB'']\<rparr>"

definition sharedPool :: StoragePool where
  "sharedPool = \<lparr>pool_Name = ''shared'', pool_Driver = ''ceph'', pool_Status = ''CREATED'',
                  pool_Config = [''source'' \<mapsto> ''lxd'']\<rparr>"

definition plainPool :: StoragePool where
  "plainPool = \<lparr>pool_Name = ''plain'', pool_Driver = ''dir'', pool_Status = ''CREATED'',
                 pool_Config = Map.empty\<rparr>"

definition exampleCluster :: ContainerServer where
  "exampleCluster =
     \<lparr>GetStoragePools = Some [freshPool, dataPool, sharedPool, plainPool],
      GetNetworks = Some
        [\<lparr>net_Name = ''lxdbr0'', net_Type = ''bridge'', net_Managed = True,
          net_Status = ''CREATED'', net_Config = [''ipv4.address'' \<mapsto> ''10.1.1.1/24'']\<rparr>,
         \<lparr>net_Name = ''eth0'', net_Type = ''physical'', net_Managed = False,
          net_Status = ''CREATED'', net_Config = Map.empty\<rparr>]\<rparr>"

definition exampleHost :: host where
  "exampleHost =
     \<lparr>Hostname = Some ''node1'',
      NetworkInterfaceAddress = ''10.0.0.5'',
      CanonicalNetworkAddress = (\<lambda>a. if CHR '':'' \<in> set a then a else a @ '':8443''),
      SplitHostPortFails = (\<lambda>a. CHR '':'' \<notin> set a),
      GetRemoteCertificate =
        (\<lambda>url. if url = ''https://10.0.0.1:8443'' then Some ''RAW'' else None),
      PemEncode = (\<lambda>raw. ''PEM '' @ raw),
      LoadCert = Some (''PUBLIC'', ''PRIVATE''),
      SetupTrustFails = (\<lambda>publicKey address cert password. password \<noteq> ''secret''),
      ConnectLXD =
        (\<lambda>url args. if url = ''https://10.0.0.1:8443'' then Some exampleCluster else None),
      GetNetworkOk = (\<lambda>name. name = ''br0''),
      GetStoragePoolOk = (\<lambda>name. name = ''local'' \<or> name = ''old''),
      PathExists = (\<lambda>path. path = ''/sys/class/net/eth1''),
      availableStorageDrivers =
        (\<lambda>poolType. if poolType = ''remote'' then [''ceph'']
                     else [''dir'', ''btrfs'', ''lvm'', ''zfs'']),
      FilesystemDetect = Some ''ext4'',
      VarPath = (\<lambda>parts. ''/var/lib/lxd'' @ concat (map (\<lambda>p. ''/'' @ p) parts)),
      IsBlockdevPath = (\<lambda>path. path = ''/dev/sdb''),
      Statfs = Some exampleStatfs,
      LookPathThinCheck = False,
      IdmapUnusable = False,
      RunningInUserNS = False,
      ParseIP = (\<lambda>s. if s = ''::'' then Some IPv6
                     else if s = ''10.0.0.5'' then Some IPv4 else None),
      networkValidName = (\<lambda>name. name \<noteq> [] \<and> length name \<le> 15),
      networkValidAddressCIDRV4 = (\<lambda>s. CHR ''/'' \<in> set s \<and> CHR ''.'' \<in> set s),
      networkValidAddressCIDRV6 = (\<lambda>s. CHR ''/'' \<in> set s \<and> CHR '':'' \<in> set s),
      YamlMarshalFails = (\<lambda>config. False)\<rparr>"

text \<open>The configuration of a node that bootstraps a cluster, before the storage
  questions.\<close>

definition bootstrapConfig :: initData where
  "bootstrapConfig =
     emptyConfig\<lparr>Cluster := Some \<lparr>Enabled = True, ServerName = ''node1'', ClusterAddress = [],
                                    ClusterCertificate = [], ClusterPassword = []\<rparr>\<rparr>"

text \<open>The operator about to type the given entries, nothing asked yet.\<close>

definition operator :: "answer list \<Rightarrow> world" where
  "operator entries = \<lparr>pending = entries, transcript = []\<rparr>"

text \<open>The entries of an operator who joins the cluster: clustering, the default name and
  address, joining, an address that does not answer, the address of the cluster node, the
  fingerprint confirmed, the trust password, the data wiped, the empty line for the source
  of the pool \<open>data\<close>, no preseed.\<close>

definition joinScript :: "answer list" where
  "joinScript =
     [ABool True, AStr [], AStr [], ABool True, AStr ''10.0.0.9'', AStr ''10.0.0.1'',
      ABool True, AStr ''secret'', ABool True, AStr [], ABool False]"

text \<open>What was asked, and what was answered, between two worlds of a run.\<close>

definition during :: "world \<Rightarrow> world \<Rightarrow> (question \<times> answer) list" where
  "during w w' = drop (length (transcript w)) (transcript w')"

text \<open>Between two worlds only questions of the set \<open>Q\<close> were asked.\<close>

definition asks :: "question set \<Rightarrow> world \<Rightarrow> world \<Rightarrow> bool" where
  "asks Q w w' = (\<exists>xs. transcript w' = transcript w @ xs \<and> (\<forall>e \<in> set xs. fst e \<in> Q))"

text \<open>The questions of each part of the wizard.\<close>

definition storageQuestions :: "question set" where
  "storageQuestions =
     {QLocalPool, QRemotePool, QNewPool, QPoolName, QBackend, QBtrfsSubvolume, QCreateNew,
      QCephCluster, QCephOsdPool, QCephPgNum, QUseBlockDevice, QBlockDevicePath, QLoopSize,
      QCephExistingPool, QExistingPool, QLvmContinue}"

definition maasQuestions :: "question set" where
  "maasQuestions = {QMaasConnect, QMaasHostname, QMaasUrl, QMaasKey}"

definition networkQuestions :: "question set" where
  "networkQuestions =
     {QNewBridge, QUseExisting, QExistingName, QMaasConnected, QMaasSubnetV4, QMaasSubnetV6,
      QBridgeName, QIPv4Address, QIPv4Nat, QIPv6Address, QIPv6Nat}"

definition existingQuestions :: "question set" where
  "existingQuestions = {QExistingName, QMaasConnected, QMaasSubnetV4, QMaasSubnetV6}"

definition daemonQuestions :: "question set" where
  "daemonQuestions =
     {QShareAllocation, QNetworkAvailable, QBindAddress, QBindPort, QTrustPassword,
      QAutoUpdate}"

definition listenerQuestions :: "question set" where
  "listenerQuestions = {QNetworkAvailable, QBindAddress, QBindPort, QTrustPassword}"

definition joinQuestions :: "question set" where
  "joinQuestions =
     {QClusterAddress, QFingerprintOk, QClusterPassword, QWipeData}
     \<union> range QPoolSource \<union> range QNetworkInterface"

definition clusteringQuestions :: "question set" where
  "clusteringQuestions =
     {QUseClustering, QServerName, QServerAddress, QJoinExisting, QSetupPassword,
      QTrustPassword} \<union> joinQuestions"

text \<open>The questions of the four steps after clustering.\<close>

definition otherQuestions :: "question set" where
  "otherQuestions = storageQuestions \<union> maasQuestions \<union> networkQuestions \<union> daemonQuestions"

text \<open>
  The rule of the NAT question for one protocol, on what was asked (\<open>xs\<close>) and on the
  config of the new network: the address stored is the one the operator chose; the NAT
  question was asked, and the NAT key is present, exactly when that address is neither
  \<open>auto\<close> nor \<open>none\<close>; and the NAT key holds the operator's answer.
\<close>

definition natRule :: "(string \<Rightarrow> bool) \<Rightarrow> question \<Rightarrow> question \<Rightarrow> string \<Rightarrow> string
    \<Rightarrow> (question \<times> answer) list \<Rightarrow> config_map \<Rightarrow> bool" where
  "natRule valid qaddr qnat kaddr knat xs cfg =
     (\<exists>a. cfg kaddr = Some a \<and> (qaddr, AStr a) \<in> set xs
        \<and> (a \<notin> {''auto'', ''none''} \<longrightarrow> valid a)
        \<and> (qnat \<in> fst ` set xs \<longleftrightarrow> a \<notin> {''auto'', ''none''})
        \<and> (knat \<in> dom cfg \<longleftrightarrow> a \<notin> {''auto'', ''none''})
        \<and> (\<forall>b. (qnat, ABool b) \<in> set xs \<longrightarrow> cfg knat = Some (fmt_v b)))"

text \<open>Lines 111-115: the address of the cluster node as it is stored, the default port
  appended where \<open>net.SplitHostPort\<close> finds none.\<close>

definition withPort :: "host \<Rightarrow> string \<Rightarrow> string" where
  "withPort h entered = (if SplitHostPortFails h entered then entered @ '':8443'' else entered)"

text \<open>Lines 175-183: the pools of the cluster that the joining node defines, and (line 193)
  those for which it asks the source.\<close>

definition keptPool :: "StoragePool \<Rightarrow> bool" where
  "keptPool pool = (pool_Status pool \<noteq> ''PENDING'' \<and> pool_Driver pool \<noteq> ''ceph'')"

definition asksSource :: "StoragePool \<Rightarrow> bool" where
  "asksSource pool = (mget (pool_Config pool) ''source'' \<noteq> [])"

text \<open>A local pool that takes over a pool of the cluster: the name, the driver and the
  config, in which only the value of \<open>source\<close> is the node's own, and only where the cluster
  node has a source.\<close>

definition inherited :: "StoragePool \<Rightarrow> StoragePoolsPost \<Rightarrow> bool" where
  "inherited pool newPool =
     (sp_Name newPool = pool_Name pool \<and> sp_Driver newPool = pool_Driver pool
      \<and> sp_Config newPool =
          (if asksSource pool
           then (pool_Config pool)(''source'' \<mapsto> mget (sp_Config newPool) ''source'')
           else pool_Config pool))"

text \<open>The source questions of a join and their answers, read off the pools and the local
  pools made from them.\<close>

definition sourceAnswers :: "StoragePool list \<Rightarrow> StoragePoolsPost list
    \<Rightarrow> (question \<times> answer) list" where
  "sourceAnswers kept new =
     concat (map2 (\<lambda>pool newPool.
        if asksSource pool
        then [(QPoolSource (pool_Name pool), AStr (mget (sp_Config newPool) ''source''))]
        else []) kept new)"

section \<open>Properties\<close>

subsection \<open>The prompts\<close>

lemma during_append [simp]: "transcript w' = transcript w @ xs \<Longrightarrow> during w w' = xs"
  by (simp add: during_def)

lemma AskBool_Some:
  "AskBool q d w = Some (b, w') \<Longrightarrow> transcript w' = transcript w @ [(q, ABool b)]"
  by (auto simp: AskBool_def reply_def split: option.splits)

lemma readString_accepts: "readString d v as = Some (s, rest) \<Longrightarrow> accepts v s"
  by (induction d v as rule: readString.induct) (auto simp: Let_def split: if_splits)

lemma AskString_Some:
  "AskString q d v w = Some (s, w')
   \<Longrightarrow> transcript w' = transcript w @ [(q, AStr s)] \<and> accepts v s"
  by (auto simp: AskString_def reply_def split: option.splits dest: readString_accepts)

lemma readInt_inRange: "readInt lo hi d as = Some (n, rest) \<Longrightarrow> inRange lo hi n"
  by (induction lo hi d as rule: readInt.induct) (auto split: if_splits)

lemma AskInt_Some:
  "AskInt q lo hi d w = Some (n, w')
   \<Longrightarrow> transcript w' = transcript w @ [(q, AInt n)] \<and> inRange lo hi n"
  by (auto simp: AskInt_def reply_def split: option.splits dest: readInt_inRange)

subsection \<open>Sequencing and frames\<close>

lemma during_trans:
  "transcript w1 = transcript w @ xs \<Longrightarrow> transcript w2 = transcript w1 @ ys
   \<Longrightarrow> during w w2 = xs @ ys"
  by (simp add: during_def)

lemma asks_during: "asks Q w w' \<Longrightarrow> \<forall>e \<in> set (during w w'). fst e \<in> Q"
  by (auto simp: asks_def)

lemma asks_duringE:
  assumes "asks Q w w'"
  obtains xs where "transcript w' = transcript w @ xs" "during w w' = xs"
    "\<forall>e \<in> set xs. fst e \<in> Q"
  using assms by (auto simp: asks_def)


lemma if_eqE:
  assumes "(if c then a else b) = r"
  obtains "c" "a = r" | "\<not> c" "b = r"
  using assms by (cases c) auto

lemma bindE_Some:
  "bindE m f = Some (r, w') \<longleftrightarrow>
     (\<exists>e. m = Some (Inl e, w') \<and> r = Inl e)
     \<or> (\<exists>x w1. m = Some (Inr x, w1) \<and> f x w1 = Some (r, w'))"
  by (auto simp: bindE_def split: option.splits sum.splits prod.splits)

lemma setConfig_simps [simp]:
  "Config (setConfig k v c) = (Config c)(k \<mapsto> v)"
  "Networks (setConfig k v c) = Networks c"
  "StoragePools (setConfig k v c) = StoragePools c"
  "Profiles (setConfig k v c) = Profiles c"
  "Cluster (setConfig k v c) = Cluster c"
  by (simp_all add: setConfig_def)

lemma appendPool_simps [simp]:
  "Config (appendPool p c) = Config c"
  "Networks (appendPool p c) = Networks c"
  "StoragePools (appendPool p c) = StoragePools c @ [p]"
  "Profiles (appendPool p c) = Profiles c"
  "Cluster (appendPool p c) = Cluster c"
  by (simp_all add: appendPool_def)

lemma setDevice_Inr:
  "setDevice name dev c = Inr c' \<longleftrightarrow>
     (\<exists>p ps. Profiles c = p # ps
        \<and> c' = c\<lparr>Profiles := p\<lparr>prof_Devices := (prof_Devices p)(name \<mapsto> dev)\<rparr> # ps\<rparr>)"
  by (auto simp: setDevice_def split: list.splits)

lemma setProfileConfig_Inr:
  "setProfileConfig k v c = Inr c' \<longleftrightarrow>
     (\<exists>p ps. Profiles c = p # ps
        \<and> c' = c\<lparr>Profiles := p\<lparr>prof_Config := (prof_Config p)(k \<mapsto> v)\<rparr> # ps\<rparr>)"
  by (auto simp: setProfileConfig_def split: list.splits)

lemma asks_refl [simp]: "asks Q w w"
  by (simp add: asks_def)

lemma asks_trans: "asks Q w w1 \<Longrightarrow> asks Q w1 w2 \<Longrightarrow> asks Q w w2"
  by (auto simp: asks_def)

lemma asks_mono: "asks Q w w' \<Longrightarrow> Q \<subseteq> Q' \<Longrightarrow> asks Q' w w'"
  by (auto simp: asks_def)

subsection \<open>Storage: what is asked and what is changed\<close>

lemma askPoolSource_asks:
  "askPoolSource h driver cfg w = Some (r, w') \<Longrightarrow> asks storageQuestions w w'"
  unfolding askPoolSource_def asks_def storageQuestions_def
  by (auto simp: bind_eq_Some_conv elim!: if_eqE split: option.splits
      dest!: AskBool_Some AskString_Some AskInt_Some)

lemma askThinpool_asks:
  "askThinpool h driver cfg w = Some (r, w') \<Longrightarrow> asks storageQuestions w w'"
  unfolding askThinpool_def asks_def storageQuestions_def
  by (auto simp: bind_eq_Some_conv elim!: if_eqE dest!: AskBool_Some)

lemma askBackend_asks:
  "askBackend h bs w = Some (r, w') \<Longrightarrow> asks storageQuestions w w'"
  unfolding askBackend_def asks_def storageQuestions_def AskChoice_def
  by (auto simp: bind_eq_Some_conv elim!: if_eqE split: list.splits dest!: AskString_Some)

lemma subvolume_asks:
  "(if c then AskBool QBtrfsSubvolume True w else Some (False, w)) = Some (b, w')
   \<Longrightarrow> asks storageQuestions w w'"
  unfolding asks_def storageQuestions_def
  by (auto elim!: if_eqE dest!: AskBool_Some)

lemma configurePool_Some:
  assumes "configurePool h c bs name w = Some (r, w')"
  shows "asks storageQuestions w w'
     \<and> (\<forall>c'. r = Inr c' \<longrightarrow> Config c' = Config c \<and> Networks c' = Networks c
           \<and> Cluster c' = Cluster c
           \<and> (\<exists>pool. StoragePools c' = StoragePools c @ [pool] \<and> sp_Name pool = name))"
  using assms unfolding configurePool_def
  by (auto simp: bindE_Some bind_eq_Some_conv Let_def setDevice_Inr split: sum.splits
      elim!: if_eqE
      dest!: askBackend_asks askPoolSource_asks askThinpool_asks subvolume_asks)
     (auto simp: asks_def)

lemma storagePoolLoop_unfold:
  assumes "storagePoolLoop h config poolType bs w = Some (r, w')"
  obtains name w1 where
    "(if poolType = ''all'' then AskString QPoolName ''default'' None w
         else Some (poolType, w)) = Some (name, w1)"
    "(if GetStoragePoolOk h name
             then (if poolType = ''all'' then storagePoolLoop h config poolType bs w1
                   else Some (Inl (PoolExists poolType), w1))
             else configurePool h config bs name w1) = Some (r, w')"
proof -
  let ?m = "if poolType = ''all'' then AskString QPoolName ''default'' None w
         else Some (poolType, w)"
  have u: "storagePoolLoop h config poolType bs w =
     (case ?m of None \<Rightarrow> None
      | Some (name, w1) \<Rightarrow>
          if GetStoragePoolOk h name then
            (if poolType = ''all'' then storagePoolLoop h config poolType bs w1
             else Some (Inl (PoolExists poolType), w1))
          else configurePool h config bs name w1)"
    by (rule storagePoolLoop.simps)
  show thesis
  proof (cases ?m)
    case None
    with assms u show ?thesis by simp
  next
    case (Some x)
    obtain name w1 where x: "x = (name, w1)" by (cases x)
    from assms have "(if GetStoragePoolOk h name
             then (if poolType = ''all'' then storagePoolLoop h config poolType bs w1
                   else Some (Inl (PoolExists poolType), w1))
             else configurePool h config bs name w1) = Some (r, w')"
      unfolding u Some x by simp
    with Some x that show ?thesis by blast
  qed
qed


lemma pool_frame_step:
  assumes f: "\<forall>c'. r = Inr c' \<longrightarrow> Config c' = Config config \<and> Networks c' = Networks config
           \<and> Cluster c' = Cluster config
           \<and> (\<exists>pool. StoragePools c' = StoragePools config @ [pool] \<and> sp_Name pool = name)"
   and False: "\<not> GetStoragePoolOk h name"
   and p: "poolType \<noteq> ''all'' \<Longrightarrow> name = poolType"
  shows "\<forall>c'. r = Inr c' \<longrightarrow> Config c' = Config config \<and> Networks c' = Networks config
           \<and> Cluster c' = Cluster config
           \<and> (\<exists>pool. StoragePools c' = StoragePools config @ [pool]
                 \<and> \<not> GetStoragePoolOk h (sp_Name pool)
                 \<and> (poolType \<noteq> ''all'' \<longrightarrow> sp_Name pool = poolType))"
proof (intro allI impI)
  fix c' assume "r = Inr c'"
  with f obtain pool where x: "Config c' = Config config" "Networks c' = Networks config"
     "Cluster c' = Cluster config" "StoragePools c' = StoragePools config @ [pool]"
     "sp_Name pool = name"
    by blast
  from x False p show "Config c' = Config config \<and> Networks c' = Networks config
           \<and> Cluster c' = Cluster config
           \<and> (\<exists>pool. StoragePools c' = StoragePools config @ [pool]
                 \<and> \<not> GetStoragePoolOk h (sp_Name pool)
                 \<and> (poolType \<noteq> ''all'' \<longrightarrow> sp_Name pool = poolType))"
    by (intro conjI exI [of _ pool]) simp_all
qed

lemma storagePoolLoop_Some:
  assumes "storagePoolLoop h c poolType bs w = Some (r, w')"
  shows "asks storageQuestions w w'
     \<and> (\<forall>c'. r = Inr c' \<longrightarrow> Config c' = Config c \<and> Networks c' = Networks c
           \<and> Cluster c' = Cluster c
           \<and> (\<exists>pool. StoragePools c' = StoragePools c @ [pool]
                 \<and> \<not> GetStoragePoolOk h (sp_Name pool)
                 \<and> (poolType \<noteq> ''all'' \<longrightarrow> sp_Name pool = poolType)))"
  using assms
proof (induction h c poolType bs w rule: storagePoolLoop.induct)
  case (1 h config poolType bs w)
  from "1.prems" obtain name w1 where
    n: "(if poolType = ''all'' then AskString QPoolName ''default'' None w
         else Some (poolType, w)) = Some (name, w1)"
    and b: "(if GetStoragePoolOk h name
             then (if poolType = ''all'' then storagePoolLoop h config poolType bs w1
                   else Some (Inl (PoolExists poolType), w1))
             else configurePool h config bs name w1) = Some (r, w')"
    by (rule storagePoolLoop_unfold)
  have a: "asks storageQuestions w w1"
    using n by (auto simp: asks_def storageQuestions_def elim!: if_eqE dest!: AskString_Some)
  have p: "poolType \<noteq> ''all'' \<Longrightarrow> name = poolType"
    using n by (auto elim!: if_eqE)
  show ?case
  proof (cases "GetStoragePoolOk h name")
    case False
    with b have "configurePool h config bs name w1 = Some (r, w')" by simp
    from configurePool_Some [OF this] have
      q: "asks storageQuestions w1 w'"
      and f: "\<forall>c'. r = Inr c' \<longrightarrow> Config c' = Config config \<and> Networks c' = Networks config
           \<and> Cluster c' = Cluster config
           \<and> (\<exists>pool. StoragePools c' = StoragePools config @ [pool] \<and> sp_Name pool = name)"
      by blast+
    have "\<forall>c'. r = Inr c' \<longrightarrow> Config c' = Config config \<and> Networks c' = Networks config
           \<and> Cluster c' = Cluster config
           \<and> (\<exists>pool. StoragePools c' = StoragePools config @ [pool]
                 \<and> \<not> GetStoragePoolOk h (sp_Name pool)
                 \<and> (poolType \<noteq> ''all'' \<longrightarrow> sp_Name pool = poolType))"
      using f False p by (rule pool_frame_step)
    with asks_trans [OF a q] show ?thesis by (rule conjI)
  next
    case True
    show ?thesis
    proof (cases "poolType = ''all''")
      case all: True
      with b True have l: "storagePoolLoop h config poolType bs w1 = Some (r, w')" by simp
      from "1.IH" [OF n refl True all l] have
        q: "asks storageQuestions w1 w'"
        and f: "\<forall>c'. r = Inr c' \<longrightarrow> Config c' = Config config \<and> Networks c' = Networks config
           \<and> Cluster c' = Cluster config
           \<and> (\<exists>pool. StoragePools c' = StoragePools config @ [pool]
                 \<and> \<not> GetStoragePoolOk h (sp_Name pool)
                 \<and> (poolType \<noteq> ''all'' \<longrightarrow> sp_Name pool = poolType))"
        by blast+
      from asks_trans [OF a q] f show ?thesis by (rule conjI)
    next
      case False
      with b True have "r = Inl (PoolExists poolType)" "w' = w1" by simp_all
      with a show ?thesis by simp
    qed
  qed
qed

lemma askStoragePool_Some:
  assumes "askStoragePool h c poolType w = Some (r, w')"
  shows "asks storageQuestions w w'
     \<and> (\<forall>c'. r = Inr c' \<longrightarrow> Config c' = Config c \<and> Networks c' = Networks c
           \<and> Cluster c' = Cluster c
           \<and> (\<exists>pool. StoragePools c' = StoragePools c @ [pool]
                 \<and> \<not> GetStoragePoolOk h (sp_Name pool)
                 \<and> (poolType \<noteq> ''all'' \<longrightarrow> sp_Name pool = poolType)))"
proof (cases "length (availableStorageDrivers h poolType) = 0")
  case True
  with assms show ?thesis by (auto simp: askStoragePool_def)
next
  case False
  with assms have "storagePoolLoop h c poolType (availableStorageDrivers h poolType) w
      = Some (r, w')"
    by (simp add: askStoragePool_def)
  then show ?thesis by (rule storagePoolLoop_Some)
qed


lemma askStoragePool_asks:
  "askStoragePool h c poolType w = Some (r, w') \<Longrightarrow> asks storageQuestions w w'"
  by (drule askStoragePool_Some) (rule conjunct1)

lemma askStoragePool_frame:
  assumes "askStoragePool h c poolType w = Some (Inr c', w')"
  shows "Config c' = Config c \<and> Networks c' = Networks c \<and> Cluster c' = Cluster c
     \<and> (\<exists>pool. StoragePools c' = StoragePools c @ [pool]
           \<and> \<not> GetStoragePoolOk h (sp_Name pool)
           \<and> (poolType \<noteq> ''all'' \<longrightarrow> sp_Name pool = poolType))"
  using askStoragePool_Some [OF assms] by blast

lemma AskBool_asks: "AskBool q d w = Some (b, w') \<Longrightarrow> q \<in> Q \<Longrightarrow> asks Q w w'"
  by (auto simp: asks_def dest!: AskBool_Some)

lemma AskString_asks: "AskString q d v w = Some (s, w') \<Longrightarrow> q \<in> Q \<Longrightarrow> asks Q w w'"
  by (auto simp: asks_def dest!: AskString_Some)

lemma AskInt_asks: "AskInt q lo hi d w = Some (n, w') \<Longrightarrow> q \<in> Q \<Longrightarrow> asks Q w w'"
  by (auto simp: asks_def dest!: AskInt_Some)

text \<open>The two halves of \<open>askStorage\<close> on a clustered node.\<close>

lemma askStorage_local:
  assumes "(if local then askStoragePool h c ''local'' w else Some (Inr c, w)) = Some (r, w')"
  shows "asks storageQuestions w w'"
    and "r = Inr c' \<Longrightarrow> Config c' = Config c \<and> Networks c' = Networks c
           \<and> Cluster c' = Cluster c
           \<and> (\<exists>pools. StoragePools c' = StoragePools c @ pools
                 \<and> set (map sp_Name pools) \<subseteq> {''local''} \<and> length pools \<le> 1
                 \<and> (\<forall>pool \<in> set pools. \<not> GetStoragePoolOk h (sp_Name pool)))"
proof -
  show "asks storageQuestions w w'"
    using assms by (cases local) (auto dest: askStoragePool_asks)
  assume r: "r = Inr c'"
  show "Config c' = Config c \<and> Networks c' = Networks c
           \<and> Cluster c' = Cluster c
           \<and> (\<exists>pools. StoragePools c' = StoragePools c @ pools
                 \<and> set (map sp_Name pools) \<subseteq> {''local''} \<and> length pools \<le> 1
                 \<and> (\<forall>pool \<in> set pools. \<not> GetStoragePoolOk h (sp_Name pool)))"
  proof (cases local)
    case False
    with assms r have "c' = c" by simp
    then show ?thesis by simp
  next
    case True
    with assms r have "askStoragePool h c ''local'' w = Some (Inr c', w')" by simp
    from askStoragePool_frame [OF this] obtain pool where
      x: "Config c' = Config c" "Networks c' = Networks c" "Cluster c' = Cluster c"
        "StoragePools c' = StoragePools c @ [pool]" "\<not> GetStoragePoolOk h (sp_Name pool)"
        "sp_Name pool = ''local''"
      by auto
    then show ?thesis
      by (intro conjI exI [of _ "[pool]"]) simp_all
  qed
qed

lemma askStorage_remote:
  assumes "(if remote then askStoragePool h c ''remote'' w else Some (Inr c, w)) = Some (r, w')"
  shows "asks storageQuestions w w'"
    and "r = Inr c' \<Longrightarrow> Config c' = Config c \<and> Networks c' = Networks c
           \<and> Cluster c' = Cluster c
           \<and> (\<exists>pools. StoragePools c' = StoragePools c @ pools
                 \<and> set (map sp_Name pools) \<subseteq> {''remote''} \<and> length pools \<le> 1
                 \<and> (\<forall>pool \<in> set pools. \<not> GetStoragePoolOk h (sp_Name pool)))"
proof -
  show "asks storageQuestions w w'"
    using assms by (cases remote) (auto dest: askStoragePool_asks)
  assume r: "r = Inr c'"
  show "Config c' = Config c \<and> Networks c' = Networks c
           \<and> Cluster c' = Cluster c
           \<and> (\<exists>pools. StoragePools c' = StoragePools c @ pools
                 \<and> set (map sp_Name pools) \<subseteq> {''remote''} \<and> length pools \<le> 1
                 \<and> (\<forall>pool \<in> set pools. \<not> GetStoragePoolOk h (sp_Name pool)))"
  proof (cases remote)
    case False
    with assms r have "c' = c" by simp
    then show ?thesis by simp
  next
    case True
    with assms r have "askStoragePool h c ''remote'' w = Some (Inr c', w')" by simp
    from askStoragePool_frame [OF this] obtain pool where
      x: "Config c' = Config c" "Networks c' = Networks c" "Cluster c' = Cluster c"
        "StoragePools c' = StoragePools c @ [pool]" "\<not> GetStoragePoolOk h (sp_Name pool)"
        "sp_Name pool = ''remote''"
      by auto
    then show ?thesis
      by (intro conjI exI [of _ "[pool]"]) simp_all
  qed
qed


lemma askStorage_clustered:
  assumes "Cluster c \<noteq> None" "askStorage h c w = Some (r, w')"
  obtains (first) local w1 e where
      "AskBool QLocalPool True w = Some (local, w1)"
      "(if local then askStoragePool h c ''local'' w1 else Some (Inr c, w1)) = Some (Inl e, w')"
      "r = Inl e"
    | (second) local w1 c1 w2 remote w3 where
      "AskBool QLocalPool True w = Some (local, w1)"
      "(if local then askStoragePool h c ''local'' w1 else Some (Inr c, w1)) = Some (Inr c1, w2)"
      "AskBool QRemotePool True w2 = Some (remote, w3)"
      "(if remote then askStoragePool h c1 ''remote'' w3 else Some (Inr c1, w3)) = Some (r, w')"
proof -
  from assms obtain local w1 where
    a: "AskBool QLocalPool True w = Some (local, w1)"
    and b: "bindE (if local then askStoragePool h c ''local'' w1 else Some (Inr c, w1))
          (\<lambda>config1 w2. do {
             (remote, w3) \<leftarrow> AskBool QRemotePool True w2;
             if remote then askStoragePool h config1 ''remote'' w3 else Some (Inr config1, w3)
           }) = Some (r, w')"
    unfolding askStorage_def by (simp add: bind_eq_Some_conv) blast
  from b [unfolded bindE_Some] show thesis
  proof (elim disjE exE conjE)
    fix e
    assume "(if local then askStoragePool h c ''local'' w1 else Some (Inr c, w1)) = Some (Inl e, w')"
      "r = Inl e"
    with a show thesis by (rule first)
  next
    fix c1 w2
    assume f: "(if local then askStoragePool h c ''local'' w1 else Some (Inr c, w1))
        = Some (Inr c1, w2)"
      and g: "do { (remote, w3) \<leftarrow> AskBool QRemotePool True w2;
             if remote then askStoragePool h c1 ''remote'' w3 else Some (Inr c1, w3) }
           = Some (r, w')"
    from g obtain remote w3 where
      "AskBool QRemotePool True w2 = Some (remote, w3)"
      "(if remote then askStoragePool h c1 ''remote'' w3 else Some (Inr c1, w3)) = Some (r, w')"
      by (simp add: bind_eq_Some_conv) blast
    with a f show thesis by (rule second)
  qed
qed

lemma askStorage_standalone:
  assumes "Cluster c = None" "askStorage h c w = Some (r, w')"
  obtains new w1 where
    "AskBool QNewPool True w = Some (new, w1)"
    "(if \<not> new then Some (Inr c, w1) else askStoragePool h c ''all'' w1) = Some (r, w')"
  using assms unfolding askStorage_def by (simp add: bind_eq_Some_conv) blast

lemma askStorage_asks:
  assumes "askStorage h c w = Some (r, w')"
  shows "asks storageQuestions w w'"
proof (cases "Cluster c = None")
  case True
  from True assms obtain new w1 where
    a: "AskBool QNewPool True w = Some (new, w1)"
    and b: "(if \<not> new then Some (Inr c, w1) else askStoragePool h c ''all'' w1) = Some (r, w')"
    by (rule askStorage_standalone)
  have q: "asks storageQuestions w w1"
    using a by (rule AskBool_asks) (simp add: storageQuestions_def)
  have "asks storageQuestions w1 w'"
    using b by (cases new) (auto dest: askStoragePool_asks)
  with q show ?thesis by (rule asks_trans)
next
  case False
  from False assms show ?thesis
  proof (cases rule: askStorage_clustered)
    case (first local w1 e)
    have "asks storageQuestions w w1"
      using first(1) by (rule AskBool_asks) (simp add: storageQuestions_def)
    then show ?thesis using askStorage_local(1) [OF first(2)] by (rule asks_trans)
  next
    case (second local w1 c1 w2 remote w3)
    have "asks storageQuestions w w1"
      using second(1) by (rule AskBool_asks) (simp add: storageQuestions_def)
    then have "asks storageQuestions w w2"
      using askStorage_local(1) [OF second(2)] by (rule asks_trans)
    moreover have "asks storageQuestions w2 w3"
      using second(3) by (rule AskBool_asks) (simp add: storageQuestions_def)
    ultimately have "asks storageQuestions w w3" by (rule asks_trans)
    then show ?thesis using askStorage_remote(1) [OF second(4)] by (rule asks_trans)
  qed
qed

lemma askStorage_frame:
  assumes "askStorage h c w = Some (Inr c', w')"
  shows "Config c' = Config c \<and> Networks c' = Networks c \<and> Cluster c' = Cluster c
     \<and> (\<exists>pools. StoragePools c' = StoragePools c @ pools
           \<and> distinct (map sp_Name pools)
           \<and> (\<forall>pool \<in> set pools. \<not> GetStoragePoolOk h (sp_Name pool)))"
proof (cases "Cluster c = None")
  case True
  from True assms obtain new w1 where
    b: "(if \<not> new then Some (Inr c, w1) else askStoragePool h c ''all'' w1)
          = Some (Inr c', w')"
    by (rule askStorage_standalone)
  show ?thesis
  proof (cases new)
    case False
    with b have "c' = c" by simp
    then show ?thesis by simp
  next
    case True
    with b have "askStoragePool h c ''all'' w1 = Some (Inr c', w')" by simp
    from askStoragePool_frame [OF this] obtain pool where
      x: "Config c' = Config c" "Networks c' = Networks c" "Cluster c' = Cluster c"
        "StoragePools c' = StoragePools c @ [pool]" "\<not> GetStoragePoolOk h (sp_Name pool)"
      by auto
    then show ?thesis
      by (intro conjI exI [of _ "[pool]"]) simp_all
  qed
next
  case False
  from False assms show ?thesis
  proof (cases rule: askStorage_clustered)
    case (first local w1 e)
    then show ?thesis by simp
  next
    case (second local w1 c1 w2 remote w3)
    from askStorage_local(2) [OF second(2) refl] obtain ps1 where
      x: "Config c1 = Config c" "Networks c1 = Networks c" "Cluster c1 = Cluster c"
        "StoragePools c1 = StoragePools c @ ps1" "set (map sp_Name ps1) \<subseteq> {''local''}"
        "length ps1 \<le> 1" "\<forall>pool \<in> set ps1. \<not> GetStoragePoolOk h (sp_Name pool)"
      by auto
    from askStorage_remote(2) [OF second(4) refl] obtain ps2 where
      y: "Config c' = Config c1" "Networks c' = Networks c1" "Cluster c' = Cluster c1"
        "StoragePools c' = StoragePools c1 @ ps2" "set (map sp_Name ps2) \<subseteq> {''remote''}"
        "length ps2 \<le> 1" "\<forall>pool \<in> set ps2. \<not> GetStoragePoolOk h (sp_Name pool)"
      by auto
    have d1: "distinct (map sp_Name ps1)" using x(6) by (cases ps1) auto
    have d2: "distinct (map sp_Name ps2)" using y(6) by (cases ps2) auto
    have "''local'' \<noteq> ''remote''" by simp
    with x(5) y(5) have "set (map sp_Name ps1) \<inter> set (map sp_Name ps2) = {}"
      by blast
    with d1 d2 have d: "distinct (map sp_Name (ps1 @ ps2))" by simp
    from x y d show ?thesis
      by (intro conjI exI [of _ "ps1 @ ps2"]) auto
  qed
qed

subsection \<open>The default storage driver\<close>

text \<open>
  C4. For every set of candidate storage drivers and every detected backing filesystem
  (a filesystem type, so none of the driver names \<open>dir\<close>, \<open>lvm\<close> and \<open>ceph\<close>, which name no
  filesystem), the default driver follows the priority of the specification: a candidate
  matching the backing filesystem, then zfs, then btrfs, then dir; in particular a candidate
  that matches the detected backing filesystem is the default. The same holds for any
  list of candidates whenever the backing filesystem is btrfs or zfs or no candidate
  matches it. When the detection fails, or finds a filesystem other than btrfs and zfs,
  the default is zfs if present, then btrfs if present, then dir.
\<close>

theorem defaultStorage_priority:
  "(FilesystemDetect h = Some fs \<and> set availableBackends \<subseteq> storageDrivers
      \<and> fs \<notin> {''dir'', ''lvm'', ''ceph''}
      \<longrightarrow> defaultStorage (backingFs h) availableBackends = specDefaultStorage fs availableBackends
          \<and> (fs \<in> set availableBackends
               \<longrightarrow> defaultStorage (backingFs h) availableBackends = fs))
   \<and> (FilesystemDetect h = Some fs \<and> (fs \<in> {''btrfs'', ''zfs''} \<or> fs \<notin> set availableBackends)
      \<longrightarrow> defaultStorage (backingFs h) availableBackends = specDefaultStorage fs availableBackends)
   \<and> (FilesystemDetect h = Some fs \<and> fs \<in> {''btrfs'', ''zfs''} \<and> fs \<in> set availableBackends
      \<longrightarrow> defaultStorage (backingFs h) availableBackends = fs)
   \<and> (FilesystemDetect h = None \<or> (FilesystemDetect h = Some fs \<and> fs \<notin> {''btrfs'', ''zfs''})
      \<longrightarrow> defaultStorage (backingFs h) availableBackends =
          (if ''zfs'' \<in> set availableBackends then ''zfs''
           else if ''btrfs'' \<in> set availableBackends then ''btrfs'' else ''dir''))"
proof -
  have a: "x \<in> {''btrfs'', ''zfs''} \<or> x \<notin> set availableBackends
      \<Longrightarrow> defaultStorage x availableBackends = specDefaultStorage x availableBackends" for x
    by (auto simp: defaultStorage_def specDefaultStorage_def)
  have b: "x \<in> {''btrfs'', ''zfs''} \<Longrightarrow> x \<in> set availableBackends
      \<Longrightarrow> defaultStorage x availableBackends = x" for x
    by (auto simp: defaultStorage_def)
  have c: "set availableBackends \<subseteq> storageDrivers \<Longrightarrow> x \<notin> {''dir'', ''lvm'', ''ceph''}
      \<Longrightarrow> x \<in> {''btrfs'', ''zfs''} \<or> x \<notin> set availableBackends" for x
    unfolding storageDrivers_def by auto
  have d: "x \<notin> {''btrfs'', ''zfs''} \<Longrightarrow> defaultStorage x availableBackends =
          (if ''zfs'' \<in> set availableBackends then ''zfs''
           else if ''btrfs'' \<in> set availableBackends then ''btrfs'' else ''dir'')" for x
    by (auto simp: defaultStorage_def)
  show ?thesis
  proof (intro conjI impI)
    assume h: "FilesystemDetect h = Some fs \<and> set availableBackends \<subseteq> storageDrivers
      \<and> fs \<notin> {''dir'', ''lvm'', ''ceph''}"
    then have e: "backingFs h = fs" by (simp add: backingFs_def)
    from h have m: "fs \<in> {''btrfs'', ''zfs''} \<or> fs \<notin> set availableBackends"
      by (intro c) simp_all
    show "defaultStorage (backingFs h) availableBackends = specDefaultStorage fs availableBackends"
      unfolding e using m by (rule a)
    assume "fs \<in> set availableBackends"
    with m have "fs \<in> {''btrfs'', ''zfs''}" by simp
    then show "defaultStorage (backingFs h) availableBackends = fs"
      unfolding e using \<open>fs \<in> set availableBackends\<close> by (rule b)
  next
    assume h: "FilesystemDetect h = Some fs
      \<and> (fs \<in> {''btrfs'', ''zfs''} \<or> fs \<notin> set availableBackends)"
    then have e: "backingFs h = fs" by (simp add: backingFs_def)
    from h have "fs \<in> {''btrfs'', ''zfs''} \<or> fs \<notin> set availableBackends" by simp
    then show "defaultStorage (backingFs h) availableBackends
        = specDefaultStorage fs availableBackends"
      unfolding e by (rule a)
  next
    assume h: "FilesystemDetect h = Some fs \<and> fs \<in> {''btrfs'', ''zfs''}
      \<and> fs \<in> set availableBackends"
    then have e: "backingFs h = fs" by (simp add: backingFs_def)
    from h have "fs \<in> {''btrfs'', ''zfs''}" "fs \<in> set availableBackends" by simp_all
    then show "defaultStorage (backingFs h) availableBackends = fs"
      unfolding e by (rule b)
  next
    assume "FilesystemDetect h = None
      \<or> (FilesystemDetect h = Some fs \<and> fs \<notin> {''btrfs'', ''zfs''})"
    then have "backingFs h \<notin> {''btrfs'', ''zfs''}"
      by (auto simp: backingFs_def)
    then show "defaultStorage (backingFs h) availableBackends =
          (if ''zfs'' \<in> set availableBackends then ''zfs''
           else if ''btrfs'' \<in> set availableBackends then ''btrfs'' else ''dir'')"
      by (rule d)
  qed
qed

theorem defaultStorage_priority_witness:
  "FilesystemDetect (exampleHost\<lparr>FilesystemDetect := Some ''btrfs''\<rparr>) = Some ''btrfs''
   \<and> set [''dir'', ''btrfs'', ''lvm'', ''zfs''] \<subseteq> storageDrivers
   \<and> ''btrfs'' \<notin> {''dir'', ''lvm'', ''ceph''}
   \<and> ''btrfs'' \<in> set [''dir'', ''btrfs'', ''lvm'', ''zfs'']
   \<and> defaultStorage (backingFs (exampleHost\<lparr>FilesystemDetect := Some ''btrfs''\<rparr>))
        [''dir'', ''btrfs'', ''lvm'', ''zfs''] = ''btrfs''
   \<and> specDefaultStorage ''btrfs'' [''dir'', ''btrfs'', ''lvm'', ''zfs''] = ''btrfs''
   \<and> FilesystemDetect exampleHost = Some ''ext4''
   \<and> ''ext4'' \<notin> set [''dir'', ''btrfs'', ''lvm'', ''zfs'']
   \<and> defaultStorage (backingFs exampleHost) [''dir'', ''btrfs'', ''lvm'', ''zfs''] = ''zfs''
   \<and> specDefaultStorage ''ext4'' [''dir'', ''btrfs'', ''lvm'', ''zfs''] = ''zfs''
   \<and> FilesystemDetect (exampleHost\<lparr>FilesystemDetect := None\<rparr>) = None
   \<and> defaultStorage (backingFs (exampleHost\<lparr>FilesystemDetect := None\<rparr>)) [''dir'', ''zfs'']
       = ''zfs''"
proof -
  let ?b = "[''dir'', ''btrfs'', ''lvm'', ''zfs'']"
  have f: "FilesystemDetect (exampleHost\<lparr>FilesystemDetect := Some ''btrfs''\<rparr>) = Some ''btrfs''"
    "FilesystemDetect exampleHost = Some ''ext4''"
    "FilesystemDetect (exampleHost\<lparr>FilesystemDetect := None\<rparr>) = None"
    by (simp_all add: exampleHost_def)
  have s: "set ?b \<subseteq> storageDrivers" "''btrfs'' \<notin> {''dir'', ''lvm'', ''ceph''}"
    "''btrfs'' \<in> set ?b" "''ext4'' \<notin> set ?b"
    "specDefaultStorage ''btrfs'' ?b = ''btrfs''" "specDefaultStorage ''ext4'' ?b = ''zfs''"
    by (simp_all add: storageDrivers_def specDefaultStorage_def)
  have 1: "defaultStorage (backingFs (exampleHost\<lparr>FilesystemDetect := Some ''btrfs''\<rparr>)) ?b
      = ''btrfs''"
    using defaultStorage_priority [where h = "exampleHost\<lparr>FilesystemDetect := Some ''btrfs''\<rparr>"
        and fs = "''btrfs''" and availableBackends = ?b] f(1) s(1,2,3)
    by blast
  have 2: "defaultStorage (backingFs exampleHost) ?b = ''zfs''"
    using defaultStorage_priority [where h = exampleHost and fs = "''ext4''"
        and availableBackends = ?b] f(2) s(4,6)
    by simp
  have 3: "defaultStorage (backingFs (exampleHost\<lparr>FilesystemDetect := None\<rparr>)) [''dir'', ''zfs'']
      = ''zfs''"
    using defaultStorage_priority [where h = "exampleHost\<lparr>FilesystemDetect := None\<rparr>"
        and fs = "''ext4''" and availableBackends = "[''dir'', ''zfs'']"] f(3)
    by simp
  show ?thesis
    by (intro conjI) (rule f s 1 2 3)+
qed

subsection \<open>The default size of a loop device\<close>

lemma clampSize_range: "15 \<le> clampSize x \<and> clampSize x \<le> 100"
  unfolding clampSize_def Let_def
  by (auto simp: word_le_nat_alt word_less_nat_alt not_less)

lemma clampSize_inside: "15 \<le> x \<Longrightarrow> x \<le> 100 \<Longrightarrow> clampSize x = x"
  unfolding clampSize_def Let_def
  by (auto simp: word_le_nat_alt word_less_nat_alt not_less)

lemma clampSize_mono: "x \<le> y \<Longrightarrow> clampSize x \<le> clampSize y"
  unfolding clampSize_def Let_def
  by (auto simp: word_le_nat_alt word_less_nat_alt not_less)

lemma rawSize_unat:
  "unat (rawSize st) = (unat (Frsize st) * unat (Blocks st) mod 2 ^ 64) div (5 * 2 ^ 30)"
  unfolding rawSize_def
  by (simp add: unat_div unat_word_ariths div_mult2_eq mult.commute)

lemma askPoolSource_default_size:
  assumes "Statfs h = Some st" "driver \<noteq> ''ceph''"
  shows "askPoolSource h driver cfg
           \<lparr>pending = AStr [] # AStr [] # AStr [] # rest, transcript = t\<rparr>
         = Some (Inr (cfg(''size'' \<mapsto> fmt_d (uint (defaultSize st)) @ ''GB'')),
             \<lparr>pending = rest,
              transcript = t @ [(QCreateNew, ABool True), (QUseBlockDevice, ABool False),
                                (QLoopSize, AInt (uint (defaultSize st)))]\<rparr>)"
proof -
  have "inRange 1 (- 1) (uint (defaultSize st))"
    using clampSize_range [of "rawSize st"]
    by (simp add: inRange_def defaultSize_def word_le_def)
  then show ?thesis using assms
    by (simp add: askPoolSource_def AskBool_def AskInt_def reply_def)
qed

lemma askPoolSource_size_minimum:
  assumes "askPoolSource h driver cfg w = Some (Inr cfg', w')"
    and "(QLoopSize, AInt n) \<in> set (during w w')"
  shows "1 \<le> n \<and> cfg' ''size'' = Some (fmt_d n @ ''GB'')"
  using assms
  unfolding askPoolSource_def
  by (auto simp: bind_eq_Some_conv inRange_def split: if_splits option.splits
      dest!: AskBool_Some AskString_Some AskInt_Some)

text \<open>
  C1, as stated, fails. The size is computed from \<open>st.Blocks\<close>, the size of the data
  directory's filesystem, as the source's comment says ("x is 20% of the disk size"), not
  from its free space. On a 250 GiB filesystem with 50 GiB free the default offered is 50;
  20% of the free space, clamped, is 15.
\<close>

theorem defaultSize_free_space_counterexample:
  "defaultSize exampleStatfs = 50
   \<and> specDefaultSize (Bfree exampleStatfs) exampleStatfs = 15
   \<and> specDefaultSize (Bavail exampleStatfs) exampleStatfs = 15"
  by (simp add: defaultSize_def rawSize_def specDefaultSize_def clampSize_def exampleStatfs_def)

text \<open>
  C1, amended. When the operator creates a new backing store for a driver other than dir
  and ceph and uses no existing block device, the default loop size offered is 20% of the
  size of the data directory's filesystem (fragment size times block count, in uint64
  arithmetic, in whole GiB), clamped to the inclusive range 15..100: the clamp is monotonic,
  leaves a value in the range as it is, and takes 10, 50 and 500 to 15, 50 and 100. An
  operator who accepts the three defaults gets that size, and every size the prompt
  returns is at least 1.
\<close>

theorem defaultSize_disk_size:
  "defaultSize st = clampSize (rawSize st)
   \<and> unat (rawSize st) = (unat (Frsize st) * unat (Blocks st) mod 2 ^ 64) div (5 * 2 ^ 30)
   \<and> 15 \<le> defaultSize st \<and> defaultSize st \<le> 100
   \<and> (15 \<le> rawSize st \<and> rawSize st \<le> 100 \<longrightarrow> defaultSize st = rawSize st)
   \<and> (x \<le> y \<longrightarrow> clampSize x \<le> clampSize y)
   \<and> clampSize 10 = 15 \<and> clampSize 50 = 50 \<and> clampSize 500 = 100
   \<and> (Statfs h = Some st \<and> driver \<noteq> ''ceph''
      \<longrightarrow> askPoolSource h driver cfg
            \<lparr>pending = AStr [] # AStr [] # AStr [] # rest, transcript = t\<rparr>
          = Some (Inr (cfg(''size'' \<mapsto> fmt_d (uint (defaultSize st)) @ ''GB'')),
              \<lparr>pending = rest,
               transcript = t @ [(QCreateNew, ABool True), (QUseBlockDevice, ABool False),
                                 (QLoopSize, AInt (uint (defaultSize st)))]\<rparr>))
   \<and> (askPoolSource h driver cfg w = Some (Inr cfg', w')
        \<and> (QLoopSize, AInt n) \<in> set (during w w')
      \<longrightarrow> 1 \<le> n \<and> cfg' ''size'' = Some (fmt_d n @ ''GB''))"
proof -
  have "clampSize 10 = 15 \<and> clampSize 50 = 50 \<and> clampSize 500 = 100"
    by (simp add: clampSize_def)
  then show ?thesis
    using clampSize_range [of "rawSize st"] clampSize_inside [of "rawSize st"]
      clampSize_mono [of x y] rawSize_unat [of st]
      askPoolSource_default_size [of h st driver cfg rest t]
      askPoolSource_size_minimum [of h driver cfg w cfg' w' n]
    by (simp add: defaultSize_def)
qed

theorem defaultSize_disk_size_witness:
  "unat (rawSize exampleStatfs) = 50 \<and> defaultSize exampleStatfs = 50
   \<and> Statfs exampleHost = Some exampleStatfs \<and> ''zfs'' \<noteq> ''ceph''
   \<and> askPoolSource exampleHost ''zfs'' Map.empty (operator [AStr [], AStr [], AStr []])
       = Some (Inr [''size'' \<mapsto> ''50GB''],
           \<lparr>pending = [],
            transcript = [(QCreateNew, ABool True), (QUseBlockDevice, ABool False),
                          (QLoopSize, AInt 50)]\<rparr>)
   \<and> askPoolSource exampleHost ''zfs'' Map.empty
         (operator [ABool True, ABool False, AInt 0, AInt 30])
       = Some (Inr [''size'' \<mapsto> ''30GB''],
           \<lparr>pending = [],
            transcript = [(QCreateNew, ABool True), (QUseBlockDevice, ABool False),
                          (QLoopSize, AInt 30)]\<rparr>)
   \<and> (QLoopSize, AInt 30)
       \<in> set (during (operator [ABool True, ABool False, AInt 0, AInt 30])
            \<lparr>pending = [],
             transcript = [(QCreateNew, ABool True), (QUseBlockDevice, ABool False),
                           (QLoopSize, AInt 30)]\<rparr>)
   \<and> (1 :: int) \<le> 30"
proof -
  let ?w = "operator [ABool True, ABool False, AInt 0, AInt 30]"
  let ?w' = "\<lparr>pending = [],
            transcript = [(QCreateNew, ABool True), (QUseBlockDevice, ABool False),
                          (QLoopSize, AInt 30)]\<rparr>"
  have u: "unat (rawSize exampleStatfs) = 50"
    by (simp add: rawSize_def exampleStatfs_def)
  have d: "defaultSize exampleStatfs = 50"
    by (simp add: defaultSize_def rawSize_def clampSize_def exampleStatfs_def)
  have s: "Statfs exampleHost = Some exampleStatfs" "''zfs'' \<noteq> ''ceph''"
    by (simp_all add: exampleHost_def)
  have f: "fmt_d 50 = ''50''" "fmt_d 30 = ''30''"
    by (simp_all add: fmt_d_def decimal.simps)
  have r: "askPoolSource exampleHost ''zfs'' Map.empty ?w = Some (Inr [''size'' \<mapsto> ''30GB''], ?w')"
    by (simp add: askPoolSource_def AskBool_def AskInt_def reply_def operator_def s
        inRange_def f)
  have m: "(QLoopSize, AInt 30) \<in> set (during ?w ?w')"
    by (simp add: during_def operator_def)
  note inst = defaultSize_disk_size [of exampleStatfs 10 50 exampleHost "''zfs''" Map.empty
      "[]" "[]" ?w "[''size'' \<mapsto> ''30GB'']" ?w' 30]
  have r0: "askPoolSource exampleHost ''zfs'' Map.empty (operator [AStr [], AStr [], AStr []])
       = Some (Inr [''size'' \<mapsto> ''50GB''],
           \<lparr>pending = [],
            transcript = [(QCreateNew, ABool True), (QUseBlockDevice, ABool False),
                          (QLoopSize, AInt 50)]\<rparr>)"
    using inst s by (simp add: d f operator_def)
  have l: "(1 :: int) \<le> 30"
    using inst r m by blast
  show ?thesis
    using u d s r0 r m l by blast
qed

subsection \<open>Storage pool names\<close>

lemma askStoragePool_collision:
  assumes "availableStorageDrivers h ''all'' \<noteq> []"
    and "AskString QPoolName ''default'' None w = Some (name, w1)"
    and "GetStoragePoolOk h name"
  shows "askStoragePool h c ''all'' w = askStoragePool h c ''all'' w1"
  using assms
  by (simp add: askStoragePool_def storagePoolLoop.simps [of h c "''all''" _ w])

lemma askStoragePool_fixed_collision:
  assumes "poolType \<noteq> ''all''" and "GetStoragePoolOk h poolType"
  shows "askStoragePool h c poolType w =
     Some (Inl (if availableStorageDrivers h poolType = [] then NoBackends poolType
                else PoolExists poolType), w)"
  using assms
  by (simp add: askStoragePool_def storagePoolLoop.simps [of h c poolType _ w])

lemma askStorage_local_collision:
  assumes "Cluster c \<noteq> None" and "AskBool QLocalPool True w = Some (True, w1)"
    and "GetStoragePoolOk h ''local''"
  shows "askStorage h c w =
     Some (Inl (if availableStorageDrivers h ''local'' = [] then NoBackends ''local''
                else PoolExists ''local''), w1)"
proof -
  have "''local'' \<noteq> ''all''" by simp
  from askStoragePool_fixed_collision [OF this assms(3), of c w1] assms(1,2)
  show ?thesis
    by (simp add: askStorage_def bindE_def)
qed

lemma askStorage_remote_collision:
  assumes "Cluster c \<noteq> None" and "AskBool QLocalPool True w = Some (local, w1)"
    and "(if local then askStoragePool h c ''local'' w1 else Some (Inr c, w1))
           = Some (Inr c1, w2)"
    and "AskBool QRemotePool True w2 = Some (True, w3)"
    and "GetStoragePoolOk h ''remote''"
  shows "askStorage h c w =
     Some (Inl (if availableStorageDrivers h ''remote'' = [] then NoBackends ''remote''
                else PoolExists ''remote''), w3)"
proof -
  have "''remote'' \<noteq> ''all''" by simp
  from askStoragePool_fixed_collision [OF this assms(5), of c1 w3] assms(1,2,3,4)
  show ?thesis
    by (simp add: askStorage_def bindE_def)
qed

lemma RunInteractive_storage_error:
  assumes "askClustering h emptyConfig w = Some (Inr c, w1)"
    and "case Cluster c of None \<Rightarrow> True | Some cluster \<Rightarrow> ClusterAddress cluster = []"
    and "askStorage h c w1 = Some (Inl e, w2)"
  shows "RunInteractive h w = Some (Inl e, w2)"
  using assms by (simp add: RunInteractive_def askOthers_def bindE_def)

lemma storage_pool_names:
  "(availableStorageDrivers h ''all'' \<noteq> []
      \<and> AskString QPoolName ''default'' None w = Some (name, w1) \<and> GetStoragePoolOk h name
     \<longrightarrow> askStoragePool h c ''all'' w = askStoragePool h c ''all'' w1)
   \<and> (poolType \<noteq> ''all'' \<and> GetStoragePoolOk h poolType
     \<longrightarrow> askStoragePool h c poolType w =
         Some (Inl (if availableStorageDrivers h poolType = [] then NoBackends poolType
                    else PoolExists poolType), w))
   \<and> (askStorage h c w = Some (Inr c', w')
     \<longrightarrow> (\<exists>pools. StoragePools c' = StoragePools c @ pools
            \<and> distinct (map sp_Name pools)
            \<and> (\<forall>pool \<in> set pools. \<not> GetStoragePoolOk h (sp_Name pool)))
         \<and> (StoragePools c = [] \<longrightarrow> distinct (map sp_Name (StoragePools c'))))"
proof (intro conjI impI)
  assume "availableStorageDrivers h ''all'' \<noteq> []
      \<and> AskString QPoolName ''default'' None w = Some (name, w1) \<and> GetStoragePoolOk h name"
  then show "askStoragePool h c ''all'' w = askStoragePool h c ''all'' w1"
    by (blast intro: askStoragePool_collision)
next
  assume "poolType \<noteq> ''all'' \<and> GetStoragePoolOk h poolType"
  then show "askStoragePool h c poolType w =
         Some (Inl (if availableStorageDrivers h poolType = [] then NoBackends poolType
                    else PoolExists poolType), w)"
    by (blast intro: askStoragePool_fixed_collision)
next
  assume a: "askStorage h c w = Some (Inr c', w')"
  from askStorage_frame [OF a]
  show "\<exists>pools. StoragePools c' = StoragePools c @ pools
            \<and> distinct (map sp_Name pools)
            \<and> (\<forall>pool \<in> set pools. \<not> GetStoragePoolOk h (sp_Name pool))"
    by (elim conjE)
  assume "StoragePools c = []"
  with askStorage_frame [OF a] show "distinct (map sp_Name (StoragePools c'))"
    by (elim conjE exE) simp
qed

text \<open>
  C5. A free-form name (pool type \<open>all\<close>) that an existing pool has is dropped: the wizard
  goes on, from the world after that answer, as if it had just been started there, with
  the configuration untouched, so the name is asked again. With a name fixed by the role
  (\<open>local\<close>, \<open>remote\<close>) nothing is asked and \<open>askStoragePool\<close> fails at once (with "no
  storage backends available" when there is no driver for the role, with "the storage
  pool already exists" otherwise). That failure ends the planning: \<open>askStorage\<close> returns the
  error right after the operator asked for the local pool, or for the remote pool, with
  no further question, and \<open>RunInteractive\<close> returns the error of \<open>askStorage\<close> and no
  configuration. The pools that \<open>askStorage\<close> appends have pairwise different names, none
  of them the name of an existing pool.
\<close>

theorem storage_pool_name_collision:
  "(availableStorageDrivers h ''all'' \<noteq> []
      \<and> AskString QPoolName ''default'' None w = Some (name, w1) \<and> GetStoragePoolOk h name
     \<longrightarrow> askStoragePool h c ''all'' w = askStoragePool h c ''all'' w1)
   \<and> (poolType \<noteq> ''all'' \<and> GetStoragePoolOk h poolType
     \<longrightarrow> askStoragePool h c poolType w =
         Some (Inl (if availableStorageDrivers h poolType = [] then NoBackends poolType
                    else PoolExists poolType), w))
   \<and> (askStorage h c w = Some (Inr c', w')
     \<longrightarrow> (\<exists>pools. StoragePools c' = StoragePools c @ pools
            \<and> distinct (map sp_Name pools)
            \<and> (\<forall>pool \<in> set pools. \<not> GetStoragePoolOk h (sp_Name pool)))
         \<and> (StoragePools c = [] \<longrightarrow> distinct (map sp_Name (StoragePools c'))))
   \<and> (Cluster cc \<noteq> None \<and> AskBool QLocalPool True v = Some (True, v1)
        \<and> GetStoragePoolOk h ''local''
     \<longrightarrow> askStorage h cc v =
         Some (Inl (if availableStorageDrivers h ''local'' = [] then NoBackends ''local''
                    else PoolExists ''local''), v1))
   \<and> (Cluster cc \<noteq> None \<and> AskBool QLocalPool True v = Some (local, v1)
        \<and> (if local then askStoragePool h cc ''local'' v1 else Some (Inr cc, v1))
            = Some (Inr c1, v2)
        \<and> AskBool QRemotePool True v2 = Some (True, v3) \<and> GetStoragePoolOk h ''remote''
     \<longrightarrow> askStorage h cc v =
         Some (Inl (if availableStorageDrivers h ''remote'' = [] then NoBackends ''remote''
                    else PoolExists ''remote''), v3))
   \<and> (askClustering h emptyConfig v0 = Some (Inr cc, v)
        \<and> (case Cluster cc of None \<Rightarrow> True | Some cluster \<Rightarrow> ClusterAddress cluster = [])
        \<and> askStorage h cc v = Some (Inl e, v')
     \<longrightarrow> RunInteractive h v0 = Some (Inl e, v'))"
proof -
  note old = storage_pool_names [where h = h and w = w and name = name
      and ?w1.0 = w1 and c = c and poolType = poolType and c' = c' and w' = w']
  note o1 = old [THEN conjunct1]
  note o2 = old [THEN conjunct2, THEN conjunct1]
  note o3 = old [THEN conjunct2, THEN conjunct2]
  have 4: "Cluster cc \<noteq> None \<and> AskBool QLocalPool True v = Some (True, v1)
        \<and> GetStoragePoolOk h ''local''
     \<longrightarrow> askStorage h cc v =
         Some (Inl (if availableStorageDrivers h ''local'' = [] then NoBackends ''local''
                    else PoolExists ''local''), v1)"
    by (intro impI, elim conjE) (rule askStorage_local_collision)
  have 5: "Cluster cc \<noteq> None \<and> AskBool QLocalPool True v = Some (local, v1)
        \<and> (if local then askStoragePool h cc ''local'' v1 else Some (Inr cc, v1))
            = Some (Inr c1, v2)
        \<and> AskBool QRemotePool True v2 = Some (True, v3) \<and> GetStoragePoolOk h ''remote''
     \<longrightarrow> askStorage h cc v =
         Some (Inl (if availableStorageDrivers h ''remote'' = [] then NoBackends ''remote''
                    else PoolExists ''remote''), v3)"
    by (intro impI, elim conjE) (rule askStorage_remote_collision)
  have 6: "askClustering h emptyConfig v0 = Some (Inr cc, v)
        \<and> (case Cluster cc of None \<Rightarrow> True | Some cluster \<Rightarrow> ClusterAddress cluster = [])
        \<and> askStorage h cc v = Some (Inl e, v')
     \<longrightarrow> RunInteractive h v0 = Some (Inl e, v')"
    by (intro impI, elim conjE) (rule RunInteractive_storage_error)
  show ?thesis
    by (intro conjI) (rule o1 o2 o3 4 5 6)+
qed

theorem storage_pool_name_collision_witness:
  "availableStorageDrivers exampleHost ''all'' \<noteq> []
   \<and> AskString QPoolName ''default'' None (operator [AStr ''old'', AStr ''p1'', AStr ''dir''])
       = Some (''old'', \<lparr>pending = [AStr ''p1'', AStr ''dir''],
                         transcript = [(QPoolName, AStr ''old'')]\<rparr>)
   \<and> GetStoragePoolOk exampleHost ''old''
   \<and> askStoragePool exampleHost emptyConfig ''all''
         (operator [AStr ''old'', AStr ''p1'', AStr ''dir''])
       = askStoragePool exampleHost emptyConfig ''all''
           \<lparr>pending = [AStr ''p1'', AStr ''dir''], transcript = [(QPoolName, AStr ''old'')]\<rparr>
   \<and> ''local'' \<noteq> ''all'' \<and> GetStoragePoolOk exampleHost ''local''
   \<and> askStoragePool exampleHost emptyConfig ''local'' (operator [])
       = Some (Inl (PoolExists ''local''), operator [])
   \<and> (\<exists>c' w'. askStorage exampleHost emptyConfig
                  (operator [ABool True, AStr ''old'', AStr ''p1'', AStr ''dir''])
                = Some (Inr c', w')
         \<and> map sp_Name (StoragePools c') = [''p1'']
         \<and> distinct (map sp_Name (StoragePools c')))
   \<and> Cluster bootstrapConfig \<noteq> None
   \<and> AskBool QLocalPool True (operator [ABool True])
       = Some (True, \<lparr>pending = [], transcript = [(QLocalPool, ABool True)]\<rparr>)
   \<and> askStorage exampleHost bootstrapConfig (operator [ABool True])
       = Some (Inl (PoolExists ''local''),
           \<lparr>pending = [], transcript = [(QLocalPool, ABool True)]\<rparr>)
   \<and> GetStoragePoolOk (exampleHost\<lparr>GetStoragePoolOk := (\<lambda>name. name = ''remote'')\<rparr>) ''remote''
   \<and> askStorage (exampleHost\<lparr>GetStoragePoolOk := (\<lambda>name. name = ''remote'')\<rparr>) bootstrapConfig
         (operator [ABool False, ABool True])
       = Some (Inl (PoolExists ''remote''),
           \<lparr>pending = [],
            transcript = [(QLocalPool, ABool False), (QRemotePool, ABool True)]\<rparr>)
   \<and> (\<exists>cc v v'.
         askClustering exampleHost emptyConfig
           (operator [ABool True, AStr [], AStr [], ABool False, ABool False, ABool True])
         = Some (Inr cc, v)
         \<and> (case Cluster cc of None \<Rightarrow> True | Some cluster \<Rightarrow> ClusterAddress cluster = [])
         \<and> askStorage exampleHost cc v = Some (Inl (PoolExists ''local''), v')
         \<and> RunInteractive exampleHost
             (operator [ABool True, AStr [], AStr [], ABool False, ABool False, ABool True])
           = Some (Inl (PoolExists ''local''), v'))"
proof -
  let ?w = "operator [AStr ''old'', AStr ''p1'', AStr ''dir'']"
  let ?w1 = "\<lparr>pending = [AStr ''p1'', AStr ''dir''], transcript = [(QPoolName, AStr ''old'')]\<rparr>"
  let ?h2 = "exampleHost\<lparr>GetStoragePoolOk := (\<lambda>name. name = ''remote'')\<rparr>"
  let ?v0 = "operator [ABool True, AStr [], AStr [], ABool False, ABool False, ABool True]"
  have b: "availableStorageDrivers exampleHost ''all'' \<noteq> []"
    "GetStoragePoolOk exampleHost ''old''" "''local'' \<noteq> ''all''"
    "GetStoragePoolOk exampleHost ''local''" "availableStorageDrivers exampleHost ''local'' \<noteq> []"
    "GetStoragePoolOk ?h2 ''remote''" "availableStorageDrivers ?h2 ''remote'' \<noteq> []"
    by (simp_all add: exampleHost_def)
  have a: "AskString QPoolName ''default'' None ?w = Some (''old'', ?w1)"
    by (simp add: AskString_def operator_def accepts_def reply_def)
  obtain c' w' where
    r: "askStorage exampleHost emptyConfig
          (operator [ABool True, AStr ''old'', AStr ''p1'', AStr ''dir'']) = Some (Inr c', w')"
    and n: "map sp_Name (StoragePools c') = [''p1'']"
    by (simp add: askStorage_def emptyConfig_def AskBool_def operator_def reply_def
        askStoragePool_def exampleHost_def storagePoolLoop.simps AskString_def accepts_def
        configurePool_def setDevice_def askBackend_def AskChoice_def bindE_def appendPool_def)
  have e: "StoragePools emptyConfig = []"
    by (simp add: emptyConfig_def)
  have k: "Cluster bootstrapConfig \<noteq> None"
    by (simp add: bootstrapConfig_def)
  have l: "AskBool QLocalPool True (operator [ABool True])
       = Some (True, \<lparr>pending = [], transcript = [(QLocalPool, ABool True)]\<rparr>)"
    "AskBool QLocalPool True (operator [ABool False, ABool True])
       = Some (False, \<lparr>pending = [ABool True], transcript = [(QLocalPool, ABool False)]\<rparr>)"
    "AskBool QRemotePool True
         \<lparr>pending = [ABool True], transcript = [(QLocalPool, ABool False)]\<rparr>
       = Some (True, \<lparr>pending = [],
            transcript = [(QLocalPool, ABool False), (QRemotePool, ABool True)]\<rparr>)"
    by (simp_all add: AskBool_def operator_def reply_def)
  obtain cc v where
    cl: "askClustering exampleHost emptyConfig ?v0 = Some (Inr cc, v)"
    and cn: "Cluster cc \<noteq> None"
    and ca: "case Cluster cc of None \<Rightarrow> True | Some cluster \<Rightarrow> ClusterAddress cluster = []"
    and cv: "v = \<lparr>pending = [ABool True],
        transcript = [(QUseClustering, ABool True), (QServerName, AStr ''node1''),
          (QServerAddress, AStr ''10.0.0.5''), (QJoinExisting, ABool False),
          (QSetupPassword, ABool False)]\<rparr>"
    by (simp add: askClustering_def emptyConfig_def AskBool_def AskString_def operator_def
        reply_def accepts_def serverName_def exampleHost_def setConfig_def)
  let ?v' = "\<lparr>pending = [],
        transcript = [(QUseClustering, ABool True), (QServerName, AStr ''node1''),
          (QServerAddress, AStr ''10.0.0.5''), (QJoinExisting, ABool False),
          (QSetupPassword, ABool False), (QLocalPool, ABool True)]\<rparr>"
  have lv: "AskBool QLocalPool True v = Some (True, ?v')"
    by (simp add: cv AskBool_def reply_def)
  note inst1 = storage_pool_name_collision [where h = exampleHost and w = ?w
      and name = "''old''" and ?w1.0 = ?w1 and c = emptyConfig]
  note inst2 = storage_pool_name_collision [where h = exampleHost and w = "operator []"
      and poolType = "''local''" and c = emptyConfig]
  note inst3 = storage_pool_name_collision [where h = exampleHost
      and w = "operator [ABool True, AStr ''old'', AStr ''p1'', AStr ''dir'']"
      and c = emptyConfig and c' = c' and w' = w']
  note inst4 = storage_pool_name_collision [where h = exampleHost and cc = bootstrapConfig
      and v = "operator [ABool True]"
      and ?v1.0 = "\<lparr>pending = [], transcript = [(QLocalPool, ABool True)]\<rparr>"]
  note inst5 = storage_pool_name_collision [where h = ?h2 and cc = bootstrapConfig
      and v = "operator [ABool False, ABool True]" and local = False
      and ?v1.0 = "\<lparr>pending = [ABool True], transcript = [(QLocalPool, ABool False)]\<rparr>"
      and ?c1.0 = bootstrapConfig
      and ?v2.0 = "\<lparr>pending = [ABool True], transcript = [(QLocalPool, ABool False)]\<rparr>"
      and ?v3.0 = "\<lparr>pending = [],
            transcript = [(QLocalPool, ABool False), (QRemotePool, ABool True)]\<rparr>"]
  note inst6 = storage_pool_name_collision [where h = exampleHost and cc = cc and v = v
      and ?v1.0 = ?v' and ?v0.0 = ?v0 and e = "PoolExists ''local''" and v' = ?v']
  have 1: "askStoragePool exampleHost emptyConfig ''all'' ?w
       = askStoragePool exampleHost emptyConfig ''all'' ?w1"
    using inst1 a b by blast
  have 2: "askStoragePool exampleHost emptyConfig ''local'' (operator [])
       = Some (Inl (PoolExists ''local''), operator [])"
    using inst2 b by simp
  have 3: "distinct (map sp_Name (StoragePools c'))"
    using inst3 r e by blast
  have 4: "askStorage exampleHost bootstrapConfig (operator [ABool True])
       = Some (Inl (PoolExists ''local''),
           \<lparr>pending = [], transcript = [(QLocalPool, ABool True)]\<rparr>)"
    using inst4 k l(1) b(4,5) by simp
  have 5: "askStorage ?h2 bootstrapConfig (operator [ABool False, ABool True])
       = Some (Inl (PoolExists ''remote''),
           \<lparr>pending = [],
            transcript = [(QLocalPool, ABool False), (QRemotePool, ABool True)]\<rparr>)"
    using inst5 k l(2,3) b(6,7) by simp
  have 6: "askStorage exampleHost cc v = Some (Inl (PoolExists ''local''), ?v')"
    using inst6 cn lv b(4,5) by simp
  have 7: "RunInteractive exampleHost ?v0 = Some (Inl (PoolExists ''local''), ?v')"
    using inst6 cl ca 6 by blast
  show ?thesis
    by (intro conjI exI [of _ c'] exI [of _ w'] exI [of _ cc] exI [of _ v] exI [of _ ?v'])
      (rule a b 1 2 3 r n k l 4 5 cl ca 6 7)+
qed

subsection \<open>MAAS: what is asked and what is changed\<close>

lemma askMAAS_cases:
  assumes "askMAAS h c w = Some (r, w')"
  shows "(transcript w' = transcript w @ [(QMaasConnect, ABool False)] \<and> r = Inr c)
     \<or> (\<exists>entered url key.
           transcript w' = transcript w @ [(QMaasConnect, ABool True), (QMaasHostname, AStr entered),
                                           (QMaasUrl, AStr url), (QMaasKey, AStr key)]
           \<and> r = Inr (setConfig ''maas.api.key'' key (setConfig ''maas.api.url'' url
                    (if entered \<noteq> serverName h then setConfig ''maas.machine'' entered c
                     else c))))"
proof -
  from assms obtain connect w1 where
    a: "AskBool QMaasConnect False w = Some (connect, w1)"
    and b: "(if \<not> connect then Some (Inr c, w1)
      else do {
       (maasHostname, w2) \<leftarrow> AskString QMaasHostname (serverName h) None w1;
       let config1 = (if maasHostname \<noteq> serverName h
                      then setConfig ''maas.machine'' maasHostname c else c);
       (url, w3) \<leftarrow> AskString QMaasUrl [] None w2;
       let config2 = setConfig ''maas.api.url'' url config1;
       (key, w4) \<leftarrow> AskString QMaasKey [] None w3;
       Some (Inr (setConfig ''maas.api.key'' key config2), w4)
     }) = Some (r, w')"
    unfolding askMAAS_def by (simp add: bind_eq_Some_conv) blast
  note t1 = AskBool_Some [OF a]
  show ?thesis
  proof (cases connect)
    case False
    with b t1 show ?thesis by simp
  next
    case True
    with b obtain entered w2 url w3 key where
      e: "AskString QMaasHostname (serverName h) None w1 = Some (entered, w2)"
      and u: "AskString QMaasUrl [] None w2 = Some (url, w3)"
      and k: "AskString QMaasKey [] None w3 = Some (key, w')"
      and r: "r = Inr (setConfig ''maas.api.key'' key (setConfig ''maas.api.url'' url
                    (if entered \<noteq> serverName h then setConfig ''maas.machine'' entered c
                     else c)))"
      by (simp add: bind_eq_Some_conv Let_def) blast
    from t1 True AskString_Some [OF e] AskString_Some [OF u] AskString_Some [OF k]
    have "transcript w' = transcript w @ [(QMaasConnect, ABool True),
        (QMaasHostname, AStr entered), (QMaasUrl, AStr url), (QMaasKey, AStr key)]"
      by simp
    with r show ?thesis by blast
  qed
qed

lemma askMAAS_asks:
  "askMAAS h c w = Some (r, w') \<Longrightarrow> asks maasQuestions w w'"
  by (drule askMAAS_cases) (auto simp: asks_def maasQuestions_def)

lemma askMAAS_frame:
  assumes "askMAAS h c w = Some (Inr c', w')"
  shows "Networks c' = Networks c" "StoragePools c' = StoragePools c"
    "Profiles c' = Profiles c" "Cluster c' = Cluster c"
    "k \<notin> {''maas.machine'', ''maas.api.url'', ''maas.api.key''} \<Longrightarrow> Config c' k = Config c k"
  using askMAAS_cases [OF assms] by auto

subsection \<open>Daemon configuration: what is asked and what is changed\<close>

lemma askAutoUpdate_cases:
  assumes "askAutoUpdate c w = Some (c', w')"
  shows "(transcript w' = transcript w @ [(QAutoUpdate, ABool False)]
          \<and> c' = setConfig ''images.auto_update_interval'' ''0'' c)
       \<or> (transcript w' = transcript w @ [(QAutoUpdate, ABool True)] \<and> c' = c)"
  using assms unfolding askAutoUpdate_def
  by (auto simp: bind_eq_Some_conv elim!: if_eqE dest!: AskBool_Some)

lemma askListener_Some:
  assumes "askListener h c w = Some (c', w')"
  shows "asks listenerQuestions w w'"
    "Networks c' = Networks c" "StoragePools c' = StoragePools c"
    "Profiles c' = Profiles c" "Cluster c' = Cluster c"
    "k \<notin> {''core.https_address'', ''core.trust_password''} \<Longrightarrow> Config c' k = Config c k"
  using assms unfolding askListener_def AskPassword_def listenerQuestions_def asks_def
  by (auto simp: bind_eq_Some_conv Let_def elim!: if_eqE
      dest!: AskBool_Some AskString_Some AskInt_Some)

lemma askShareAllocation_asks:
  "askShareAllocation h c w = Some (r, w') \<Longrightarrow> asks {QShareAllocation} w w'"
  unfolding askShareAllocation_def asks_def
  by (auto simp: bind_eq_Some_conv elim!: if_eqE dest!: AskBool_Some)

lemma askShareAllocation_frame:
  assumes "askShareAllocation h c w = Some (Inr c', w')"
  shows "Config c' = Config c" "Networks c' = Networks c" "StoragePools c' = StoragePools c"
    "Cluster c' = Cluster c"
  using assms unfolding askShareAllocation_def
  by (auto simp: bind_eq_Some_conv setProfileConfig_Inr elim!: if_eqE)


lemma askDaemon_unfold:
  assumes "askDaemon h c w = Some (r, w')"
  obtains (failed) e where "askShareAllocation h c w = Some (Inl e, w')" "r = Inl e"
    | (asked) c1 w1 c2 w2 c3 where
      "askShareAllocation h c w = Some (Inr c1, w1)"
      "askListener h c1 w1 = Some (c2, w2)"
      "askAutoUpdate c2 w2 = Some (c3, w')" "r = Inr c3"
proof -
  from assms [unfolded askDaemon_def bindE_Some] show thesis
  proof (elim disjE exE conjE)
    fix e assume "askShareAllocation h c w = Some (Inl e, w')" "r = Inl e"
    then show thesis by (rule failed)
  next
    fix c1 w1
    assume s: "askShareAllocation h c w = Some (Inr c1, w1)"
      and d: "do { (config2, w2) \<leftarrow> askListener h c1 w1;
                   (config3, w3) \<leftarrow> askAutoUpdate config2 w2;
                   Some (Inr config3, w3) } = Some (r, w')"
    from d obtain c2 w2 c3 where
      "askListener h c1 w1 = Some (c2, w2)" "askAutoUpdate c2 w2 = Some (c3, w')" "r = Inr c3"
      by (simp add: bind_eq_Some_conv) blast
    with s show thesis by (rule asked)
  qed
qed

lemma askDaemon_asks:
  assumes "askDaemon h c w = Some (r, w')"
  shows "asks daemonQuestions w w'"
  using assms
proof (cases rule: askDaemon_unfold)
  case (failed e)
  from askShareAllocation_asks [OF failed(1)] show ?thesis
    by (rule asks_mono) (simp add: daemonQuestions_def)
next
  case (asked c1 w1 c2 w2 c3)
  have 1: "asks daemonQuestions w w1"
    using askShareAllocation_asks [OF asked(1)]
    by (rule asks_mono) (simp add: daemonQuestions_def)
  have 2: "asks daemonQuestions w1 w2"
    using askListener_Some(1) [OF asked(2)]
    by (rule asks_mono) (simp add: daemonQuestions_def listenerQuestions_def)
  have 3: "asks daemonQuestions w2 w'"
    using askAutoUpdate_cases [OF asked(3)] by (auto simp: asks_def daemonQuestions_def)
  from asks_trans [OF asks_trans [OF 1 2] 3] show ?thesis .
qed

lemma askDaemon_frame:
  assumes "askDaemon h c w = Some (Inr c', w')"
  shows "Networks c' = Networks c" "StoragePools c' = StoragePools c" "Cluster c' = Cluster c"
    "k \<notin> {''core.https_address'', ''core.trust_password'', ''images.auto_update_interval''}
     \<Longrightarrow> Config c' k = Config c k"
proof -
  from assms obtain c1 w1 c2 w2 where
    s: "askShareAllocation h c w = Some (Inr c1, w1)"
    and l: "askListener h c1 w1 = Some (c2, w2)"
    and u: "askAutoUpdate c2 w2 = Some (c', w')"
    by (cases rule: askDaemon_unfold) auto
  note f1 = askShareAllocation_frame [OF s]
  note f2 = askListener_Some [OF l]
  from askAutoUpdate_cases [OF u] have
    f3: "Networks c' = Networks c2" "StoragePools c' = StoragePools c2" "Cluster c' = Cluster c2"
      "\<And>k. k \<noteq> ''images.auto_update_interval'' \<Longrightarrow> Config c' k = Config c2 k"
    by auto
  show "Networks c' = Networks c" using f1 f2 f3 by simp
  show "StoragePools c' = StoragePools c" using f1 f2 f3 by simp
  show "Cluster c' = Cluster c" using f1 f2 f3 by simp
  assume "k \<notin> {''core.https_address'', ''core.trust_password'', ''images.auto_update_interval''}"
  then show "Config c' k = Config c k"
    using f1(1) f2(6) [of k] f3(4) [of k] by simp
qed

subsection \<open>Networking: what is asked and what is changed\<close>

lemma natRule_frame:
  assumes "natRule valid qaddr qnat kaddr knat xs cfg"
    and "\<forall>e \<in> set ys. fst e \<noteq> qnat" and "\<forall>e \<in> set zs. fst e \<noteq> qnat"
    and "cfg' kaddr = cfg kaddr" and "cfg' knat = cfg knat"
  shows "natRule valid qaddr qnat kaddr knat (ys @ xs @ zs) cfg'"
proof -
  from assms(1) obtain a where
    a: "cfg kaddr = Some a" "(qaddr, AStr a) \<in> set xs"
      "a \<notin> {''auto'', ''none''} \<longrightarrow> valid a"
      "qnat \<in> fst ` set xs \<longleftrightarrow> a \<notin> {''auto'', ''none''}"
      "knat \<in> dom cfg \<longleftrightarrow> a \<notin> {''auto'', ''none''}"
      "\<forall>b. (qnat, ABool b) \<in> set xs \<longrightarrow> cfg knat = Some (fmt_v b)"
    unfolding natRule_def by blast
  have 1: "qnat \<in> fst ` set (ys @ xs @ zs) \<longleftrightarrow> qnat \<in> fst ` set xs"
    using assms(2,3) by (auto simp: image_iff)
  have 2: "(qnat, ABool b) \<in> set (ys @ xs @ zs) \<longleftrightarrow> (qnat, ABool b) \<in> set xs" for b
    using assms(2,3) by auto
  have 3: "knat \<in> dom cfg' \<longleftrightarrow> knat \<in> dom cfg"
    using assms(5) by (simp add: dom_def)
  show ?thesis
    unfolding natRule_def
    apply (rule exI [of _ a])
    apply (simp only: 1 2 3 assms(4,5))
    using a apply simp
    done
qed

lemma askIPv4_natRule:
  assumes "askIPv4 h cfg w = Some (cfg', w')" and "cfg ''ipv4.nat'' = None"
  shows "\<exists>xs. transcript w' = transcript w @ xs
     \<and> (\<forall>e \<in> set xs. fst e \<in> {QIPv4Address, QIPv4Nat})
     \<and> natRule (networkValidAddressCIDRV4 h) QIPv4Address QIPv4Nat ''ipv4.address'' ''ipv4.nat'' xs cfg'
     \<and> (\<forall>k. k \<notin> {''ipv4.address'', ''ipv4.nat''} \<longrightarrow> cfg' k = cfg k)"
proof -
  from assms obtain address w1 where
    a: "AskString QIPv4Address ''auto''
        (Some (\<lambda>value. value \<in> set [''auto'', ''none''] \<or> networkValidAddressCIDRV4 h value)) w
        = Some (address, w1)"
    and b: "(if address \<notin> {''auto'', ''none''} then do {
         (nat, w2) \<leftarrow> AskBool QIPv4Nat True w1;
         Some (cfg(''ipv4.address'' \<mapsto> address, ''ipv4.nat'' \<mapsto> fmt_v nat), w2)
       } else Some (cfg(''ipv4.address'' \<mapsto> address), w1)) = Some (cfg', w')"
    unfolding askIPv4_def by (simp add: bind_eq_Some_conv Let_def mget_def) blast
  note t = AskString_Some [OF a, THEN conjunct1]
  from b show ?thesis
  proof (rule if_eqE)
    assume True: "\<not> address \<notin> {''auto'', ''none''}"
      and "Some (cfg(''ipv4.address'' \<mapsto> address), w1) = Some (cfg', w')"
    then have c: "cfg' = cfg(''ipv4.address'' \<mapsto> address)" "w' = w1" by simp_all
    have "natRule (networkValidAddressCIDRV4 h) QIPv4Address QIPv4Nat ''ipv4.address'' ''ipv4.nat''
        [(QIPv4Address, AStr address)] cfg'"
      unfolding natRule_def using True assms(2) c(1)
      by (intro exI [of _ address]) (simp add: dom_def)
    with t c show ?thesis by simp
  next
    assume False: "address \<notin> {''auto'', ''none''}"
      and "do { (nat, w2) \<leftarrow> AskBool QIPv4Nat True w1;
         Some (cfg(''ipv4.address'' \<mapsto> address, ''ipv4.nat'' \<mapsto> fmt_v nat), w2) }
       = Some (cfg', w')"
    then obtain nat where
      n: "AskBool QIPv4Nat True w1 = Some (nat, w')"
      and c: "cfg' = cfg(''ipv4.address'' \<mapsto> address, ''ipv4.nat'' \<mapsto> fmt_v nat)"
      by (simp add: bind_eq_Some_conv) blast
    from AskBool_Some [OF n] t have
      t': "transcript w' = transcript w @ [(QIPv4Address, AStr address), (QIPv4Nat, ABool nat)]"
      by simp
    from AskString_Some [OF a] False have v: "networkValidAddressCIDRV4 h address"
      by (simp add: accepts_def)
    have "natRule (networkValidAddressCIDRV4 h) QIPv4Address QIPv4Nat ''ipv4.address'' ''ipv4.nat''
        [(QIPv4Address, AStr address), (QIPv4Nat, ABool nat)] cfg'"
      unfolding natRule_def using False c v
      by (intro exI [of _ address]) (simp add: dom_def)
    with t' c show ?thesis by simp
  qed
qed

lemma askIPv6_natRule:
  assumes "askIPv6 h cfg w = Some (cfg', w')" and "cfg ''ipv6.nat'' = None"
  shows "\<exists>xs. transcript w' = transcript w @ xs
     \<and> (\<forall>e \<in> set xs. fst e \<in> {QIPv6Address, QIPv6Nat})
     \<and> natRule (networkValidAddressCIDRV6 h) QIPv6Address QIPv6Nat ''ipv6.address'' ''ipv6.nat'' xs cfg'
     \<and> (\<forall>k. k \<notin> {''ipv6.address'', ''ipv6.nat''} \<longrightarrow> cfg' k = cfg k)"
proof -
  from assms obtain address w1 where
    a: "AskString QIPv6Address ''auto''
        (Some (\<lambda>value. value \<in> set [''auto'', ''none''] \<or> networkValidAddressCIDRV6 h value)) w
        = Some (address, w1)"
    and b: "(if address \<notin> {''auto'', ''none''} then do {
         (nat, w2) \<leftarrow> AskBool QIPv6Nat True w1;
         Some (cfg(''ipv6.address'' \<mapsto> address, ''ipv6.nat'' \<mapsto> fmt_v nat), w2)
       } else Some (cfg(''ipv6.address'' \<mapsto> address), w1)) = Some (cfg', w')"
    unfolding askIPv6_def by (simp add: bind_eq_Some_conv Let_def mget_def) blast
  note t = AskString_Some [OF a, THEN conjunct1]
  from b show ?thesis
  proof (rule if_eqE)
    assume True: "\<not> address \<notin> {''auto'', ''none''}"
      and "Some (cfg(''ipv6.address'' \<mapsto> address), w1) = Some (cfg', w')"
    then have c: "cfg' = cfg(''ipv6.address'' \<mapsto> address)" "w' = w1" by simp_all
    have "natRule (networkValidAddressCIDRV6 h) QIPv6Address QIPv6Nat ''ipv6.address'' ''ipv6.nat''
        [(QIPv6Address, AStr address)] cfg'"
      unfolding natRule_def using True assms(2) c(1)
      by (intro exI [of _ address]) (simp add: dom_def)
    with t c show ?thesis by simp
  next
    assume False: "address \<notin> {''auto'', ''none''}"
      and "do { (nat, w2) \<leftarrow> AskBool QIPv6Nat True w1;
         Some (cfg(''ipv6.address'' \<mapsto> address, ''ipv6.nat'' \<mapsto> fmt_v nat), w2) }
       = Some (cfg', w')"
    then obtain nat where
      n: "AskBool QIPv6Nat True w1 = Some (nat, w')"
      and c: "cfg' = cfg(''ipv6.address'' \<mapsto> address, ''ipv6.nat'' \<mapsto> fmt_v nat)"
      by (simp add: bind_eq_Some_conv) blast
    from AskBool_Some [OF n] t have
      t': "transcript w' = transcript w @ [(QIPv6Address, AStr address), (QIPv6Nat, ABool nat)]"
      by simp
    from AskString_Some [OF a] False have v: "networkValidAddressCIDRV6 h address"
      by (simp add: accepts_def)
    have "natRule (networkValidAddressCIDRV6 h) QIPv6Address QIPv6Nat ''ipv6.address'' ''ipv6.nat''
        [(QIPv6Address, AStr address), (QIPv6Nat, ABool nat)] cfg'"
      unfolding natRule_def using False c v
      by (intro exI [of _ address]) (simp add: dom_def)
    with t' c show ?thesis by simp
  qed
qed

lemma configureBridge_Some:
  assumes "configureBridge h c network w = Some (r, w')"
    and "np_Config network = Map.empty"
  shows "\<exists>cfg xs. r = Inr (c\<lparr>Networks := Networks c @ [network\<lparr>np_Config := cfg\<rparr>]\<rparr>)
     \<and> transcript w' = transcript w @ xs
     \<and> (\<forall>e \<in> set xs. fst e \<in> {QIPv4Address, QIPv4Nat, QIPv6Address, QIPv6Nat})
     \<and> natRule (networkValidAddressCIDRV4 h) QIPv4Address QIPv4Nat ''ipv4.address'' ''ipv4.nat'' xs cfg
     \<and> natRule (networkValidAddressCIDRV6 h) QIPv6Address QIPv6Nat ''ipv6.address'' ''ipv6.nat'' xs cfg"
proof -
  from assms obtain cfg1 w1 cfg2 where
    4: "askIPv4 h Map.empty w = Some (cfg1, w1)"
    and 6: "askIPv6 h cfg1 w1 = Some (cfg2, w')"
    and r: "r = Inr (c\<lparr>Networks := Networks c @ [network\<lparr>np_Config := cfg2\<rparr>]\<rparr>)"
    unfolding configureBridge_def by (simp add: bind_eq_Some_conv) blast
  from askIPv4_natRule [OF 4] obtain xs4 where
    x4: "transcript w1 = transcript w @ xs4"
      "\<forall>e \<in> set xs4. fst e \<in> {QIPv4Address, QIPv4Nat}"
      "natRule (networkValidAddressCIDRV4 h) QIPv4Address QIPv4Nat ''ipv4.address'' ''ipv4.nat'' xs4 cfg1"
      "\<forall>k. k \<notin> {''ipv4.address'', ''ipv4.nat''} \<longrightarrow> cfg1 k = None"
    by auto
  have "cfg1 ''ipv6.nat'' = None" using x4(4) by simp
  from askIPv6_natRule [OF 6 this] obtain xs6 where
    x6: "transcript w' = transcript w1 @ xs6"
      "\<forall>e \<in> set xs6. fst e \<in> {QIPv6Address, QIPv6Nat}"
      "natRule (networkValidAddressCIDRV6 h) QIPv6Address QIPv6Nat ''ipv6.address'' ''ipv6.nat'' xs6 cfg2"
      "\<forall>k. k \<notin> {''ipv6.address'', ''ipv6.nat''} \<longrightarrow> cfg2 k = cfg1 k"
    by auto
  have t: "transcript w' = transcript w @ (xs4 @ xs6)"
    using x4(1) x6(1) by simp
  have q: "\<forall>e \<in> set (xs4 @ xs6). fst e \<in> {QIPv4Address, QIPv4Nat, QIPv6Address, QIPv6Nat}"
    using x4(2) x6(2) by auto
  have n4: "natRule (networkValidAddressCIDRV4 h) QIPv4Address QIPv4Nat ''ipv4.address'' ''ipv4.nat'' ([] @ xs4 @ xs6) cfg2"
    using x4(3)
  proof (rule natRule_frame)
    show "\<forall>e \<in> set []. fst e \<noteq> QIPv4Nat" by simp
    show "\<forall>e \<in> set xs6. fst e \<noteq> QIPv4Nat" using x6(2) by auto
    show "cfg2 ''ipv4.address'' = cfg1 ''ipv4.address''" using x6(4) by simp
    show "cfg2 ''ipv4.nat'' = cfg1 ''ipv4.nat''" using x6(4) by simp
  qed
  have n6: "natRule (networkValidAddressCIDRV6 h) QIPv6Address QIPv6Nat ''ipv6.address'' ''ipv6.nat'' (xs4 @ xs6 @ []) cfg2"
    using x6(3)
  proof (rule natRule_frame)
    show "\<forall>e \<in> set xs4. fst e \<noteq> QIPv6Nat" using x4(2) by auto
    show "\<forall>e \<in> set []. fst e \<noteq> QIPv6Nat" by simp
  qed simp_all
  from r t q n4 n6 show ?thesis
    by (intro exI [of _ cfg2] exI [of _ "xs4 @ xs6"]) simp
qed


lemma bridgeLoop_unfold:
  assumes "bridgeLoop h c w = Some (r, w')"
  obtains name w1 where
    "AskString QBridgeName ''lxdbr0'' (Some (networkValidName h)) w = Some (name, w1)"
    "(if GetNetworkOk h name then bridgeLoop h c w1
      else (case setDevice ''eth0'' [''type'' \<mapsto> ''nic'', ''nictype'' \<mapsto> ''bridged'',
                                     ''name'' \<mapsto> ''eth0'', ''parent'' \<mapsto> name] c of
               Inl e \<Rightarrow> Some (Inl e, w1)
             | Inr config1 \<Rightarrow>
                 configureBridge h config1
                   \<lparr>np_Name = name, np_Type = [], np_Managed = False, np_Config = Map.empty\<rparr> w1))
     = Some (r, w')"
proof -
  let ?m = "AskString QBridgeName ''lxdbr0'' (Some (networkValidName h)) w"
  note u = bridgeLoop.simps [of h c w]
  show thesis
  proof (cases ?m)
    case None
    with assms u show ?thesis by simp
  next
    case (Some x)
    obtain name w1 where x: "x = (name, w1)" by (cases x)
    from assms have "(if GetNetworkOk h name then bridgeLoop h c w1
      else (case setDevice ''eth0'' [''type'' \<mapsto> ''nic'', ''nictype'' \<mapsto> ''bridged'',
                                     ''name'' \<mapsto> ''eth0'', ''parent'' \<mapsto> name] c of
               Inl e \<Rightarrow> Some (Inl e, w1)
             | Inr config1 \<Rightarrow>
                 configureBridge h config1
                   \<lparr>np_Name = name, np_Type = [], np_Managed = False, np_Config = Map.empty\<rparr> w1))
     = Some (r, w')"
      unfolding u Some x by simp
    with Some x that show ?thesis by blast
  qed
qed

lemma setDevice_Inl: "setDevice name dev c = Inl e \<Longrightarrow> e = IndexOutOfRange"
  by (auto simp: setDevice_def split: list.splits)

lemma bridgeLoop_Some:
  assumes "bridgeLoop h c w = Some (r, w')"
  shows "\<exists>xs. transcript w' = transcript w @ xs
     \<and> (\<forall>e \<in> set xs. fst e \<in> networkQuestions)
     \<and> (r = Inl IndexOutOfRange
        \<or> (\<exists>c' network. r = Inr c' \<and> Config c' = Config c
              \<and> StoragePools c' = StoragePools c \<and> Cluster c' = Cluster c
              \<and> Networks c' = Networks c @ [network]
              \<and> \<not> GetNetworkOk h (np_Name network)
              \<and> natRule (networkValidAddressCIDRV4 h) QIPv4Address QIPv4Nat ''ipv4.address'' ''ipv4.nat'' xs
                   (np_Config network)
              \<and> natRule (networkValidAddressCIDRV6 h) QIPv6Address QIPv6Nat ''ipv6.address'' ''ipv6.nat'' xs
                   (np_Config network)))"
  using assms
proof (induction h c w rule: bridgeLoop.induct)
  case (1 h c w)
  from "1.prems" obtain name w1 where
    a: "AskString QBridgeName ''lxdbr0'' (Some (networkValidName h)) w = Some (name, w1)"
    and b: "(if GetNetworkOk h name then bridgeLoop h c w1
      else (case setDevice ''eth0'' [''type'' \<mapsto> ''nic'', ''nictype'' \<mapsto> ''bridged'',
                                     ''name'' \<mapsto> ''eth0'', ''parent'' \<mapsto> name] c of
               Inl e \<Rightarrow> Some (Inl e, w1)
             | Inr config1 \<Rightarrow>
                 configureBridge h config1
                   \<lparr>np_Name = name, np_Type = [], np_Managed = False, np_Config = Map.empty\<rparr> w1))
     = Some (r, w')"
    by (rule bridgeLoop_unfold)
  note t = AskString_Some [OF a, THEN conjunct1]
  let ?e = "(QBridgeName, AStr name)"
  have qe: "fst ?e \<in> networkQuestions" "fst ?e \<noteq> QIPv4Nat" "fst ?e \<noteq> QIPv6Nat"
    by (simp_all add: networkQuestions_def)
  show ?case
  proof (cases "GetNetworkOk h name")
    case True
    with b have l: "bridgeLoop h c w1 = Some (r, w')" by simp
    from "1.IH" [OF a refl True l] obtain xs where
      x: "transcript w' = transcript w1 @ xs" "\<forall>e \<in> set xs. fst e \<in> networkQuestions"
      and d: "r = Inl IndexOutOfRange
        \<or> (\<exists>c' network. r = Inr c' \<and> Config c' = Config c
              \<and> StoragePools c' = StoragePools c \<and> Cluster c' = Cluster c
              \<and> Networks c' = Networks c @ [network]
              \<and> \<not> GetNetworkOk h (np_Name network)
              \<and> natRule (networkValidAddressCIDRV4 h) QIPv4Address QIPv4Nat ''ipv4.address'' ''ipv4.nat'' xs
                   (np_Config network)
              \<and> natRule (networkValidAddressCIDRV6 h) QIPv6Address QIPv6Nat ''ipv6.address'' ''ipv6.nat'' xs
                   (np_Config network))"
      by blast
    have t': "transcript w' = transcript w @ (?e # xs)" using t x(1) by simp
    have q: "\<forall>e \<in> set (?e # xs). fst e \<in> networkQuestions" using x(2) qe(1) by simp
    have f: "natRule valid qa qn ka kn xs cfg \<Longrightarrow> qn \<in> {QIPv4Nat, QIPv6Nat}
        \<Longrightarrow> natRule valid qa qn ka kn (?e # xs) cfg" for valid qa qn ka kn cfg
      using natRule_frame [of valid qa qn ka kn xs cfg "[?e]" "[]" cfg] by auto
    from d have "r = Inl IndexOutOfRange
        \<or> (\<exists>c' network. r = Inr c' \<and> Config c' = Config c
              \<and> StoragePools c' = StoragePools c \<and> Cluster c' = Cluster c
              \<and> Networks c' = Networks c @ [network]
              \<and> \<not> GetNetworkOk h (np_Name network)
              \<and> natRule (networkValidAddressCIDRV4 h) QIPv4Address QIPv4Nat ''ipv4.address'' ''ipv4.nat'' (?e # xs)
                   (np_Config network)
              \<and> natRule (networkValidAddressCIDRV6 h) QIPv6Address QIPv6Nat ''ipv6.address'' ''ipv6.nat'' (?e # xs)
                   (np_Config network))"
    proof (elim disjE exE conjE)
      assume "r = Inl IndexOutOfRange" then show ?thesis by simp
    next
      fix c' network
      assume "r = Inr c'" "Config c' = Config c" "StoragePools c' = StoragePools c"
        "Cluster c' = Cluster c" "Networks c' = Networks c @ [network]"
        "\<not> GetNetworkOk h (np_Name network)"
        "natRule (networkValidAddressCIDRV4 h) QIPv4Address QIPv4Nat ''ipv4.address'' ''ipv4.nat'' xs (np_Config network)"
        "natRule (networkValidAddressCIDRV6 h) QIPv6Address QIPv6Nat ''ipv6.address'' ''ipv6.nat'' xs (np_Config network)"
      then show ?thesis
        by (intro disjI2 exI [of _ c'] exI [of _ network]) (simp add: f)
    qed
    with t' q show ?thesis by blast
  next
    case False
    let ?dev = "[''type'' \<mapsto> ''nic'', ''nictype'' \<mapsto> ''bridged'',
                 ''name'' \<mapsto> ''eth0'', ''parent'' \<mapsto> name]"
    let ?net = "\<lparr>np_Name = name, np_Type = [], np_Managed = False, np_Config = Map.empty\<rparr>"
    show ?thesis
    proof (cases "setDevice ''eth0'' ?dev c")
      case (Inl e)
      with b False have "r = Inl e" "w' = w1" by simp_all
      with setDevice_Inl [OF Inl] t qe(1) show ?thesis by simp
    next
      case (Inr c1)
      with b False have cb: "configureBridge h c1 ?net w1 = Some (r, w')" by simp
      from Inr have fr: "Config c1 = Config c" "StoragePools c1 = StoragePools c"
        "Cluster c1 = Cluster c" "Networks c1 = Networks c"
        by (auto simp: setDevice_Inr)
      from configureBridge_Some [OF cb] obtain cfg xs where
        r: "r = Inr (c1\<lparr>Networks := Networks c1 @ [?net\<lparr>np_Config := cfg\<rparr>]\<rparr>)"
        and x: "transcript w' = transcript w1 @ xs"
          "\<forall>e \<in> set xs. fst e \<in> {QIPv4Address, QIPv4Nat, QIPv6Address, QIPv6Nat}"
          "natRule (networkValidAddressCIDRV4 h) QIPv4Address QIPv4Nat ''ipv4.address'' ''ipv4.nat'' xs cfg"
          "natRule (networkValidAddressCIDRV6 h) QIPv6Address QIPv6Nat ''ipv6.address'' ''ipv6.nat'' xs cfg"
        by auto
      have t': "transcript w' = transcript w @ (?e # xs)" using t x(1) by simp
      have q: "\<forall>e \<in> set (?e # xs). fst e \<in> networkQuestions"
        using x(2) by (auto simp: networkQuestions_def)
      have f: "natRule valid qa qn ka kn xs cfg \<Longrightarrow> qn \<in> {QIPv4Nat, QIPv6Nat}
          \<Longrightarrow> natRule valid qa qn ka kn (?e # xs) cfg" for valid qa qn ka kn
        using natRule_frame [of valid qa qn ka kn xs cfg "[?e]" "[]" cfg] by auto
      have "\<exists>c' network. r = Inr c' \<and> Config c' = Config c
              \<and> StoragePools c' = StoragePools c \<and> Cluster c' = Cluster c
              \<and> Networks c' = Networks c @ [network]
              \<and> \<not> GetNetworkOk h (np_Name network)
              \<and> natRule (networkValidAddressCIDRV4 h) QIPv4Address QIPv4Nat ''ipv4.address'' ''ipv4.nat'' (?e # xs)
                   (np_Config network)
              \<and> natRule (networkValidAddressCIDRV6 h) QIPv6Address QIPv6Nat ''ipv6.address'' ''ipv6.nat'' (?e # xs)
                   (np_Config network)"
        using r fr False x(3,4)
        by (intro exI [of _ "c1\<lparr>Networks := Networks c1 @ [?net\<lparr>np_Config := cfg\<rparr>]\<rparr>"]
            exI [of _ "?net\<lparr>np_Config := cfg\<rparr>"]) (simp add: f)
      with t' q show ?thesis by blast
    qed
  qed
qed

lemma askMaasSubnets_asks:
  "askMaasSubnets c dev w = Some (dev', w') \<Longrightarrow> asks existingQuestions w w'"
  unfolding askMaasSubnets_def asks_def existingQuestions_def
  by (auto simp: bind_eq_Some_conv Let_def elim!: if_eqE dest!: AskBool_Some AskString_Some)

lemma existingInterfaceLoop_unfold:
  assumes "existingInterfaceLoop h c w = Some (r, w')"
  obtains (again) name w1 where
      "AskString QExistingName [] None w = Some (name, w1)"
      "\<not> PathExists h (''/sys/class/net/'' @ name)"
      "existingInterfaceLoop h c w1 = Some (r, w')"
    | (panic) name where
      "AskString QExistingName [] None w = Some (name, w')"
      "r = Inl IndexOutOfRange"
    | (bound) name w1 dev dev2 where
      "AskString QExistingName [] None w = Some (name, w1)"
      "askMaasSubnets c dev w1 = Some (dev2, w')"
      "r = setDevice ''eth0'' dev2 c"
proof -
  let ?m = "AskString QExistingName [] None w"
  note u = existingInterfaceLoop.simps [of h c w]
  show thesis
  proof (cases ?m)
    case None
    with assms u show ?thesis by simp
  next
    case (Some x)
    obtain name w1 where x: "x = (name, w1)" by (cases x)
    note a = Some [unfolded x]
    show ?thesis
    proof (cases "PathExists h (''/sys/class/net/'' @ name)")
      case False
      with assms have "existingInterfaceLoop h c w1 = Some (r, w')"
        unfolding u a by simp
      with a False show ?thesis by (rule again)
    next
      case True
      show ?thesis
      proof (cases "Profiles c")
        case Nil
        with assms True have "r = Inl IndexOutOfRange" "w' = w1"
          unfolding u a by simp_all
        with a show ?thesis by (intro panic) simp_all
      next
        case (Cons p ps)
        let ?dev = "[''type'' \<mapsto> ''nic'', ''nictype'' \<mapsto> ''macvlan'',
                             ''name'' \<mapsto> ''eth0'', ''parent'' \<mapsto> name]"
        let ?dev1 = "if PathExists h (''/sys/class/net/'' @ name @ ''/bridge'')
                     then ?dev(''nictype'' \<mapsto> ''bridged'') else ?dev"
        from assms True Cons have
          "(case askMaasSubnets c ?dev1 w1 of None \<Rightarrow> None
            | Some (dev2, w2) \<Rightarrow> Some (setDevice ''eth0'' dev2 c, w2)) = Some (r, w')"
          unfolding u a by (simp add: Let_def)
        then obtain dev2 where
          "askMaasSubnets c ?dev1 w1 = Some (dev2, w')" "r = setDevice ''eth0'' dev2 c"
          by (auto split: option.splits)
        with a show ?thesis by (rule bound)
      qed
    qed
  qed
qed

lemma existingInterfaceLoop_Some:
  assumes "existingInterfaceLoop h c w = Some (r, w')"
  shows "asks existingQuestions w w'
     \<and> (r = Inl IndexOutOfRange
        \<or> (\<exists>c'. r = Inr c' \<and> Config c' = Config c \<and> StoragePools c' = StoragePools c
              \<and> Cluster c' = Cluster c \<and> Networks c' = Networks c))"
  using assms
proof (induction h c w rule: existingInterfaceLoop.induct)
  case (1 h c w)
  from "1.prems" show ?case
  proof (cases rule: existingInterfaceLoop_unfold)
    case (again name w1)
    have q: "asks existingQuestions w w1"
      using again(1) by (rule AskString_asks) (simp add: existingQuestions_def)
    from "1.IH" [OF again(1) refl again(2) again(3)] have
      i: "asks existingQuestions w1 w'"
      and d: "r = Inl IndexOutOfRange
        \<or> (\<exists>c'. r = Inr c' \<and> Config c' = Config c \<and> StoragePools c' = StoragePools c
              \<and> Cluster c' = Cluster c \<and> Networks c' = Networks c)"
      by blast+
    from asks_trans [OF q i] d show ?thesis by (rule conjI)
  next
    case (panic name)
    have "asks existingQuestions w w'"
      using panic(1) by (rule AskString_asks) (simp add: existingQuestions_def)
    with panic(2) show ?thesis by simp
  next
    case (bound name w1 dev dev2)
    have q: "asks existingQuestions w w1"
      using bound(1) by (rule AskString_asks) (simp add: existingQuestions_def)
    note q' = asks_trans [OF q askMaasSubnets_asks [OF bound(2)]]
    have "r = Inl IndexOutOfRange
        \<or> (\<exists>c'. r = Inr c' \<and> Config c' = Config c \<and> StoragePools c' = StoragePools c
              \<and> Cluster c' = Cluster c \<and> Networks c' = Networks c)"
    proof (cases r)
      case (Inl e)
      with bound(3) setDevice_Inl [of "''eth0''" dev2 c e] show ?thesis by simp
    next
      case (Inr c')
      with bound(3) have "setDevice ''eth0'' dev2 c = Inr c'" by simp
      then have "Config c' = Config c \<and> StoragePools c' = StoragePools c
              \<and> Cluster c' = Cluster c \<and> Networks c' = Networks c"
        by (auto simp: setDevice_Inr)
      with Inr show ?thesis by simp
    qed
    with q' show ?thesis by (rule conjI)
  qed
qed


lemma askNetworking_unfold:
  assumes "askNetworking h c w = Some (r, w')"
  obtains (bridge) w1 where
      "AskBool QNewBridge True w = Some (True, w1)" "bridgeLoop h c w1 = Some (r, w')"
    | (existing) w1 w2 where
      "AskBool QNewBridge True w = Some (False, w1)"
      "AskBool QUseExisting False w1 = Some (True, w2)"
      "existingInterfaceLoop h c w2 = Some (r, w')"
    | (none) w1 where
      "AskBool QNewBridge True w = Some (False, w1)"
      "AskBool QUseExisting False w1 = Some (False, w')" "r = Inr c"
proof -
  from assms obtain b w1 where
    a: "AskBool QNewBridge True w = Some (b, w1)"
    and r: "(if \<not> b then do {
       (existing, w2) \<leftarrow> AskBool QUseExisting False w1;
       if existing then existingInterfaceLoop h c w2 else Some (Inr c, w2)
     } else bridgeLoop h c w1) = Some (r, w')"
    unfolding askNetworking_def by (simp add: bind_eq_Some_conv) blast
  show thesis
  proof (cases b)
    case True
    with a r show ?thesis by (intro bridge) simp_all
  next
    case False
    with r obtain e w2 where
      u: "AskBool QUseExisting False w1 = Some (e, w2)"
      and v: "(if e then existingInterfaceLoop h c w2 else Some (Inr c, w2)) = Some (r, w')"
      by (simp add: bind_eq_Some_conv) blast
    show ?thesis
    proof (cases e)
      case True
      with a False u v show ?thesis by (intro existing) simp_all
    next
      case no: False
      with a False u v show ?thesis by (intro none) simp_all
    qed
  qed
qed

lemma existingQuestions_network: "existingQuestions \<subseteq> networkQuestions"
  by (simp add: existingQuestions_def networkQuestions_def)

lemma askNetworking_asks:
  assumes "askNetworking h c w = Some (r, w')"
  shows "asks networkQuestions w w'"
  using assms
proof (cases rule: askNetworking_unfold)
  case (bridge w1)
  have 1: "asks networkQuestions w w1"
    using bridge(1) by (rule AskBool_asks) (simp add: networkQuestions_def)
  from bridgeLoop_Some [OF bridge(2)] have "asks networkQuestions w1 w'"
    unfolding asks_def by blast
  with 1 show ?thesis by (rule asks_trans)
next
  case (existing w1 w2)
  have 1: "asks networkQuestions w w1"
    using existing(1) by (rule AskBool_asks) (simp add: networkQuestions_def)
  have 2: "asks networkQuestions w1 w2"
    using existing(2) by (rule AskBool_asks) (simp add: networkQuestions_def)
  from existingInterfaceLoop_Some [OF existing(3)] have "asks existingQuestions w2 w'" by simp
  then have 3: "asks networkQuestions w2 w'"
    using existingQuestions_network by (rule asks_mono)
  from asks_trans [OF asks_trans [OF 1 2] 3] show ?thesis .
next
  case (none w1)
  have 1: "asks networkQuestions w w1"
    using none(1) by (rule AskBool_asks) (simp add: networkQuestions_def)
  have 2: "asks networkQuestions w1 w'"
    using none(2) by (rule AskBool_asks) (simp add: networkQuestions_def)
  from 1 2 show ?thesis by (rule asks_trans)
qed

lemma askNetworking_frame:
  assumes "askNetworking h c w = Some (Inr c', w')"
  shows "Config c' = Config c \<and> StoragePools c' = StoragePools c \<and> Cluster c' = Cluster c"
  using assms
proof (cases rule: askNetworking_unfold)
  case (bridge w1)
  from bridgeLoop_Some [OF bridge(2)] show ?thesis by auto
next
  case (existing w1 w2)
  from existingInterfaceLoop_Some [OF existing(3)] show ?thesis by auto
next
  case (none w1)
  then show ?thesis by simp
qed



subsection \<open>Clustering: what is asked and what is changed\<close>

lemma joinLoop_unfold:
  assumes "joinLoop h cluster w = Some (r, w')"
  obtains (retry) entered w1 where
      "AskString QClusterAddress [] None w = Some (entered, w1)"
      "GetRemoteCertificate h (''https://'' @ withPort h entered) = None"
      "joinLoop h (cluster\<lparr>ClusterAddress := withPort h entered\<rparr>) w1 = Some (r, w')"
    | (rejected) entered w1 cert where
      "AskString QClusterAddress [] None w = Some (entered, w1)"
      "GetRemoteCertificate h (''https://'' @ withPort h entered) = Some cert"
      "AskBool QFingerprintOk False w1 = Some (False, w')"
      "r = Inl UserAborted"
    | (accepted) entered w1 cert w2 password where
      "AskString QClusterAddress [] None w = Some (entered, w1)"
      "GetRemoteCertificate h (''https://'' @ withPort h entered) = Some cert"
      "AskBool QFingerprintOk False w1 = Some (True, w2)"
      "AskPasswordOnce QClusterPassword w2 = Some (password, w')"
      "r = Inr (cluster\<lparr>ClusterAddress := withPort h entered,
                         ClusterCertificate := PemEncode h cert,
                         ClusterPassword := password\<rparr>)"
proof -
  let ?m = "AskString QClusterAddress [] None w"
  note u = joinLoop.simps [of h cluster w]
  show thesis
  proof (cases ?m)
    case None
    with assms u show ?thesis by simp
  next
    case (Some x)
    obtain entered w1 where x: "x = (entered, w1)" by (cases x)
    note a = Some [unfolded x]
    let ?addr = "withPort h entered"
    show ?thesis
    proof (cases "GetRemoteCertificate h (''https://'' @ ?addr)")
      case None
      with assms have "joinLoop h (cluster\<lparr>ClusterAddress := ?addr\<rparr>) w1 = Some (r, w')"
        unfolding u a withPort_def by (simp add: Let_def)
      with a None show ?thesis by (rule retry)
    next
      case (Some cert)
      with assms have b: "(case AskBool QFingerprintOk False w1 of
                     None \<Rightarrow> None
                   | Some (ok, w2) \<Rightarrow>
                       if \<not> ok then Some (Inl UserAborted, w2)
                       else
                         (case AskPasswordOnce QClusterPassword w2 of
                            None \<Rightarrow> None
                          | Some (password, w3) \<Rightarrow>
                              Some (Inr (cluster\<lparr>ClusterAddress := ?addr,
                                                  ClusterCertificate := PemEncode h cert,
                                                  ClusterPassword := password\<rparr>), w3)))
          = Some (r, w')"
        unfolding u a withPort_def by (simp add: Let_def)
      show ?thesis
      proof (cases "AskBool QFingerprintOk False w1")
        case None
        with b show ?thesis by simp
      next
        case f: (Some y)
        obtain ok w2 where y: "y = (ok, w2)" by (cases y)
        note f' = f [unfolded y]
        show ?thesis
        proof (cases ok)
          case False
          with b f' have "r = Inl UserAborted" "w2 = w'" by simp_all
          with a Some f' False show ?thesis by (intro rejected) simp_all
        next
          case True
          show ?thesis
          proof (cases "AskPasswordOnce QClusterPassword w2")
            case None
            with b f' True show ?thesis by simp
          next
            case p: (Some z)
            obtain password w3 where z: "z = (password, w3)" by (cases z)
            from b f' True p z have
              "r = Inr (cluster\<lparr>ClusterAddress := ?addr,
                         ClusterCertificate := PemEncode h cert,
                         ClusterPassword := password\<rparr>)" "w3 = w'"
              by simp_all
            with a Some f' True p z show ?thesis by (intro accepted) simp_all
          qed
        qed
      qed
    qed
  qed
qed


lemma withPort_nonempty: "entered \<noteq> [] \<Longrightarrow> withPort h entered \<noteq> []"
  by (simp add: withPort_def)

lemma joinLoop_Some:
  assumes "joinLoop h cluster w = Some (r, w')"
  shows "\<exists>failed entered cert ok password.
      (\<forall>a \<in> set failed. a \<noteq> []
          \<and> GetRemoteCertificate h (''https://'' @ withPort h a) = None)
      \<and> entered \<noteq> []
      \<and> GetRemoteCertificate h (''https://'' @ withPort h entered) = Some cert
      \<and> transcript w' = transcript w @ map (\<lambda>a. (QClusterAddress, AStr a)) failed
            @ [(QClusterAddress, AStr entered), (QFingerprintOk, ABool ok)]
            @ (if ok then [(QClusterPassword, AStr password)] else [])
      \<and> r = (if ok then Inr (cluster\<lparr>ClusterAddress := withPort h entered,
                                      ClusterCertificate := PemEncode h cert,
                                      ClusterPassword := password\<rparr>)
              else Inl UserAborted)"
  using assms
proof (induction "length (pending w)" arbitrary: cluster w rule: less_induct)
  case less
  from less.prems show ?case
  proof (cases rule: joinLoop_unfold)
    case (retry entered w1)
    note a = AskString_Some [OF retry(1)]
    from a have ne: "entered \<noteq> []" by (simp add: accepts_def)
    have "\<exists>failed entered' cert ok password.
      (\<forall>a \<in> set failed. a \<noteq> []
          \<and> GetRemoteCertificate h (''https://'' @ withPort h a) = None)
      \<and> entered' \<noteq> []
      \<and> GetRemoteCertificate h (''https://'' @ withPort h entered') = Some cert
      \<and> transcript w' = transcript w1 @ map (\<lambda>a. (QClusterAddress, AStr a)) failed
            @ [(QClusterAddress, AStr entered'), (QFingerprintOk, ABool ok)]
            @ (if ok then [(QClusterPassword, AStr password)] else [])
      \<and> r = (if ok then Inr (cluster\<lparr>ClusterAddress := withPort h entered,
                                      ClusterAddress := withPort h entered',
                                      ClusterCertificate := PemEncode h cert,
                                      ClusterPassword := password\<rparr>)
              else Inl UserAborted)"
      by (rule less.hyps [OF AskString_shorter [OF retry(1)] retry(3)])
    then obtain failed entered' cert ok password where
      f: "\<forall>a \<in> set failed. a \<noteq> []
          \<and> GetRemoteCertificate h (''https://'' @ withPort h a) = None"
      and e: "entered' \<noteq> []"
        "GetRemoteCertificate h (''https://'' @ withPort h entered') = Some cert"
      and t: "transcript w' = transcript w1 @ map (\<lambda>a. (QClusterAddress, AStr a)) failed
            @ [(QClusterAddress, AStr entered'), (QFingerprintOk, ABool ok)]
            @ (if ok then [(QClusterPassword, AStr password)] else [])"
      and r: "r = (if ok then Inr (cluster\<lparr>ClusterAddress := withPort h entered',
                                      ClusterCertificate := PemEncode h cert,
                                      ClusterPassword := password\<rparr>)
              else Inl UserAborted)"
      by auto
    have f': "\<forall>a \<in> set (entered # failed). a \<noteq> []
          \<and> GetRemoteCertificate h (''https://'' @ withPort h a) = None"
      using f ne retry(2) by simp
    have t': "transcript w' = transcript w @ map (\<lambda>a. (QClusterAddress, AStr a)) (entered # failed)
            @ [(QClusterAddress, AStr entered'), (QFingerprintOk, ABool ok)]
            @ (if ok then [(QClusterPassword, AStr password)] else [])"
      using t a by simp
    from f' e t' r show ?thesis by blast
  next
    case (rejected entered w1 cert)
    note a = AskString_Some [OF rejected(1)]
    note b = AskBool_Some [OF rejected(3)]
    from a have ne: "entered \<noteq> []" by (simp add: accepts_def)
    from ne rejected a b show ?thesis
      by (intro exI [of _ "[]"] exI [of _ entered] exI [of _ cert]
          exI [of _ False]) simp
  next
    case (accepted entered w1 cert w2 password)
    note a = AskString_Some [OF accepted(1)]
    note b = AskBool_Some [OF accepted(3)]
    note c = AskString_Some [OF accepted(4) [unfolded AskPasswordOnce_def]]
    from a have ne: "entered \<noteq> []" by (simp add: accepts_def)
    from ne accepted(2,5) a b c show ?thesis
      by (intro exI [of _ "[]"] exI [of _ entered] exI [of _ cert]
          exI [of _ True] exI [of _ password]) simp
  qed
qed

lemma joinStoragePools_Some:
  assumes "joinStoragePools targetPools pools w = Some (out, w')"
  shows "\<exists>new. out = pools @ new
     \<and> transcript w' = transcript w @ sourceAnswers (filter keptPool targetPools) new
     \<and> list_all2 inherited (filter keptPool targetPools) new"
  using assms
proof (induction targetPools arbitrary: pools w)
  case Nil
  then show ?case by (simp add: sourceAnswers_def)
next
  case (Cons pool targetPools)
  show ?case
  proof (cases "keptPool pool")
    case False
    then have d: "pool_Status pool = ''PENDING'' \<or> pool_Driver pool = ''ceph''"
      by (simp add: keptPool_def)
    with Cons.prems have "joinStoragePools targetPools pools w = Some (out, w')"
      by (cases "pool_Status pool = ''PENDING''") simp_all
    from Cons.IH [OF this] False show ?thesis by simp
  next
    case True
    let ?newPool = "\<lparr>sp_Name = pool_Name pool, sp_Driver = pool_Driver pool,
                        sp_Config = pool_Config pool\<rparr>"
    show ?thesis
    proof (cases "asksSource pool")
      case False
      with True Cons.prems have
        "joinStoragePools targetPools (pools @ [?newPool]) w = Some (out, w')"
        by (simp add: keptPool_def asksSource_def Let_def)
      from Cons.IH [OF this] obtain new where
        n: "out = (pools @ [?newPool]) @ new"
          "transcript w' = transcript w @ sourceAnswers (filter keptPool targetPools) new"
          "list_all2 inherited (filter keptPool targetPools) new"
        by blast
      have i: "inherited pool ?newPool" using False by (simp add: inherited_def)
      from n i True False show ?thesis
        by (intro exI [of _ "?newPool # new"]) (simp add: sourceAnswers_def)
    next
      case ask: True
      with True Cons.prems obtain source w1 where
        a: "AskString (QPoolSource (pool_Name pool)) [] (Some (\<lambda>s. True)) w = Some (source, w1)"
        and r: "joinStoragePools targetPools
            (pools @ [?newPool\<lparr>sp_Config := (pool_Config pool)(''source'' \<mapsto> source)\<rparr>]) w1
          = Some (out, w')"
        by (simp add: keptPool_def asksSource_def Let_def split: option.splits prod.splits)
      let ?np = "?newPool\<lparr>sp_Config := (pool_Config pool)(''source'' \<mapsto> source)\<rparr>"
      note t = AskString_Some [OF a, THEN conjunct1]
      from Cons.IH [OF r] obtain new where
        n: "out = (pools @ [?np]) @ new"
          "transcript w' = transcript w1 @ sourceAnswers (filter keptPool targetPools) new"
          "list_all2 inherited (filter keptPool targetPools) new"
        by blast
      have i: "inherited pool ?np" using ask by (simp add: inherited_def mget_def)
      have m: "mget (sp_Config ?np) ''source'' = source" by (simp add: mget_def)
      from n i t True ask m show ?thesis
        by (intro exI [of _ "?np # new"]) (simp add: sourceAnswers_def)
    qed
  qed
qed

lemma joinCluster_unfold:
  assumes "joinCluster h config cluster w = Some (r, w')"
  obtains (loopFailed) e where "joinLoop h cluster w = Some (Inl e, w')" "r = Inl e"
    | (kept) cluster1 w1 where
      "joinLoop h cluster w = Some (Inr cluster1, w1)"
      "AskBool QWipeData False w1 = Some (False, w')" "r = Inl UserAborted"
    | (connectFailed) cluster1 w1 where
      "joinLoop h cluster w = Some (Inr cluster1, w1)"
      "AskBool QWipeData False w1 = Some (True, w')"
      "r \<in> {Inl LoadCertFailed, Inl SetupTrustFailed, Inl ConnectFailed,
             Inl GetStoragePoolsFailed}"
    | (networksFailed) cluster1 w1 w2 publicKey privateKey client targetPools pools where
      "joinLoop h cluster w = Some (Inr cluster1, w1)"
      "AskBool QWipeData False w1 = Some (True, w2)"
      "LoadCert h = Some (publicKey, privateKey)"
      "ConnectLXD h (''https://'' @ ClusterAddress cluster1)
         \<lparr>TLSClientCert = publicKey, TLSClientKey = privateKey,
          TLSServerCert = ClusterCertificate cluster1\<rparr> = Some client"
      "GetStoragePools client = Some targetPools"
      "joinStoragePools targetPools [] w2 = Some (pools, w')"
      "GetNetworks client = None" "r = Inl GetNetworksFailed"
    | (joined) cluster1 w1 w2 publicKey privateKey client targetPools pools w3
        targetNetworks networks where
      "joinLoop h cluster w = Some (Inr cluster1, w1)"
      "AskBool QWipeData False w1 = Some (True, w2)"
      "LoadCert h = Some (publicKey, privateKey)"
      "\<not> SetupTrustFails h publicKey (ClusterAddress cluster1)
           (ClusterCertificate cluster1) (ClusterPassword cluster1)"
      "ConnectLXD h (''https://'' @ ClusterAddress cluster1)
         \<lparr>TLSClientCert = publicKey, TLSClientKey = privateKey,
          TLSServerCert = ClusterCertificate cluster1\<rparr> = Some client"
      "GetStoragePools client = Some targetPools"
      "joinStoragePools targetPools [] w2 = Some (pools, w3)"
      "GetNetworks client = Some targetNetworks"
      "joinNetworks targetNetworks [] w3 = Some (networks, w')"
      "r = Inr (config\<lparr>Cluster := Some cluster1, StoragePools := pools,
                        Networks := networks\<rparr>)"
proof -
  from assms [unfolded joinCluster_def bindE_Some] show thesis
  proof (elim disjE exE conjE)
    fix e assume "joinLoop h cluster w = Some (Inl e, w')" "r = Inl e"
    then show thesis by (rule loopFailed)
  next
    fix cluster1 w1
    assume l: "joinLoop h cluster w = Some (Inr cluster1, w1)"
      and d: "do {
       (wipe, w2) \<leftarrow> AskBool QWipeData False w1;
       if \<not> wipe then Some (Inl UserAborted, w2)
       else
         (case LoadCert h of
            None \<Rightarrow> Some (Inl LoadCertFailed, w2)
          | Some (publicKey, privateKey) \<Rightarrow>
              if SetupTrustFails h publicKey (ClusterAddress cluster1)
                   (ClusterCertificate cluster1) (ClusterPassword cluster1)
              then Some (Inl SetupTrustFailed, w2)
              else
                (case ConnectLXD h (''https://'' @ ClusterAddress cluster1)
                        \<lparr>TLSClientCert = publicKey, TLSClientKey = privateKey,
                         TLSServerCert = ClusterCertificate cluster1\<rparr> of
                   None \<Rightarrow> Some (Inl ConnectFailed, w2)
                 | Some client \<Rightarrow>
                     (case GetStoragePools client of
                        None \<Rightarrow> Some (Inl GetStoragePoolsFailed, w2)
                      | Some targetPools \<Rightarrow> do {
                          (pools, w3) \<leftarrow> joinStoragePools targetPools [] w2;
                          case GetNetworks client of
                            None \<Rightarrow> Some (Inl GetNetworksFailed, w3)
                          | Some targetNetworks \<Rightarrow> do {
                              (networks, w4) \<leftarrow> joinNetworks targetNetworks [] w3;
                              Some (Inr (config\<lparr>Cluster := Some cluster1,
                                                StoragePools := pools,
                                                Networks := networks\<rparr>), w4)
                            }
                        })))
     } = Some (r, w')"
    from d obtain wipe w2 where
      a: "AskBool QWipeData False w1 = Some (wipe, w2)"
      and d1: "(if \<not> wipe then Some (Inl UserAborted, w2)
       else
         (case LoadCert h of
            None \<Rightarrow> Some (Inl LoadCertFailed, w2)
          | Some (publicKey, privateKey) \<Rightarrow>
              if SetupTrustFails h publicKey (ClusterAddress cluster1)
                   (ClusterCertificate cluster1) (ClusterPassword cluster1)
              then Some (Inl SetupTrustFailed, w2)
              else
                (case ConnectLXD h (''https://'' @ ClusterAddress cluster1)
                        \<lparr>TLSClientCert = publicKey, TLSClientKey = privateKey,
                         TLSServerCert = ClusterCertificate cluster1\<rparr> of
                   None \<Rightarrow> Some (Inl ConnectFailed, w2)
                 | Some client \<Rightarrow>
                     (case GetStoragePools client of
                        None \<Rightarrow> Some (Inl GetStoragePoolsFailed, w2)
                      | Some targetPools \<Rightarrow> do {
                          (pools, w3) \<leftarrow> joinStoragePools targetPools [] w2;
                          case GetNetworks client of
                            None \<Rightarrow> Some (Inl GetNetworksFailed, w3)
                          | Some targetNetworks \<Rightarrow> do {
                              (networks, w4) \<leftarrow> joinNetworks targetNetworks [] w3;
                              Some (Inr (config\<lparr>Cluster := Some cluster1,
                                                StoragePools := pools,
                                                Networks := networks\<rparr>), w4)
                            }
                        })))) = Some (r, w')"
      by (simp add: bind_eq_Some_conv) blast
    show thesis
    proof (cases wipe)
      case False
      with d1 a l show ?thesis by (intro kept) simp_all
    next
      case True
      note wipe = True
      show ?thesis
      proof (cases "LoadCert h")
        case None
        with d1 wipe a l show ?thesis by (intro connectFailed) simp_all
      next
        case (Some keys)
        obtain publicKey privateKey where keys: "keys = (publicKey, privateKey)"
          by (cases keys)
        note lc = Some [unfolded keys]
        show ?thesis
        proof (cases "SetupTrustFails h publicKey (ClusterAddress cluster1)
                   (ClusterCertificate cluster1) (ClusterPassword cluster1)")
          case True
          with d1 wipe a l lc show ?thesis by (intro connectFailed) simp_all
        next
          case False
          note trust = False
          show ?thesis
          proof (cases "ConnectLXD h (''https://'' @ ClusterAddress cluster1)
                        \<lparr>TLSClientCert = publicKey, TLSClientKey = privateKey,
                         TLSServerCert = ClusterCertificate cluster1\<rparr>")
            case None
            with d1 wipe a l lc trust show ?thesis by (intro connectFailed) simp_all
          next
            case (Some client)
            note conn = Some
            show ?thesis
            proof (cases "GetStoragePools client")
              case None
              with d1 wipe a l lc trust conn show ?thesis
                by (intro connectFailed) simp_all
            next
              case (Some targetPools)
              note gp = Some
              from d1 wipe lc trust conn gp obtain pools w3 where
                jp: "joinStoragePools targetPools [] w2 = Some (pools, w3)"
                and d2: "(case GetNetworks client of
                            None \<Rightarrow> Some (Inl GetNetworksFailed, w3)
                          | Some targetNetworks \<Rightarrow> do {
                              (networks, w4) \<leftarrow> joinNetworks targetNetworks [] w3;
                              Some (Inr (config\<lparr>Cluster := Some cluster1,
                                                StoragePools := pools,
                                                Networks := networks\<rparr>), w4)
                            }) = Some (r, w')"
                by (simp add: bind_eq_Some_conv) blast
              show ?thesis
              proof (cases "GetNetworks client")
                case None
                with d2 have "r = Inl GetNetworksFailed" "w3 = w'" by simp_all
                with l a wipe lc conn gp jp None show ?thesis
                  by (intro networksFailed) simp_all
              next
                case (Some targetNetworks)
                with d2 obtain networks where
                  "joinNetworks targetNetworks [] w3 = Some (networks, w')"
                  "r = Inr (config\<lparr>Cluster := Some cluster1, StoragePools := pools,
                        Networks := networks\<rparr>)"
                  by (simp add: bind_eq_Some_conv) blast
                with l a wipe lc trust conn gp jp Some show ?thesis
                  by (intro joined) simp_all
              qed
            qed
          qed
        qed
      qed
    qed
  qed
qed

lemma askClustering_unfold:
  assumes "askClustering h config w = Some (r, w')"
  obtains (declined) "AskBool QUseClustering False w = Some (False, w')" "r = Inr config"
    | (bootstrap) name entered w1 w2 w3 w4 where
      "AskBool QUseClustering False w = Some (True, w1)"
      "AskString QServerName (serverName h) None w1 = Some (name, w2)"
      "AskString QServerAddress (NetworkInterfaceAddress h) None w2 = Some (entered, w3)"
      "AskBool QJoinExisting False w3 = Some (False, w4)"
      "AskBool QSetupPassword True w4 = Some (False, w')"
      "r = Inr (setConfig ''core.https_address'' (CanonicalNetworkAddress h entered)
               (config\<lparr>Cluster := Some \<lparr>Enabled = True, ServerName = name,
                   ClusterAddress = [], ClusterCertificate = [], ClusterPassword = []\<rparr>\<rparr>))"
    | (protected) name entered w1 w2 w3 w4 w5 password where
      "AskBool QUseClustering False w = Some (True, w1)"
      "AskString QServerName (serverName h) None w1 = Some (name, w2)"
      "AskString QServerAddress (NetworkInterfaceAddress h) None w2 = Some (entered, w3)"
      "AskBool QJoinExisting False w3 = Some (False, w4)"
      "AskBool QSetupPassword True w4 = Some (True, w5)"
      "AskPassword QTrustPassword w5 = Some (password, w')"
      "r = Inr (setConfig ''core.trust_password'' password
             (setConfig ''core.https_address'' (CanonicalNetworkAddress h entered)
               (config\<lparr>Cluster := Some \<lparr>Enabled = True, ServerName = name,
                   ClusterAddress = [], ClusterCertificate = [], ClusterPassword = []\<rparr>\<rparr>)))"
    | (join) name entered w1 w2 w3 w4 where
      "AskBool QUseClustering False w = Some (True, w1)"
      "AskString QServerName (serverName h) None w1 = Some (name, w2)"
      "AskString QServerAddress (NetworkInterfaceAddress h) None w2 = Some (entered, w3)"
      "AskBool QJoinExisting False w3 = Some (True, w4)"
      "joinCluster h
         (setConfig ''core.https_address'' (CanonicalNetworkAddress h entered)
            (config\<lparr>Cluster := Some \<lparr>Enabled = True, ServerName = name,
                ClusterAddress = [], ClusterCertificate = [], ClusterPassword = []\<rparr>\<rparr>))
         \<lparr>Enabled = True, ServerName = name,
          ClusterAddress = [], ClusterCertificate = [], ClusterPassword = []\<rparr> w4
       = Some (r, w')"
proof -
  let ?cl = "\<lambda>name. \<lparr>Enabled = True, ServerName = name,
          ClusterAddress = [], ClusterCertificate = [], ClusterPassword = []\<rparr>"
  let ?c1 = "\<lambda>name entered. setConfig ''core.https_address'' (CanonicalNetworkAddress h entered)
            (config\<lparr>Cluster := Some (?cl name)\<rparr>)"
  from assms obtain clustering w1 where
    a: "AskBool QUseClustering False w = Some (clustering, w1)"
    and d: "(if \<not> clustering then Some (Inr config, w1)
     else do {
       (name, w2) \<leftarrow> AskString QServerName (serverName h) None w1;
       let cluster = \<lparr>Enabled = True, ServerName = name, ClusterAddress = [],
                      ClusterCertificate = [], ClusterPassword = []\<rparr>;
       let address = NetworkInterfaceAddress h;
       (entered, w3) \<leftarrow> AskString QServerAddress address None w2;
       let serverAddress = CanonicalNetworkAddress h entered;
       let config1 = setConfig ''core.https_address'' serverAddress
                       (config\<lparr>Cluster := Some cluster\<rparr>);
       (join, w4) \<leftarrow> AskBool QJoinExisting False w3;
       if join then joinCluster h config1 cluster w4
       else do {
         (protect, w5) \<leftarrow> AskBool QSetupPassword True w4;
         if protect then do {
           (password, w6) \<leftarrow> AskPassword QTrustPassword w5;
           Some (Inr (setConfig ''core.trust_password'' password config1), w6)
         } else Some (Inr config1, w5)
       }
     }) = Some (r, w')"
    unfolding askClustering_def by (simp add: bind_eq_Some_conv) blast
  show thesis
  proof (cases clustering)
    case False
    with a d show ?thesis by (intro declined) simp_all
  next
    case True
    with d obtain name w2 entered w3 joining w4 where
      n: "AskString QServerName (serverName h) None w1 = Some (name, w2)"
      and e: "AskString QServerAddress (NetworkInterfaceAddress h) None w2 = Some (entered, w3)"
      and j: "AskBool QJoinExisting False w3 = Some (joining, w4)"
      and d1: "(if joining then joinCluster h (?c1 name entered) (?cl name) w4
       else do {
         (protect, w5) \<leftarrow> AskBool QSetupPassword True w4;
         if protect then do {
           (password, w6) \<leftarrow> AskPassword QTrustPassword w5;
           Some (Inr (setConfig ''core.trust_password'' password (?c1 name entered)), w6)
         } else Some (Inr (?c1 name entered), w5)
       }) = Some (r, w')"
      by (simp add: bind_eq_Some_conv Let_def) blast
    show ?thesis
    proof (cases joining)
      case True
      with d1 have "joinCluster h (?c1 name entered) (?cl name) w4 = Some (r, w')" by simp
      with a \<open>clustering\<close> n e j True show ?thesis by (intro join) simp_all
    next
      case False
      with d1 obtain protect w5 where
        s: "AskBool QSetupPassword True w4 = Some (protect, w5)"
        and d2: "(if protect then do {
           (password, w6) \<leftarrow> AskPassword QTrustPassword w5;
           Some (Inr (setConfig ''core.trust_password'' password (?c1 name entered)), w6)
         } else Some (Inr (?c1 name entered), w5)) = Some (r, w')"
        by (simp add: bind_eq_Some_conv) blast
      show ?thesis
      proof (cases protect)
        case True
        with d2 obtain password where
          "AskPassword QTrustPassword w5 = Some (password, w')"
          "r = Inr (setConfig ''core.trust_password'' password (?c1 name entered))"
          by (simp add: bind_eq_Some_conv) blast
        with a \<open>clustering\<close> n e j False s True show ?thesis
          by (intro protected) simp_all
      next
        case no: False
        with d2 have "r = Inr (?c1 name entered)" "w5 = w'" by simp_all
        with a \<open>clustering\<close> n e j False s no show ?thesis
          by (intro bootstrap) simp_all
      qed
    qed
  qed
qed

lemma askOthers_unfold:
  assumes "askOthers h c w = Some (r, w')"
  obtains (storageFailed) e where "askStorage h c w = Some (Inl e, w')" "r = Inl e"
    | (maasFailed) c1 w1 e where
      "askStorage h c w = Some (Inr c1, w1)" "askMAAS h c1 w1 = Some (Inl e, w')" "r = Inl e"
    | (networkingFailed) c1 w1 c2 w2 e where
      "askStorage h c w = Some (Inr c1, w1)" "askMAAS h c1 w1 = Some (Inr c2, w2)"
      "askNetworking h c2 w2 = Some (Inl e, w')" "r = Inl e"
    | (daemon) c1 w1 c2 w2 c3 w3 where
      "askStorage h c w = Some (Inr c1, w1)" "askMAAS h c1 w1 = Some (Inr c2, w2)"
      "askNetworking h c2 w2 = Some (Inr c3, w3)" "askDaemon h c3 w3 = Some (r, w')"
proof -
  from assms [unfolded askOthers_def] show thesis
  proof (subst (asm) bindE_Some, elim disjE exE conjE)
    fix e assume "askStorage h c w = Some (Inl e, w')" "r = Inl e"
    then show thesis by (rule storageFailed)
  next
    fix c1 w1
    assume s: "askStorage h c w = Some (Inr c1, w1)"
      and m: "bindE (askMAAS h c1 w1) (\<lambda>config2 w2.
           bindE (askNetworking h config2 w2) (\<lambda>config3 w3.
           askDaemon h config3 w3)) = Some (r, w')"
    from m show thesis
    proof (subst (asm) bindE_Some, elim disjE exE conjE)
      fix e assume "askMAAS h c1 w1 = Some (Inl e, w')" "r = Inl e"
      with s show thesis by (rule maasFailed)
    next
      fix c2 w2
      assume m2: "askMAAS h c1 w1 = Some (Inr c2, w2)"
        and n: "bindE (askNetworking h c2 w2) (\<lambda>config3 w3.
           askDaemon h config3 w3) = Some (r, w')"
      from n show thesis
      proof (subst (asm) bindE_Some, elim disjE exE conjE)
        fix e assume "askNetworking h c2 w2 = Some (Inl e, w')" "r = Inl e"
        with s m2 show thesis by (rule networkingFailed)
      next
        fix c3 w3
        assume "askNetworking h c2 w2 = Some (Inr c3, w3)" "askDaemon h c3 w3 = Some (r, w')"
        with s m2 show thesis by (rule daemon)
      qed
    qed
  qed
qed

lemma RunInteractive_unfold:
  assumes "RunInteractive h w0 = Some (r, w')"
  obtains (clusteringFailed) e where
      "askClustering h emptyConfig w0 = Some (Inl e, w')" "r = Inl e"
    | (othersFailed) c w1 e where
      "askClustering h emptyConfig w0 = Some (Inr c, w1)"
      "case Cluster c of None \<Rightarrow> True | Some cluster \<Rightarrow> ClusterAddress cluster = []"
      "askOthers h c w1 = Some (Inl e, w')" "r = Inl e"
    | (configured) c w1 c1 w2 yaml where
      "askClustering h emptyConfig w0 = Some (Inr c, w1)"
      "case Cluster c of None \<Rightarrow> True | Some cluster \<Rightarrow> ClusterAddress cluster = []"
      "askOthers h c w1 = Some (Inr c1, w2)"
      "AskBool QPrintYaml False w2 = Some (yaml, w')"
      "r = (if yaml \<and> YamlMarshalFails h c1 then Inl RenderFailed else Inr c1)"
    | (joined) c w1 yaml where
      "askClustering h emptyConfig w0 = Some (Inr c, w1)"
      "\<not> (case Cluster c of None \<Rightarrow> True | Some cluster \<Rightarrow> ClusterAddress cluster = [])"
      "AskBool QPrintYaml False w1 = Some (yaml, w')"
      "r = (if yaml \<and> YamlMarshalFails h c then Inl RenderFailed else Inr c)"
proof -
  let ?standalone = "\<lambda>c. case Cluster c of None \<Rightarrow> True
                         | Some cluster \<Rightarrow> ClusterAddress cluster = []"
  from assms [unfolded RunInteractive_def bindE_Some] show thesis
  proof (elim disjE exE conjE)
    fix e assume "askClustering h emptyConfig w0 = Some (Inl e, w')" "r = Inl e"
    then show thesis by (rule clusteringFailed)
  next
    fix c w1 e
    assume c: "askClustering h emptyConfig w0 = Some (Inr c, w1)"
      and o: "(if ?standalone c then askOthers h c w1 else Some (Inr c, w1)) = Some (Inl e, w')"
      and r: "r = Inl e"
    from o show thesis
    proof (rule if_eqE)
      assume "?standalone c" "askOthers h c w1 = Some (Inl e, w')"
      with c r show thesis by (intro othersFailed)
    next
      assume "Some (Inr c, w1) = Some (Inl e, w')"
      then show thesis by simp
    qed
  next
    fix c w1 c1 w2
    assume c: "askClustering h emptyConfig w0 = Some (Inr c, w1)"
      and o: "(if ?standalone c then askOthers h c w1 else Some (Inr c, w1)) = Some (Inr c1, w2)"
      and y: "do {
       (yaml, w3) \<leftarrow> AskBool QPrintYaml False w2;
       if yaml \<and> YamlMarshalFails h c1 then Some (Inl RenderFailed, w3)
       else Some (Inr c1, w3)
     } = Some (r, w')"
    from y obtain yaml w3 where
      y0: "AskBool QPrintYaml False w2 = Some (yaml, w3)"
      and y': "(if yaml \<and> YamlMarshalFails h c1 then Some (Inl RenderFailed, w3)
          else Some (Inr c1, w3)) = Some (r, w')"
      by (simp add: bind_eq_Some_conv) blast
    have "w3 = w' \<and> r = (if yaml \<and> YamlMarshalFails h c1 then Inl RenderFailed else Inr c1)"
      using y' by (cases "yaml \<and> YamlMarshalFails h c1") auto
    then have "w3 = w'"
      and y2: "r = (if yaml \<and> YamlMarshalFails h c1 then Inl RenderFailed else Inr c1)"
      by simp_all
    with y0 have y1: "AskBool QPrintYaml False w2 = Some (yaml, w')" by simp
    from o show thesis
    proof (rule if_eqE)
      assume "?standalone c" "askOthers h c w1 = Some (Inr c1, w2)"
      with c y1 y2 show thesis by (intro configured [where ?c1.0 = c1])
    next
      assume n: "\<not> ?standalone c" and "Some (Inr c, w1) = Some (Inr c1, w2)"
      then have eq: "c1 = c" "w2 = w1" by simp_all
      from c n y1 [unfolded eq] y2 [unfolded eq] show thesis by (rule joined)
    qed
  qed
qed

lemma sourceAnswers_asks:
  "\<forall>e \<in> set (sourceAnswers kept new). fst e \<in> range QPoolSource"
  by (auto simp: sourceAnswers_def split: if_splits)

lemma joinStoragePools_asks:
  assumes "joinStoragePools targetPools pools w = Some (out, w')"
  shows "asks (range QPoolSource) w w'"
  using joinStoragePools_Some [OF assms] sourceAnswers_asks unfolding asks_def by blast

lemma joinNetworks_asks:
  "joinNetworks targetNetworks networks w = Some (out, w')
   \<Longrightarrow> asks (range QNetworkInterface) w w'"
proof (induction targetNetworks arbitrary: networks w)
  case Nil
  then show ?case by simp
next
  case (Cons network targetNetworks)
  show ?case
  proof (cases "\<not> net_Managed network \<or> net_Status network = ''PENDING''")
    case True
    with Cons.prems have "joinNetworks targetNetworks networks w = Some (out, w')" by simp
    then show ?thesis by (rule Cons.IH)
  next
    case False
    note kept = False
    show ?thesis
    proof (cases "mget (net_Config network) ''bridge.external_interfaces'' \<noteq> []")
      case False
      with kept Cons.prems obtain networks' where
        "joinNetworks targetNetworks networks' w = Some (out, w')"
        by (simp add: Let_def)
      then show ?thesis by (rule Cons.IH)
    next
      case True
      with kept Cons.prems obtain iface w1 networks' where
        a: "AskString (QNetworkInterface (net_Name network)) [] (Some (\<lambda>s. True)) w
              = Some (iface, w1)"
        and b: "joinNetworks targetNetworks networks' w1 = Some (out, w')"
        by (simp add: Let_def split: option.splits prod.splits)
      have "asks (range QNetworkInterface) w w1"
        using a by (rule AskString_asks) simp
      then show ?thesis using Cons.IH [OF b] by (rule asks_trans)
    qed
  qed
qed

lemma askOthers_asks:
  assumes "askOthers h c w = Some (r, w')"
  shows "asks otherQuestions w w'"
proof -
  have s: "\<And>c w r w'. askStorage h c w = Some (r, w') \<Longrightarrow> asks otherQuestions w w'"
    by (drule askStorage_asks, erule asks_mono) (auto simp: otherQuestions_def)
  have m: "\<And>c w r w'. askMAAS h c w = Some (r, w') \<Longrightarrow> asks otherQuestions w w'"
    by (drule askMAAS_asks, erule asks_mono) (auto simp: otherQuestions_def)
  have n: "\<And>c w r w'. askNetworking h c w = Some (r, w') \<Longrightarrow> asks otherQuestions w w'"
    by (drule askNetworking_asks, erule asks_mono) (auto simp: otherQuestions_def)
  have d: "\<And>c w r w'. askDaemon h c w = Some (r, w') \<Longrightarrow> asks otherQuestions w w'"
    by (drule askDaemon_asks, erule asks_mono) (auto simp: otherQuestions_def)
  from assms show ?thesis
  proof (cases rule: askOthers_unfold)
    case (storageFailed e)
    then show ?thesis by (intro s)
  next
    case (maasFailed c1 w1 e)
    from s [OF maasFailed(1)] m [OF maasFailed(2)] show ?thesis by (rule asks_trans)
  next
    case (networkingFailed c1 w1 c2 w2 e)
    from asks_trans [OF s [OF networkingFailed(1)] m [OF networkingFailed(2)]]
      n [OF networkingFailed(3)]
    show ?thesis by (rule asks_trans)
  next
    case (daemon c1 w1 c2 w2 c3 w3)
    from asks_trans [OF asks_trans [OF s [OF daemon(1)] m [OF daemon(2)]] n [OF daemon(3)]]
      d [OF daemon(4)]
    show ?thesis by (rule asks_trans)
  qed
qed

lemma joinCluster_Inr:
  assumes "joinCluster h config cluster w = Some (Inr c, w')"
  obtains failed entered cert password w1 publicKey privateKey client targetPools pools w2
      targetNetworks networks where
    "\<forall>a \<in> set failed. a \<noteq> []
        \<and> GetRemoteCertificate h (''https://'' @ withPort h a) = None"
    "entered \<noteq> []"
    "GetRemoteCertificate h (''https://'' @ withPort h entered) = Some cert"
    "transcript w1 = transcript w @ map (\<lambda>a. (QClusterAddress, AStr a)) failed
        @ [(QClusterAddress, AStr entered), (QFingerprintOk, ABool True),
           (QClusterPassword, AStr password), (QWipeData, ABool True)]"
    "LoadCert h = Some (publicKey, privateKey)"
    "\<not> SetupTrustFails h publicKey (withPort h entered) (PemEncode h cert) password"
    "ConnectLXD h (''https://'' @ withPort h entered)
       \<lparr>TLSClientCert = publicKey, TLSClientKey = privateKey,
        TLSServerCert = PemEncode h cert\<rparr> = Some client"
    "GetStoragePools client = Some targetPools"
    "joinStoragePools targetPools [] w1 = Some (pools, w2)"
    "GetNetworks client = Some targetNetworks"
    "joinNetworks targetNetworks [] w2 = Some (networks, w')"
    "c = config\<lparr>Cluster := Some (cluster\<lparr>ClusterAddress := withPort h entered,
                                          ClusterCertificate := PemEncode h cert,
                                          ClusterPassword := password\<rparr>),
               StoragePools := pools, Networks := networks\<rparr>"
  using assms
proof (cases rule: joinCluster_unfold)
  case (joined cluster1 w0 w1 publicKey privateKey client targetPools pools w2
      targetNetworks networks)
  from joinLoop_Some [OF joined(1)] obtain failed entered cert ok password where
    f: "\<forall>a \<in> set failed. a \<noteq> []
          \<and> GetRemoteCertificate h (''https://'' @ withPort h a) = None"
    and e: "entered \<noteq> []"
      "GetRemoteCertificate h (''https://'' @ withPort h entered) = Some cert"
    and t: "transcript w0 = transcript w @ map (\<lambda>a. (QClusterAddress, AStr a)) failed
            @ [(QClusterAddress, AStr entered), (QFingerprintOk, ABool ok)]
            @ (if ok then [(QClusterPassword, AStr password)] else [])"
    and r: "Inr cluster1 = (if ok then Inr (cluster\<lparr>ClusterAddress := withPort h entered,
                                      ClusterCertificate := PemEncode h cert,
                                      ClusterPassword := password\<rparr>)
              else Inl UserAborted)"
    by blast
  from r have ok: ok by (cases ok) simp_all
  with r have c1: "cluster1 = cluster\<lparr>ClusterAddress := withPort h entered,
                                      ClusterCertificate := PemEncode h cert,
                                      ClusterPassword := password\<rparr>"
    by simp
  from t ok AskBool_Some [OF joined(2)] have
    t1: "transcript w1 = transcript w @ map (\<lambda>a. (QClusterAddress, AStr a)) failed
        @ [(QClusterAddress, AStr entered), (QFingerprintOk, ABool True),
           (QClusterPassword, AStr password), (QWipeData, ABool True)]"
    by simp
  have tr: "\<not> SetupTrustFails h publicKey (withPort h entered) (PemEncode h cert) password"
    using joined(4) by (simp add: c1)
  have cn: "ConnectLXD h (''https://'' @ withPort h entered)
       \<lparr>TLSClientCert = publicKey, TLSClientKey = privateKey,
        TLSServerCert = PemEncode h cert\<rparr> = Some client"
    using joined(5) by (simp add: c1)
  have c: "c = config\<lparr>Cluster := Some (cluster\<lparr>ClusterAddress := withPort h entered,
                                          ClusterCertificate := PemEncode h cert,
                                          ClusterPassword := password\<rparr>),
               StoragePools := pools, Networks := networks\<rparr>"
    using joined(10) by (simp add: c1)
  from f e t1 joined(3) tr cn joined(6,7,8,9) c show ?thesis by (rule that)
qed simp_all

lemma askClustering_Inr:
  assumes "askClustering h config w = Some (Inr c, w')"
  obtains (single)
      "(QJoinExisting, ABool True) \<notin> set (during w w')"
      "asks {QUseClustering, QServerName, QServerAddress, QJoinExisting, QSetupPassword,
             QTrustPassword} w w'"
      "Cluster c = Cluster config
       \<or> (\<exists>cluster. Cluster c = Some cluster \<and> ClusterAddress cluster = [])"
      "StoragePools c = StoragePools config" "Networks c = Networks config"
      "Profiles c = Profiles config"
      "\<And>k. k \<notin> {''core.https_address'', ''core.trust_password''}
         \<Longrightarrow> Config c k = Config config k"
    | (joined) name address w1 failed entered cert password w2 publicKey privateKey client
        targetPools w3 targetNetworks where
      "transcript (w1 :: world) = transcript w @ [(QUseClustering, ABool True),
          (QServerName, AStr name), (QServerAddress, AStr address), (QJoinExisting, ABool True)]"
      "\<forall>a \<in> set failed. a \<noteq> []
          \<and> GetRemoteCertificate h (''https://'' @ withPort h a) = None"
      "entered \<noteq> []"
      "GetRemoteCertificate h (''https://'' @ withPort h entered) = Some cert"
      "transcript w2 = transcript w1 @ map (\<lambda>a. (QClusterAddress, AStr a)) failed
          @ [(QClusterAddress, AStr entered), (QFingerprintOk, ABool True),
             (QClusterPassword, AStr password), (QWipeData, ABool True)]"
      "LoadCert h = Some (publicKey, privateKey)"
      "\<not> SetupTrustFails h publicKey (withPort h entered) (PemEncode h cert) password"
      "ConnectLXD h (''https://'' @ withPort h entered)
         \<lparr>TLSClientCert = publicKey, TLSClientKey = privateKey,
          TLSServerCert = PemEncode h cert\<rparr> = Some client"
      "GetStoragePools client = Some targetPools"
      "joinStoragePools targetPools [] w2 = Some (StoragePools c, w3)"
      "GetNetworks client = Some targetNetworks"
      "joinNetworks targetNetworks [] w3 = Some (Networks c, w')"
      "Cluster c = Some \<lparr>Enabled = True, ServerName = name,
          ClusterAddress = withPort h entered, ClusterCertificate = PemEncode h cert,
          ClusterPassword = password\<rparr>"
      "Config c = (Config config)(''core.https_address'' \<mapsto> CanonicalNetworkAddress h address)"
      "Profiles c = Profiles config"
  using assms
proof (cases rule: askClustering_unfold)
  case declined
  note t = AskBool_Some [OF declined(1)]
  from declined(2) have c: "c = config" by simp
  show ?thesis
  proof (rule single)
    show "(QJoinExisting, ABool True) \<notin> set (during w w')" using t by simp
    show "asks {QUseClustering, QServerName, QServerAddress, QJoinExisting, QSetupPassword,
             QTrustPassword} w w'"
      using declined(1) by (rule AskBool_asks) simp
  qed (simp_all add: c)
next
  case (bootstrap name entered w1 w2 w3 w4)
  from AskBool_Some [OF bootstrap(1)] AskString_Some [OF bootstrap(2)]
    AskString_Some [OF bootstrap(3)] AskBool_Some [OF bootstrap(4)]
    AskBool_Some [OF bootstrap(5)]
  have t: "transcript w' = transcript w @ [(QUseClustering, ABool True),
      (QServerName, AStr name), (QServerAddress, AStr entered), (QJoinExisting, ABool False),
      (QSetupPassword, ABool False)]"
    by simp
  from bootstrap(6) have c: "c = setConfig ''core.https_address'' (CanonicalNetworkAddress h entered)
               (config\<lparr>Cluster := Some \<lparr>Enabled = True, ServerName = name,
                   ClusterAddress = [], ClusterCertificate = [], ClusterPassword = []\<rparr>\<rparr>)"
    by simp
  show ?thesis
  proof (rule single)
    show "(QJoinExisting, ABool True) \<notin> set (during w w')" using t by simp
    show "asks {QUseClustering, QServerName, QServerAddress, QJoinExisting, QSetupPassword,
             QTrustPassword} w w'"
      unfolding asks_def using t by simp
  qed (simp_all add: c)
next
  case (protected name entered w1 w2 w3 w4 w5 password)
  from AskBool_Some [OF protected(1)] AskString_Some [OF protected(2)]
    AskString_Some [OF protected(3)] AskBool_Some [OF protected(4)]
    AskBool_Some [OF protected(5)]
    AskString_Some [OF protected(6) [unfolded AskPassword_def]]
  have t: "transcript w' = transcript w @ [(QUseClustering, ABool True),
      (QServerName, AStr name), (QServerAddress, AStr entered), (QJoinExisting, ABool False),
      (QSetupPassword, ABool True), (QTrustPassword, AStr password)]"
    by simp
  from protected(7) have c: "c = setConfig ''core.trust_password'' password
             (setConfig ''core.https_address'' (CanonicalNetworkAddress h entered)
               (config\<lparr>Cluster := Some \<lparr>Enabled = True, ServerName = name,
                   ClusterAddress = [], ClusterCertificate = [], ClusterPassword = []\<rparr>\<rparr>))"
    by simp
  show ?thesis
  proof (rule single)
    show "(QJoinExisting, ABool True) \<notin> set (during w w')" using t by simp
    show "asks {QUseClustering, QServerName, QServerAddress, QJoinExisting, QSetupPassword,
             QTrustPassword} w w'"
      unfolding asks_def using t by simp
  qed (simp_all add: c)
next
  case (join name address w1 w2 w3 w4)
  from AskBool_Some [OF join(1)] AskString_Some [OF join(2)]
    AskString_Some [OF join(3)] AskBool_Some [OF join(4)]
  have t: "transcript w4 = transcript w @ [(QUseClustering, ABool True),
      (QServerName, AStr name), (QServerAddress, AStr address), (QJoinExisting, ABool True)]"
    by simp
  from join(5) show ?thesis
  proof (cases rule: joinCluster_Inr)
    case (1 failed entered cert password w5 publicKey privateKey client targetPools pools w6
        targetNetworks networks)
    show ?thesis
    proof (rule joined [OF t 1(1,2,3,4,5,6,7,8)])
      show "joinStoragePools targetPools [] w5 = Some (StoragePools c, w6)"
        using 1(9) by (simp add: 1(12))
      show "GetNetworks client = Some targetNetworks" by (rule 1(10))
      show "joinNetworks targetNetworks [] w6 = Some (Networks c, w')"
        using 1(11) by (simp add: 1(12))
    qed (simp_all add: 1(12))
  qed
qed

lemma RunInteractive_Inr:
  assumes "RunInteractive h w0 = Some (Inr c', w')"
  obtains (standalone) c w1 c1 w2 c2 w3 c3 w4 w5 yaml where
      "askClustering h emptyConfig w0 = Some (Inr c, w1)"
      "(QJoinExisting, ABool True) \<notin> set (during w0 w')"
      "asks {QUseClustering, QServerName, QServerAddress, QJoinExisting, QSetupPassword,
             QTrustPassword} w0 w1"
      "StoragePools c = []" "Networks c = []"
      "\<And>k. k \<notin> {''core.https_address'', ''core.trust_password''} \<Longrightarrow> Config c k = None"
      "askStorage h c w1 = Some (Inr c1, w2)" "askMAAS h c1 w2 = Some (Inr c2, w3)"
      "askNetworking h c2 w3 = Some (Inr c3, w4)" "askDaemon h c3 w4 = Some (Inr c', w5)"
      "AskBool QPrintYaml False w5 = Some (yaml, w')"
    | (joined) name address w1 failed entered cert password w2 publicKey privateKey client
        targetPools w3 targetNetworks w4 yaml where
      "(QJoinExisting, ABool True) \<in> set (during w0 w')"
      "transcript (w1 :: world) = transcript w0 @ [(QUseClustering, ABool True),
          (QServerName, AStr name), (QServerAddress, AStr address), (QJoinExisting, ABool True)]"
      "\<forall>a \<in> set failed. a \<noteq> []
          \<and> GetRemoteCertificate h (''https://'' @ withPort h a) = None"
      "entered \<noteq> []"
      "GetRemoteCertificate h (''https://'' @ withPort h entered) = Some cert"
      "transcript w2 = transcript w1 @ map (\<lambda>a. (QClusterAddress, AStr a)) failed
          @ [(QClusterAddress, AStr entered), (QFingerprintOk, ABool True),
             (QClusterPassword, AStr password), (QWipeData, ABool True)]"
      "LoadCert h = Some (publicKey, privateKey)"
      "\<not> SetupTrustFails h publicKey (withPort h entered) (PemEncode h cert) password"
      "ConnectLXD h (''https://'' @ withPort h entered)
         \<lparr>TLSClientCert = publicKey, TLSClientKey = privateKey,
          TLSServerCert = PemEncode h cert\<rparr> = Some client"
      "GetStoragePools client = Some targetPools"
      "joinStoragePools targetPools [] w2 = Some (StoragePools c', w3)"
      "GetNetworks client = Some targetNetworks"
      "joinNetworks targetNetworks [] w3 = Some (Networks c', w4)"
      "AskBool QPrintYaml False w4 = Some (yaml, w')"
      "Cluster c' = Some \<lparr>Enabled = True, ServerName = name,
          ClusterAddress = withPort h entered, ClusterCertificate = PemEncode h cert,
          ClusterPassword = password\<rparr>"
      "Config c' = [''core.https_address'' \<mapsto> CanonicalNetworkAddress h address]"
      "Profiles c' = Profiles emptyConfig"
  using assms
proof (cases rule: RunInteractive_unfold)
  case (configured c w1 c1 w2 yaml)
  from configured(5) have c1: "c1 = c'"
    by (cases "yaml \<and> YamlMarshalFails h c1") simp_all
  from configured(1) show ?thesis
  proof (cases rule: askClustering_Inr)
    case single
    from configured(3) [unfolded c1] obtain d1 v1 d2 v2 d3 v3 where
      o: "askStorage h c w1 = Some (Inr d1, v1)" "askMAAS h d1 v1 = Some (Inr d2, v2)"
        "askNetworking h d2 v2 = Some (Inr d3, v3)" "askDaemon h d3 v3 = Some (Inr c', w2)"
      by (cases rule: askOthers_unfold) simp_all
    from single(2) obtain xs where
      xs: "transcript w1 = transcript w0 @ xs" "during w0 w1 = xs"
      by (rule asks_duringE)
    from askOthers_asks [OF configured(3)] obtain ys where
      ys: "transcript w2 = transcript w1 @ ys" "\<forall>e \<in> set ys. fst e \<in> otherQuestions"
      by (rule asks_duringE)
    from xs(1) ys(1) AskBool_Some [OF configured(4)]
    have "during w0 w' = xs @ ys @ [(QPrintYaml, ABool yaml)]"
      by (simp add: during_def)
    moreover have "(QJoinExisting, ABool True) \<notin> set ys"
      using ys(2) by (auto simp: otherQuestions_def storageQuestions_def maasQuestions_def
          networkQuestions_def daemonQuestions_def)
    ultimately have j: "(QJoinExisting, ABool True) \<notin> set (during w0 w')"
      using single(1) xs(2) by simp
    have e: "StoragePools c = []" "Networks c = []"
      using single(4,5) by (simp_all add: emptyConfig_def)
    have k: "\<And>k. k \<notin> {''core.https_address'', ''core.trust_password''} \<Longrightarrow> Config c k = None"
      using single(7) by (simp add: emptyConfig_def)
    from configured(1) j single(2) e k o configured(4) show ?thesis
      by (rule standalone)
  next
    case (joined name address w1 failed entered cert password w2 publicKey privateKey client
        targetPools w3 targetNetworks)
    from joined(3,13) configured(2) show ?thesis
      by (simp add: withPort_nonempty)
  qed
next
  case (joined c w1 yaml)
  from joined(4) have c: "c = c'"
    by (cases "yaml \<and> YamlMarshalFails h c") simp_all
  from joined(1) show ?thesis
  proof (cases rule: askClustering_Inr)
    case single
    from single(3) joined(2) show ?thesis
      by (auto simp: emptyConfig_def)
  next
    case j: (joined name address v1 failed entered cert password v2 publicKey privateKey client
        targetPools v3 targetNetworks)
    from joinStoragePools_asks [OF j(10)] obtain ys where
      ys: "transcript v3 = transcript v2 @ ys"
      by (rule asks_duringE)
    from joinNetworks_asks [OF j(12)] obtain zs where
      zs: "transcript w1 = transcript v3 @ zs"
      by (rule asks_duringE)
    from j(1,5) ys zs AskBool_Some [OF joined(3)]
    have m: "(QJoinExisting, ABool True) \<in> set (during w0 w')"
      by (simp add: during_def)
    have cf: "Config c' = [''core.https_address'' \<mapsto> CanonicalNetworkAddress h address]"
      using j(14) by (simp add: c emptyConfig_def)
    from m j(1,2,3,4,5,6,7,8,9) j(10) [unfolded c] j(11) j(12) [unfolded c] joined(3)
      j(13) [unfolded c] cf j(15) [unfolded c]
    show ?thesis by (rule that(2))
  qed
qed simp_all

lemma keptPool_filter:
  "filter (\<lambda>pool. pool_Status pool \<noteq> ''PENDING'' \<and> pool_Driver pool \<noteq> ''ceph'') targetPools
     = filter keptPool targetPools"
  by (rule filter_cong) (simp_all add: keptPool_def)

lemma inherited_names:
  "list_all2 inherited kept new
   \<Longrightarrow> map (\<lambda>p. (sp_Name p, sp_Driver p)) new
         = map (\<lambda>pool. (pool_Name pool, pool_Driver pool)) kept"
  by (induction rule: list_all2_induct) (simp_all add: inherited_def)

lemma joinStoragePools_names:
  assumes "joinStoragePools targetPools pools w = Some (out, w')"
  shows "map (\<lambda>p. (sp_Name p, sp_Driver p)) out
        = map (\<lambda>p. (sp_Name p, sp_Driver p)) pools
          @ map (\<lambda>pool. (pool_Name pool, pool_Driver pool))
              (filter (\<lambda>pool. pool_Status pool \<noteq> ''PENDING'' \<and> pool_Driver pool \<noteq> ''ceph'')
                 targetPools)"
proof -
  from joinStoragePools_Some [OF assms] obtain new where
    "out = pools @ new" "list_all2 inherited (filter keptPool targetPools) new"
    by blast
  then show ?thesis
    unfolding keptPool_filter by (simp add: inherited_names)
qed

lemmas example_defs = exampleHost_def exampleCluster_def freshPool_def dataPool_def
  sharedPool_def plainPool_def

lemmas run_defs = RunInteractive_def bindE_def askClustering_def joinCluster_def
  joinLoop.simps emptyConfig_def AskBool_def AskString_def AskPasswordOnce_def AskPassword_def
  operator_def reply_def accepts_def serverName_def setConfig_def during_def mget_def Let_def

subsection \<open>Joining: the storage pools of the cluster\<close>

text \<open>
  Claim C2. For every list of storage pools fetched from the cluster, the pools that the
  loop of lines 173-201 appends are exactly the fetched pools whose status is not
  \<open>PENDING\<close> and whose driver is not \<open>ceph\<close>, in the order of the list, each with the name
  and the driver of the fetched pool. In particular a pending pool followed by a ready
  pool gives exactly the ready pool. And the storage pools of every configuration that a
  run returns after the operator chose to join are those of the list that the cluster
  node, reached at the stored address with the stored certificate, answered.
\<close>

theorem join_storage_pools_filter:
  "(joinStoragePools targetPools pools w = Some (out, w')
     \<longrightarrow> map (\<lambda>p. (sp_Name p, sp_Driver p)) out
          = map (\<lambda>p. (sp_Name p, sp_Driver p)) pools
            @ map (\<lambda>pool. (pool_Name pool, pool_Driver pool))
                (filter (\<lambda>pool. pool_Status pool \<noteq> ''PENDING'' \<and> pool_Driver pool \<noteq> ''ceph'')
                   targetPools))
   \<and> (pool_Status pendingPool = ''PENDING''
        \<and> pool_Status readyPool \<noteq> ''PENDING'' \<and> pool_Driver readyPool \<noteq> ''ceph''
        \<and> joinStoragePools [pendingPool, readyPool] [] v = Some (out2, v')
     \<longrightarrow> map (\<lambda>p. (sp_Name p, sp_Driver p)) out2
          = [(pool_Name readyPool, pool_Driver readyPool)])
   \<and> (RunInteractive h w0 = Some (Inr c', w2)
        \<and> (QJoinExisting, ABool True) \<in> set (during w0 w2)
     \<longrightarrow> (\<exists>cluster publicKey privateKey client fetched.
            Cluster c' = Some cluster \<and> LoadCert h = Some (publicKey, privateKey)
            \<and> ConnectLXD h (''https://'' @ ClusterAddress cluster)
                 \<lparr>TLSClientCert = publicKey, TLSClientKey = privateKey,
                  TLSServerCert = ClusterCertificate cluster\<rparr> = Some client
            \<and> GetStoragePools client = Some fetched
            \<and> map (\<lambda>p. (sp_Name p, sp_Driver p)) (StoragePools c')
                = map (\<lambda>pool. (pool_Name pool, pool_Driver pool))
                    (filter (\<lambda>pool. pool_Status pool \<noteq> ''PENDING''
                                \<and> pool_Driver pool \<noteq> ''ceph'') fetched)))"
proof -
  have 1: "joinStoragePools targetPools pools w = Some (out, w')
     \<longrightarrow> map (\<lambda>p. (sp_Name p, sp_Driver p)) out
          = map (\<lambda>p. (sp_Name p, sp_Driver p)) pools
            @ map (\<lambda>pool. (pool_Name pool, pool_Driver pool))
                (filter (\<lambda>pool. pool_Status pool \<noteq> ''PENDING'' \<and> pool_Driver pool \<noteq> ''ceph'')
                   targetPools)"
    by (intro impI) (rule joinStoragePools_names)
  have 2: "pool_Status pendingPool = ''PENDING''
        \<and> pool_Status readyPool \<noteq> ''PENDING'' \<and> pool_Driver readyPool \<noteq> ''ceph''
        \<and> joinStoragePools [pendingPool, readyPool] [] v = Some (out2, v')
     \<longrightarrow> map (\<lambda>p. (sp_Name p, sp_Driver p)) out2
          = [(pool_Name readyPool, pool_Driver readyPool)]"
  proof (intro impI, elim conjE)
    assume a: "pool_Status pendingPool = ''PENDING''" "pool_Status readyPool \<noteq> ''PENDING''"
      "pool_Driver readyPool \<noteq> ''ceph''"
      and j: "joinStoragePools [pendingPool, readyPool] [] v = Some (out2, v')"
    from joinStoragePools_names [OF j] a
    show "map (\<lambda>p. (sp_Name p, sp_Driver p)) out2
          = [(pool_Name readyPool, pool_Driver readyPool)]"
      by simp
  qed
  have 3: "RunInteractive h w0 = Some (Inr c', w2)
        \<and> (QJoinExisting, ABool True) \<in> set (during w0 w2)
     \<longrightarrow> (\<exists>cluster publicKey privateKey client fetched.
            Cluster c' = Some cluster \<and> LoadCert h = Some (publicKey, privateKey)
            \<and> ConnectLXD h (''https://'' @ ClusterAddress cluster)
                 \<lparr>TLSClientCert = publicKey, TLSClientKey = privateKey,
                  TLSServerCert = ClusterCertificate cluster\<rparr> = Some client
            \<and> GetStoragePools client = Some fetched
            \<and> map (\<lambda>p. (sp_Name p, sp_Driver p)) (StoragePools c')
                = map (\<lambda>pool. (pool_Name pool, pool_Driver pool))
                    (filter (\<lambda>pool. pool_Status pool \<noteq> ''PENDING''
                                \<and> pool_Driver pool \<noteq> ''ceph'') fetched))"
  proof (intro impI, elim conjE)
    assume r: "RunInteractive h w0 = Some (Inr c', w2)"
      and j: "(QJoinExisting, ABool True) \<in> set (during w0 w2)"
    from r show "\<exists>cluster publicKey privateKey client fetched.
            Cluster c' = Some cluster \<and> LoadCert h = Some (publicKey, privateKey)
            \<and> ConnectLXD h (''https://'' @ ClusterAddress cluster)
                 \<lparr>TLSClientCert = publicKey, TLSClientKey = privateKey,
                  TLSServerCert = ClusterCertificate cluster\<rparr> = Some client
            \<and> GetStoragePools client = Some fetched
            \<and> map (\<lambda>p. (sp_Name p, sp_Driver p)) (StoragePools c')
                = map (\<lambda>pool. (pool_Name pool, pool_Driver pool))
                    (filter (\<lambda>pool. pool_Status pool \<noteq> ''PENDING''
                                \<and> pool_Driver pool \<noteq> ''ceph'') fetched)"
    proof (cases rule: RunInteractive_Inr)
      case (standalone c w1 c1 w2 c2 w3 c3 w4 w5 yaml)
      with j show ?thesis by simp
    next
      case (joined name address w1 failed entered cert password v2 publicKey privateKey client
          fetched v3 targetNetworks v4 yaml)
      let ?cluster = "\<lparr>Enabled = True, ServerName = name,
          ClusterAddress = withPort h entered, ClusterCertificate = PemEncode h cert,
          ClusterPassword = password\<rparr>"
      have n: "map (\<lambda>p. (sp_Name p, sp_Driver p)) (StoragePools c')
                = map (\<lambda>pool. (pool_Name pool, pool_Driver pool))
                    (filter (\<lambda>pool. pool_Status pool \<noteq> ''PENDING''
                                \<and> pool_Driver pool \<noteq> ''ceph'') fetched)"
        using joinStoragePools_names [OF joined(11)] by simp
      have cn: "ConnectLXD h (''https://'' @ ClusterAddress ?cluster)
                 \<lparr>TLSClientCert = publicKey, TLSClientKey = privateKey,
                  TLSServerCert = ClusterCertificate ?cluster\<rparr> = Some client"
        using joined(9) by simp
      show ?thesis
        by (intro exI [of _ ?cluster] exI [of _ publicKey] exI [of _ privateKey]
            exI [of _ client] exI [of _ fetched] conjI)
          (rule joined(15) joined(7) cn joined(10) n)+
    qed
  qed
  show ?thesis
    by (intro conjI) (rule 1 2 3)+
qed

theorem join_storage_pools_filter_witness:
  "(\<exists>out w'. joinStoragePools [freshPool, dataPool, sharedPool, plainPool] []
                (operator [AStr ''/dev/sdc'']) = Some (out, w')
        \<and> map (\<lambda>p. (sp_Name p, sp_Driver p)) out = [(''data'', ''zfs''), (''plain'', ''dir'')])
   \<and> pool_Status freshPool = ''PENDING''
   \<and> pool_Status plainPool \<noteq> ''PENDING'' \<and> pool_Driver plainPool \<noteq> ''ceph''
   \<and> (\<exists>out2 v'. joinStoragePools [freshPool, plainPool] [] (operator []) = Some (out2, v')
        \<and> map (\<lambda>p. (sp_Name p, sp_Driver p)) out2 = [(''plain'', ''dir'')])
   \<and> (\<exists>c' w2. RunInteractive exampleHost (operator joinScript) = Some (Inr c', w2)
        \<and> (QJoinExisting, ABool True) \<in> set (during (operator joinScript) w2)
        \<and> map (\<lambda>p. (sp_Name p, sp_Driver p)) (StoragePools c')
            = [(''data'', ''zfs''), (''plain'', ''dir'')])"
proof -
  obtain out w' where
    a: "joinStoragePools [freshPool, dataPool, sharedPool, plainPool] []
          (operator [AStr ''/dev/sdc'']) = Some (out, w')"
    by (simp add: example_defs run_defs)
  obtain out2 v' where
    b: "joinStoragePools [freshPool, plainPool] [] (operator []) = Some (out2, v')"
    by (simp add: example_defs run_defs)
  have s: "pool_Status freshPool = ''PENDING''" "pool_Status plainPool \<noteq> ''PENDING''"
    "pool_Driver plainPool \<noteq> ''ceph''"
    by (simp_all add: example_defs)
  obtain c' w2 where
    r: "RunInteractive exampleHost (operator joinScript) = Some (Inr c', w2)"
    and j: "(QJoinExisting, ABool True) \<in> set (during (operator joinScript) w2)"
    by (simp add: example_defs run_defs joinScript_def)
  note inst1 = join_storage_pools_filter [where targetPools = "[freshPool, dataPool, sharedPool, plainPool]"
      and pools = "[]" and w = "operator [AStr ''/dev/sdc'']" and out = out and w' = w']
  note inst2 = join_storage_pools_filter [where pendingPool = freshPool and readyPool = plainPool
      and v = "operator []" and ?out2.0 = out2 and v' = v']
  note inst3 = join_storage_pools_filter [where h = exampleHost and ?w0.0 = "operator joinScript"
      and c' = c' and ?w2.0 = w2]
  have 1: "map (\<lambda>p. (sp_Name p, sp_Driver p)) out = [(''data'', ''zfs''), (''plain'', ''dir'')]"
    using inst1 a by (simp add: example_defs)
  have 2: "map (\<lambda>p. (sp_Name p, sp_Driver p)) out2 = [(''plain'', ''dir'')]"
    using inst2 b s by (simp add: example_defs)
  have 3: "map (\<lambda>p. (sp_Name p, sp_Driver p)) (StoragePools c')
            = [(''data'', ''zfs''), (''plain'', ''dir'')]"
    using inst3 [THEN conjunct2, THEN conjunct2, rule_format, OF conjI [OF r j]]
  proof (elim exE conjE)
    fix cluster publicKey privateKey client fetched
    assume cn: "ConnectLXD exampleHost (''https://'' @ ClusterAddress cluster)
                 \<lparr>TLSClientCert = publicKey, TLSClientKey = privateKey,
                  TLSServerCert = ClusterCertificate cluster\<rparr> = Some client"
      and f: "GetStoragePools client = Some fetched"
      and m: "map (\<lambda>p. (sp_Name p, sp_Driver p)) (StoragePools c')
                = map (\<lambda>pool. (pool_Name pool, pool_Driver pool))
                    (filter (\<lambda>pool. pool_Status pool \<noteq> ''PENDING''
                                \<and> pool_Driver pool \<noteq> ''ceph'') fetched)"
    from cn have "client = exampleCluster"
      by (simp add: exampleHost_def split: if_splits)
    with f have "fetched = [freshPool, dataPool, sharedPool, plainPool]"
      by (simp add: exampleCluster_def)
    with m show ?thesis
      by (simp add: example_defs)
  qed
  show ?thesis
    by (intro conjI exI [of _ out] exI [of _ w'] exI [of _ out2] exI [of _ v']
        exI [of _ c'] exI [of _ w2])
      (rule a b s r j 1 2 3)+
qed

lemma joinStoragePools_source_step:
  assumes "pool_Status pool \<noteq> ''PENDING''" "pool_Driver pool \<noteq> ''ceph''"
    and "mget (pool_Config pool) ''source'' \<noteq> []"
    and "pending w = AStr entered # rest"
  shows "joinStoragePools (pool # targetPools) pools w
       = joinStoragePools targetPools
           (pools @ [\<lparr>sp_Name = pool_Name pool, sp_Driver = pool_Driver pool,
                      sp_Config = (pool_Config pool)(''source'' \<mapsto> entered)\<rparr>])
           \<lparr>pending = rest,
            transcript = transcript w @ [(QPoolSource (pool_Name pool), AStr entered)]\<rparr>"
proof -
  have "AskString (QPoolSource (pool_Name pool)) [] (Some (\<lambda>s. True)) w
      = Some (entered, \<lparr>pending = rest,
            transcript = transcript w @ [(QPoolSource (pool_Name pool), AStr entered)]\<rparr>)"
    using assms(4) by (simp add: AskString_def accepts_def reply_def)
  with assms(1,2,3) show ?thesis by (simp add: Let_def)
qed

subsection \<open>Joining: the source of a storage pool\<close>

text \<open>
  Claim C9. In join mode the local pools are made from the kept pools of the cluster one
  by one (\<open>inherited\<close>): the config of a local pool is the config of the cluster's pool,
  with the value of \<open>source\<close> replaced where the cluster's pool has a non-empty source, and
  the value put there is the operator's answer to the source question of that pool, the
  questions being asked in the order of the pools (\<open>sourceAnswers\<close>). An operator who
  enters a line, the empty line included, gets exactly that line as the value of
  \<open>source\<close>: the empty string is stored, the key is neither dropped nor left at the
  cluster's value. The same holds of the storage pools of every configuration that a run
  returns after the operator chose to join.
\<close>

theorem join_storage_pool_source:
  "(joinStoragePools targetPools pools w = Some (out, w')
     \<longrightarrow> (\<exists>new. out = pools @ new
            \<and> during w w' = sourceAnswers (filter keptPool targetPools) new
            \<and> list_all2 inherited (filter keptPool targetPools) new))
   \<and> (pool_Status pool \<noteq> ''PENDING'' \<and> pool_Driver pool \<noteq> ''ceph''
        \<and> mget (pool_Config pool) ''source'' \<noteq> [] \<and> pending v = AStr entered # rest
     \<longrightarrow> joinStoragePools (pool # otherPools) localPools v
          = joinStoragePools otherPools
              (localPools @ [\<lparr>sp_Name = pool_Name pool, sp_Driver = pool_Driver pool,
                              sp_Config = (pool_Config pool)(''source'' \<mapsto> entered)\<rparr>])
              \<lparr>pending = rest,
               transcript = transcript v @ [(QPoolSource (pool_Name pool), AStr entered)]\<rparr>)
   \<and> (RunInteractive h w0 = Some (Inr c', w2)
        \<and> (QJoinExisting, ABool True) \<in> set (during w0 w2)
     \<longrightarrow> (\<exists>cluster publicKey privateKey client fetched before after.
            Cluster c' = Some cluster \<and> LoadCert h = Some (publicKey, privateKey)
            \<and> ConnectLXD h (''https://'' @ ClusterAddress cluster)
                 \<lparr>TLSClientCert = publicKey, TLSClientKey = privateKey,
                  TLSServerCert = ClusterCertificate cluster\<rparr> = Some client
            \<and> GetStoragePools client = Some fetched
            \<and> list_all2 inherited (filter keptPool fetched) (StoragePools c')
            \<and> during w0 w2
                = before @ sourceAnswers (filter keptPool fetched) (StoragePools c') @ after))"
proof -
  have 1: "joinStoragePools targetPools pools w = Some (out, w')
     \<longrightarrow> (\<exists>new. out = pools @ new
            \<and> during w w' = sourceAnswers (filter keptPool targetPools) new
            \<and> list_all2 inherited (filter keptPool targetPools) new)"
  proof
    assume "joinStoragePools targetPools pools w = Some (out, w')"
    from joinStoragePools_Some [OF this] obtain new where
      "out = pools @ new"
      "transcript w' = transcript w @ sourceAnswers (filter keptPool targetPools) new"
      "list_all2 inherited (filter keptPool targetPools) new"
      by blast
    then show "\<exists>new. out = pools @ new
            \<and> during w w' = sourceAnswers (filter keptPool targetPools) new
            \<and> list_all2 inherited (filter keptPool targetPools) new"
      by (intro exI [of _ new]) simp
  qed
  have 2: "pool_Status pool \<noteq> ''PENDING'' \<and> pool_Driver pool \<noteq> ''ceph''
        \<and> mget (pool_Config pool) ''source'' \<noteq> [] \<and> pending v = AStr entered # rest
     \<longrightarrow> joinStoragePools (pool # otherPools) localPools v
          = joinStoragePools otherPools
              (localPools @ [\<lparr>sp_Name = pool_Name pool, sp_Driver = pool_Driver pool,
                              sp_Config = (pool_Config pool)(''source'' \<mapsto> entered)\<rparr>])
              \<lparr>pending = rest,
               transcript = transcript v @ [(QPoolSource (pool_Name pool), AStr entered)]\<rparr>"
    by (intro impI, elim conjE) (rule joinStoragePools_source_step)
  have 3: "RunInteractive h w0 = Some (Inr c', w2)
        \<and> (QJoinExisting, ABool True) \<in> set (during w0 w2)
     \<longrightarrow> (\<exists>cluster publicKey privateKey client fetched before after.
            Cluster c' = Some cluster \<and> LoadCert h = Some (publicKey, privateKey)
            \<and> ConnectLXD h (''https://'' @ ClusterAddress cluster)
                 \<lparr>TLSClientCert = publicKey, TLSClientKey = privateKey,
                  TLSServerCert = ClusterCertificate cluster\<rparr> = Some client
            \<and> GetStoragePools client = Some fetched
            \<and> list_all2 inherited (filter keptPool fetched) (StoragePools c')
            \<and> during w0 w2
                = before @ sourceAnswers (filter keptPool fetched) (StoragePools c') @ after)"
  proof (intro impI, elim conjE)
    assume r: "RunInteractive h w0 = Some (Inr c', w2)"
      and j: "(QJoinExisting, ABool True) \<in> set (during w0 w2)"
    from r show "\<exists>cluster publicKey privateKey client fetched before after.
            Cluster c' = Some cluster \<and> LoadCert h = Some (publicKey, privateKey)
            \<and> ConnectLXD h (''https://'' @ ClusterAddress cluster)
                 \<lparr>TLSClientCert = publicKey, TLSClientKey = privateKey,
                  TLSServerCert = ClusterCertificate cluster\<rparr> = Some client
            \<and> GetStoragePools client = Some fetched
            \<and> list_all2 inherited (filter keptPool fetched) (StoragePools c')
            \<and> during w0 w2
                = before @ sourceAnswers (filter keptPool fetched) (StoragePools c') @ after"
    proof (cases rule: RunInteractive_Inr)
      case (standalone c w1 c1 w2 c2 w3 c3 w4 w5 yaml)
      with j show ?thesis by simp
    next
      case (joined name address v1 failed entered cert password v2 publicKey privateKey client
          fetched v3 targetNetworks v4 yaml)
      let ?cluster = "\<lparr>Enabled = True, ServerName = name,
          ClusterAddress = withPort h entered, ClusterCertificate = PemEncode h cert,
          ClusterPassword = password\<rparr>"
      let ?before = "[(QUseClustering, ABool True), (QServerName, AStr name),
          (QServerAddress, AStr address), (QJoinExisting, ABool True)]
          @ map (\<lambda>a. (QClusterAddress, AStr a)) failed
          @ [(QClusterAddress, AStr entered), (QFingerprintOk, ABool True),
             (QClusterPassword, AStr password), (QWipeData, ABool True)]"
      from joinStoragePools_Some [OF joined(11)] have
        t3: "transcript v3 = transcript v2
               @ sourceAnswers (filter keptPool fetched) (StoragePools c')"
        and l: "list_all2 inherited (filter keptPool fetched) (StoragePools c')"
        by auto
      from joinNetworks_asks [OF joined(13)] obtain zs where
        zs: "transcript v4 = transcript v3 @ zs"
        by (rule asks_duringE)
      have d: "during w0 w2 = ?before
          @ sourceAnswers (filter keptPool fetched) (StoragePools c')
          @ (zs @ [(QPrintYaml, ABool yaml)])"
        using joined(2,6) t3 zs AskBool_Some [OF joined(14)] by (simp add: during_def)
      have cn: "ConnectLXD h (''https://'' @ ClusterAddress ?cluster)
                 \<lparr>TLSClientCert = publicKey, TLSClientKey = privateKey,
                  TLSServerCert = ClusterCertificate ?cluster\<rparr> = Some client"
        using joined(9) by simp
      show ?thesis
        by (intro exI [of _ ?cluster] exI [of _ publicKey] exI [of _ privateKey]
            exI [of _ client] exI [of _ fetched] exI [of _ ?before]
            exI [of _ "zs @ [(QPrintYaml, ABool yaml)]"] conjI)
          (rule joined(15) joined(7) cn joined(10) l d)+
    qed
  qed
  show ?thesis
    by (intro conjI) (rule 1 2 3)+
qed


theorem join_storage_pool_source_witness:
  "(\<exists>out w'. joinStoragePools [freshPool, dataPool, sharedPool, plainPool] []
                (operator [AStr ''/dev/sdc'']) = Some (out, w')
        \<and> during (operator [AStr ''/dev/sdc'']) w'
            = sourceAnswers (filter keptPool [freshPool, dataPool, sharedPool, plainPool]) out
        \<and> list_all2 inherited (filter keptPool [freshPool, dataPool, sharedPool, plainPool]) out
        \<and> map sp_Config out = [(pool_Config dataPool)(''source'' \<mapsto> ''/dev/sdc''), Map.empty])
   \<and> pool_Status dataPool \<noteq> ''PENDING'' \<and> pool_Driver dataPool \<noteq> ''ceph''
   \<and> mget (pool_Config dataPool) ''source'' \<noteq> []
   \<and> pending (operator [AStr []]) = [AStr []]
   \<and> joinStoragePools [dataPool] [] (operator [AStr []])
       = Some ([\<lparr>sp_Name = pool_Name dataPool, sp_Driver = pool_Driver dataPool,
                  sp_Config = (pool_Config dataPool)(''source'' \<mapsto> [])\<rparr>],
               \<lparr>pending = [], transcript = [(QPoolSource (pool_Name dataPool), AStr [])]\<rparr>)
   \<and> (\<exists>c' w2. RunInteractive exampleHost (operator joinScript) = Some (Inr c', w2)
        \<and> (QJoinExisting, ABool True) \<in> set (during (operator joinScript) w2)
        \<and> list_all2 inherited (filter keptPool [freshPool, dataPool, sharedPool, plainPool])
             (StoragePools c')
        \<and> map sp_Config (StoragePools c') = [(pool_Config dataPool)(''source'' \<mapsto> []), Map.empty])"
proof -
  let ?pools = "[freshPool, dataPool, sharedPool, plainPool]"
  obtain out w' where
    a: "joinStoragePools ?pools [] (operator [AStr ''/dev/sdc'']) = Some (out, w')"
    and ac: "map sp_Config out = [(pool_Config dataPool)(''source'' \<mapsto> ''/dev/sdc''), Map.empty]"
    by (simp add: example_defs run_defs)
  have s: "pool_Status dataPool \<noteq> ''PENDING''" "pool_Driver dataPool \<noteq> ''ceph''"
    "mget (pool_Config dataPool) ''source'' \<noteq> []"
    by (simp_all add: example_defs mget_def)
  have p: "pending (operator [AStr []]) = [AStr []]"
    by (simp add: operator_def)
  obtain c' w2 where
    r: "RunInteractive exampleHost (operator joinScript) = Some (Inr c', w2)"
    and j: "(QJoinExisting, ABool True) \<in> set (during (operator joinScript) w2)"
    and rc: "map sp_Config (StoragePools c') = [(pool_Config dataPool)(''source'' \<mapsto> []), Map.empty]"
    by (simp add: example_defs run_defs joinScript_def)
  note inst1 = join_storage_pool_source [where targetPools = ?pools
      and pools = "[]" and w = "operator [AStr ''/dev/sdc'']" and out = out and w' = w']
  note inst2 = join_storage_pool_source [where pool = dataPool and v = "operator [AStr []]"
      and entered = "[]" and rest = "[]" and otherPools = "[]" and localPools = "[]"]
  note inst3 = join_storage_pool_source [where h = exampleHost and ?w0.0 = "operator joinScript"
      and c' = c' and ?w2.0 = w2]
  from inst1 [THEN conjunct1, rule_format, OF a] have
    1: "during (operator [AStr ''/dev/sdc'']) w' = sourceAnswers (filter keptPool ?pools) out"
    "list_all2 inherited (filter keptPool ?pools) out"
    by auto
  have 2: "joinStoragePools [dataPool] [] (operator [AStr []])
       = Some ([\<lparr>sp_Name = pool_Name dataPool, sp_Driver = pool_Driver dataPool,
                  sp_Config = (pool_Config dataPool)(''source'' \<mapsto> [])\<rparr>],
               \<lparr>pending = [], transcript = [(QPoolSource (pool_Name dataPool), AStr [])]\<rparr>)"
    using inst2 [THEN conjunct2, THEN conjunct1] s p by (simp add: operator_def)
  have 3: "list_all2 inherited (filter keptPool ?pools) (StoragePools c')"
    using inst3 [THEN conjunct2, THEN conjunct2, rule_format, OF conjI [OF r j]]
  proof (elim exE conjE)
    fix cluster publicKey privateKey client fetched
    assume cn: "ConnectLXD exampleHost (''https://'' @ ClusterAddress cluster)
                 \<lparr>TLSClientCert = publicKey, TLSClientKey = privateKey,
                  TLSServerCert = ClusterCertificate cluster\<rparr> = Some client"
      and f: "GetStoragePools client = Some fetched"
      and l: "list_all2 inherited (filter keptPool fetched) (StoragePools c')"
    from cn have "client = exampleCluster"
      by (simp add: exampleHost_def split: if_splits)
    with f have "fetched = ?pools"
      by (simp add: exampleCluster_def)
    with l show ?thesis by simp
  qed
  show ?thesis
    by (intro conjI exI [of _ out] exI [of _ w'] exI [of _ c'] exI [of _ w2])
      (rule a ac s p r j rc 1 2 3)+
qed

end
